(* ===== verification/Prelude.thy ===== *)
theory Prelude
  imports Main "HOL-Library.Word"
begin

text \<open>
  Shared vocabulary of the CoreOS development: the machine integer types, the scanning
  loops the kernel writes again and again (\<^verbatim>\<open>for f in a..b\<close> with an early return,
  \<^verbatim>\<open>iter().position(..)\<close>), Rust's checked and saturating arithmetic, and the outcome of
  kernel code that may panic, fault on a user page or wait. The kernel is built in release
  mode (\<^verbatim>\<open>xtask/src/main.rs\<close>), so plain arithmetic on \<^verbatim>\<open>usize\<close>, \<^verbatim>\<open>u64\<close> and \<^verbatim>\<open>u32\<close>
  wraps, as it does on words.
\<close>

unbundle bit_operations_syntax

section \<open>Machine integers\<close>

type_synonym u8 = "8 word"
type_synonym u16 = "16 word"
type_synonym u32 = "32 word"
type_synonym u64 = "64 word"
type_synonym usize = "64 word"

named_theorems rust_defs \<open>definitions of the Rust integer operations\<close>
named_theorems frame_simps \<open>what an operation leaves unchanged\<close>
named_theorems inv_intros \<open>invariant preservation, one rule per operation\<close>

definition checked_add :: "'a::len word \<Rightarrow> 'a word \<Rightarrow> 'a word option" where
  [rust_defs]: "checked_add a b =
     (if unat a + unat b < 2 ^ LENGTH('a) then Some (a + b) else None)"

definition checked_sub :: "'a::len word \<Rightarrow> 'a word \<Rightarrow> 'a word option" where
  [rust_defs]: "checked_sub a b = (if b \<le> a then Some (a - b) else None)"

definition saturating_add :: "'a::len word \<Rightarrow> 'a word \<Rightarrow> 'a word" where
  [rust_defs]: "saturating_add a b =
     (if unat a + unat b < 2 ^ LENGTH('a) then a + b else - 1)"

definition saturating_sub :: "'a::len word \<Rightarrow> 'a word \<Rightarrow> 'a word" where
  [rust_defs]: "saturating_sub a b = (if b \<le> a then a - b else 0)"

definition saturating_mul :: "'a::len word \<Rightarrow> 'a word \<Rightarrow> 'a word" where
  [rust_defs]: "saturating_mul a b =
     (if unat a * unat b < 2 ^ LENGTH('a) then a * b else - 1)"

definition div_ceil :: "'a::len word \<Rightarrow> 'a word \<Rightarrow> 'a word" where
  [rust_defs]: "div_ceil a b = (let q = a div b in if a mod b = 0 then q else q + 1)"

lemma checked_add_Some_iff:
  "checked_add a b = Some c \<longleftrightarrow> unat a + unat b < 2 ^ LENGTH('a) \<and> c = a + b"
  for a b c :: "'a::len word"
  by (auto simp: checked_add_def)

lemma checked_add_unat: "checked_add a b = Some c \<Longrightarrow> unat c = unat a + unat b"
  by (auto simp: checked_add_def unat_word_ariths split: if_splits)

lemma saturating_add_unat:
  "unat (saturating_add a b) = min (unat a + unat b) (2 ^ LENGTH('a) - 1)"
  for a b :: "'a::len word"
proof (cases "unat a + unat b < 2 ^ LENGTH('a)")
  case True
  then show ?thesis by (simp add: saturating_add_def unat_word_ariths)
next
  case False
  then show ?thesis by (simp add: saturating_add_def unsigned_minus_1_eq_mask mask_eq_exp_minus_1)
qed

lemma saturating_sub_unat: "unat (saturating_sub a b) = unat a - unat b"
  by (auto simp: saturating_sub_def word_le_nat_alt unat_sub)

section \<open>Scanning loops\<close>

text \<open>\<^verbatim>\<open>for i in lo..hi { if p(i) { return Some(i) } }\<close>\<close>

function first_such :: "(nat \<Rightarrow> bool) \<Rightarrow> nat \<Rightarrow> nat \<Rightarrow> nat option" where
  "first_such p lo hi =
     (if lo < hi then if p lo then Some lo else first_such p (Suc lo) hi else None)"
  by pat_completeness auto
termination
  by (relation "measure (\<lambda>(p, lo, hi). hi - lo)") auto

declare first_such.simps [simp del]

lemma first_such_SomeD:
  "first_such p lo hi = Some i \<Longrightarrow> lo \<le> i \<and> i < hi \<and> p i \<and> (\<forall>j. lo \<le> j \<and> j < i \<longrightarrow> \<not> p j)"
proof (induction p lo hi rule: first_such.induct)
  case (1 p lo hi)
  show ?case
  proof (cases "lo < hi \<and> \<not> p lo")
    case True
    with 1 have *: "Suc lo \<le> i" "i < hi" "p i" "\<forall>j. Suc lo \<le> j \<and> j < i \<longrightarrow> \<not> p j"
      by (simp_all add: first_such.simps [of p lo hi])
    have "\<not> p j" if "lo \<le> j" "j < i" for j
      using that True *(4) by (cases "j = lo") auto
    with * show ?thesis by simp
  next
    case False
    with 1 show ?thesis by (auto simp: first_such.simps [of p lo hi] split: if_splits)
  qed
qed

lemma first_such_NoneD: "first_such p lo hi = None \<Longrightarrow> lo \<le> i \<Longrightarrow> i < hi \<Longrightarrow> \<not> p i"
proof (induction p lo hi rule: first_such.induct)
  case (1 p lo hi)
  from "1.prems" have "lo < hi" by simp
  with "1.prems"(1) have np: "\<not> p lo" and rest: "first_such p (Suc lo) hi = None"
    by (simp_all add: first_such.simps [of p lo hi] split: if_splits)
  show ?case
  proof (cases "i = lo")
    case True
    with np show ?thesis by simp
  next
    case False
    with "1.prems" have "Suc lo \<le> i" by simp
    with "1.IH" [OF \<open>lo < hi\<close> np rest] "1.prems" show ?thesis by simp
  qed
qed

lemma first_such_Some_iff:
  "first_such p lo hi = Some i \<longleftrightarrow> lo \<le> i \<and> i < hi \<and> p i \<and> (\<forall>j. lo \<le> j \<and> j < i \<longrightarrow> \<not> p j)"
proof
  assume r: "lo \<le> i \<and> i < hi \<and> p i \<and> (\<forall>j. lo \<le> j \<and> j < i \<longrightarrow> \<not> p j)"
  then obtain k where k: "first_such p lo hi = Some k"
    using first_such_NoneD by fastforce
  with first_such_SomeD [OF k] r have "k = i"
    by (metis linorder_neqE_nat)
  with k show "first_such p lo hi = Some i" by simp
qed (rule first_such_SomeD)

lemma first_such_None_iff: "first_such p lo hi = None \<longleftrightarrow> (\<forall>i. lo \<le> i \<and> i < hi \<longrightarrow> \<not> p i)"
  using first_such_NoneD first_such_SomeD by (metis option.exhaust)

text \<open>\<^verbatim>\<open>xs.iter().position(p)\<close>\<close>

definition position :: "('a \<Rightarrow> bool) \<Rightarrow> 'a list \<Rightarrow> nat option" where
  "position p xs = first_such (\<lambda>i. p (xs ! i)) 0 (length xs)"

lemma position_Some_iff:
  "position p xs = Some i \<longleftrightarrow> i < length xs \<and> p (xs ! i) \<and> (\<forall>j<i. \<not> p (xs ! j))"
  by (auto simp: position_def first_such_Some_iff)

lemma position_None_iff: "position p xs = None \<longleftrightarrow> (\<forall>x \<in> set xs. \<not> p x)"
  by (auto simp: position_def first_such_None_iff in_set_conv_nth Ball_def)

lemma position_SomeD:
  assumes "position p xs = Some i"
  shows "i < length xs" and "p (xs ! i)"
  using assms by (simp_all add: position_Some_iff)

lemma position_Nil [simp]: "position p [] = None"
  by (simp add: position_None_iff)

lemma first_such_Suc:
  "first_such p (Suc lo) (Suc hi) = map_option Suc (first_such (\<lambda>i. p (Suc i)) lo hi)"
proof (induction "\<lambda>i. p (Suc i)" lo hi rule: first_such.induct)
  case (1 lo hi)
  then show ?case
    by (simp add: first_such.simps [of p "Suc lo"] first_such.simps [of "\<lambda>i. p (Suc i)" lo])
qed

lemma position_Cons [simp, code]:
  "position p (x # xs) = (if p x then Some 0 else map_option Suc (position p xs))"
  by (simp add: position_def first_such.simps [of _ 0] first_such_Suc)

section \<open>Outcomes of kernel code\<close>

text \<open>
  Kernel code that runs to its end returns a value and the new state (\<open>Done\<close>). It can
  also panic (\<^verbatim>\<open>panic!\<close>, a slice index out of range, \<^verbatim>\<open>unwrap\<close> on \<^verbatim>\<open>None\<close>), touch a
  user page that is not mapped (the exception handler then kills the task), or reach the
  waiting call of a blocking loop with nothing to do (\<^verbatim>\<open>wait_for_event\<close>, \<^verbatim>\<open>yield_now\<close>):
  the loop is run again from that state once other tasks and interrupts have run.
\<close>

datatype ('s, 'a) outcome = Done 'a 's | Panicked | Faulted 's | Waiting 's

primrec obind :: "('s, 'a) outcome \<Rightarrow> ('a \<Rightarrow> 's \<Rightarrow> ('s, 'b) outcome) \<Rightarrow> ('s, 'b) outcome" where
  "obind (Done x s) k = k x s"
| "obind Panicked k = Panicked"
| "obind (Faulted s) k = Faulted s"
| "obind (Waiting s) k = Waiting s"

lemma obind_Done_iff:
  "obind m k = Done y t \<longleftrightarrow> (\<exists>x s. m = Done x s \<and> k x s = Done y t)"
  by (cases m) auto

lemma obind_assoc: "obind (obind m k) l = obind m (\<lambda>x s. obind (k x s) l)"
  by (cases m) auto

text \<open>A \<^verbatim>\<open>for\<close> loop whose body may panic, fault or wait.\<close>

primrec for_each :: "('x \<Rightarrow> 's \<Rightarrow> ('s, unit) outcome) \<Rightarrow> 'x list \<Rightarrow> 's \<Rightarrow> ('s, unit) outcome" where
  "for_each f [] s = Done () s"
| "for_each f (x # xs) s = obind (f x s) (\<lambda>_. for_each f xs)"

lemma for_each_append: "for_each f (xs @ ys) s = obind (for_each f xs s) (\<lambda>_. for_each f ys)"
proof (induction xs arbitrary: s)
  case (Cons x xs)
  then show ?case by (cases "f x s") simp_all
qed simp

text \<open>A loop keeps what its body keeps.\<close>

lemma for_each_invariant:
  assumes "for_each f xs s = Done u t" "I s"
    and "\<And>x s t. x \<in> set xs \<Longrightarrow> I s \<Longrightarrow> f x s = Done () t \<Longrightarrow> I t"
  shows "I t"
  using assms by (induction xs arbitrary: s) (auto simp: obind_Done_iff)

text \<open>An operation repeated \<open>n\<close> times, its results collected in order.\<close>

primrec collect :: "('s \<Rightarrow> 'a \<times> 's) \<Rightarrow> nat \<Rightarrow> 's \<Rightarrow> 'a list \<times> 's" where
  "collect f 0 s = ([], s)"
| "collect f (Suc n) s =
     (let (x, s1) = f s; (xs, s2) = collect f n s1 in (x # xs, s2))"

lemma length_collect [simp]: "length (fst (collect f n s)) = n"
  by (induction n arbitrary: s) (simp_all add: split_beta Let_def)

section \<open>Lists used as fixed-size arrays\<close>

lemma list_all_update: "list_all p xs \<Longrightarrow> p v \<Longrightarrow> list_all p (xs[i := v])"
  using set_update_subset_insert [of xs i v] by (auto simp: list_all_iff)

text \<open>How many elements of a table satisfy a predicate, and how an update changes that.\<close>

definition count_if :: "('a \<Rightarrow> bool) \<Rightarrow> 'a list \<Rightarrow> nat" where
  "count_if P xs = length (filter P xs)"

lemma count_if_simps [simp]:
  "count_if P [] = 0" "count_if P (x # xs) = of_bool (P x) + count_if P xs"
  "count_if P (xs @ ys) = count_if P xs + count_if P ys"
  "count_if P (replicate n x) = (if P x then n else 0)"
  by (simp_all add: count_if_def filter_replicate)

lemma count_if_update:
  "i < length xs \<Longrightarrow>
     count_if P (xs[i := y]) + of_bool (P (xs ! i)) = count_if P xs + of_bool (P y)"
proof (induction xs arbitrary: i)
  case (Cons x xs)
  show ?case
  proof (cases i)
    case (Suc j)
    with Cons.prems Cons.IH [of j] show ?thesis by simp
  qed simp
qed simp

lemma count_if_pos: "i < length xs \<Longrightarrow> P (xs ! i) \<Longrightarrow> 0 < count_if P xs"
  by (auto simp: count_if_def filter_empty_conv)

lemma count_if_0_iff: "count_if P xs = 0 \<longleftrightarrow> (\<forall>x \<in> set xs. \<not> P x)"
  by (simp add: count_if_def filter_empty_conv)

lemma count_if_nth_cong:
  assumes "length xs = length ys" "\<forall>i < length ys. P (xs ! i) = Q (ys ! i)"
  shows "count_if P xs = count_if Q ys"
  using assms by (induction xs ys rule: list_induct2) (auto simp: All_less_Suc2)

lemma count_if_cong: "(\<And>x. x \<in> set xs \<Longrightarrow> P x = Q x) \<Longrightarrow> count_if P xs = count_if Q xs"
  unfolding count_if_def by (simp cong: filter_cong)

end
