(* ===== verification/Memory.thy ===== *)
theory Memory
  imports Prelude
begin

text \<open>
  Physical memory as the kernel sees it through its direct map: a byte for every physical
  address. The kernel reads and writes \<^verbatim>\<open>p2v(a)\<close>; the model reads and writes \<open>a\<close>.
  Little-endian encodings (\<^verbatim>\<open>to_le_bytes\<close>, \<^verbatim>\<open>from_le_bytes\<close>), the bulk operations
  \<^verbatim>\<open>write_bytes\<close> and \<^verbatim>\<open>copy_nonoverlapping\<close>, and the read-over-write lemmas every
  component that touches memory uses.
\<close>

unbundle bit_operations_syntax

type_synonym memory = "u64 \<Rightarrow> u8"

section \<open>Little-endian encodings\<close>

definition to_le_bytes :: "nat \<Rightarrow> 'a::len word \<Rightarrow> u8 list" where
  "to_le_bytes n v = map (\<lambda>i. ucast (drop_bit (8 * i) v)) [0..<n]"

primrec from_le_bytes :: "u8 list \<Rightarrow> 'a::len word" where
  "from_le_bytes [] = 0"
| "from_le_bytes (b # bs) = ucast b OR push_bit 8 (from_le_bytes bs)"

lemma length_to_le_bytes [simp]: "length (to_le_bytes n v) = n"
  by (simp add: to_le_bytes_def)

lemma nth_to_le_bytes [simp]: "i < n \<Longrightarrow> to_le_bytes n v ! i = ucast (drop_bit (8 * i) v)"
  by (simp add: to_le_bytes_def)

lemma bit_from_le_bytes:
  "bit (from_le_bytes bs :: 'a::len word) n \<longleftrightarrow>
     n < LENGTH('a) \<and> n div 8 < length bs \<and> bit (bs ! (n div 8)) (n mod 8)"
proof (induction bs arbitrary: n)
  case Nil
  then show ?case by simp
next
  case (Cons b bs)
  show ?case
  proof (cases "n < 8")
    case True
    then show ?thesis
      by (auto simp: bit_simps dest: bit_imp_le_length)
  next
    case False
    then have n: "n div 8 = Suc ((n - 8) div 8)" "n mod 8 = (n - 8) mod 8"
      by (simp_all add: le_div_geq le_mod_geq)
    have "\<not> bit (ucast b :: 'a word) n"
      using False by (auto simp: bit_simps dest: bit_imp_le_length)
    then show ?thesis
      using False Cons.IH [of "n - 8"] by (auto simp: bit_simps n)
  qed
qed

lemma from_to_le_bytes [simp]:
  fixes v :: "'a::len word"
  assumes "LENGTH('a) \<le> 8 * n"
  shows "from_le_bytes (to_le_bytes n v) = v"
proof (rule bit_word_eqI)
  fix k
  assume k: "k < LENGTH('a)"
  with assms have "k div 8 < n" by simp
  with k show "bit (from_le_bytes (to_le_bytes n v) :: 'a word) k = bit v k"
    by (simp add: bit_from_le_bytes bit_simps)
qed

lemma to_from_le_bytes:
  fixes bs :: "u8 list"
  assumes "8 * length bs \<le> LENGTH('a::len)"
  shows "to_le_bytes (length bs) (from_le_bytes bs :: 'a word) = bs"
proof (rule nth_equalityI)
  fix i
  assume "i < length (to_le_bytes (length bs) (from_le_bytes bs :: 'a word))"
  then have i: "i < length bs" by simp
  have "ucast (drop_bit (8 * i) (from_le_bytes bs :: 'a word)) = bs ! i"
  proof (rule bit_word_eqI)
    fix k
    assume "k < LENGTH(8)"
    then have "k < 8" by simp
    moreover from this i assms have "8 * i + k < LENGTH('a)" by simp
    ultimately show "bit (ucast (drop_bit (8 * i) (from_le_bytes bs :: 'a word)) :: u8) k = bit (bs ! i) k"
      using i by (simp add: bit_simps bit_from_le_bytes)
  qed
  with i show "to_le_bytes (length bs) (from_le_bytes bs :: 'a word) ! i = bs ! i" by simp
qed simp

section \<open>Reading and writing bytes\<close>

definition rd_bytes :: "memory \<Rightarrow> u64 \<Rightarrow> nat \<Rightarrow> u8 list" where
  "rd_bytes m a n = map (\<lambda>i. m (a + of_nat i)) [0..<n]"

definition wr_bytes :: "memory \<Rightarrow> u64 \<Rightarrow> u8 list \<Rightarrow> memory" where
  "wr_bytes m a bs = (\<lambda>x. let d = unat (x - a) in if d < length bs then bs ! d else m x)"

text \<open>\<^verbatim>\<open>core::ptr::write_bytes(a, 0, n)\<close>\<close>

definition zero_bytes :: "memory \<Rightarrow> u64 \<Rightarrow> nat \<Rightarrow> memory" where
  "zero_bytes m a n = (\<lambda>x. if unat (x - a) < n then 0 else m x)"

definition rd64 :: "memory \<Rightarrow> u64 \<Rightarrow> u64" where
  "rd64 m a = from_le_bytes (rd_bytes m a 8)"

definition wr64 :: "memory \<Rightarrow> u64 \<Rightarrow> u64 \<Rightarrow> memory" where
  "wr64 m a v = wr_bytes m a (to_le_bytes 8 v)"

lemma length_rd_bytes [simp]: "length (rd_bytes m a n) = n"
  by (simp add: rd_bytes_def)

lemma nth_rd_bytes [simp]: "i < n \<Longrightarrow> rd_bytes m a n ! i = m (a + of_nat i)"
  by (simp add: rd_bytes_def)

lemma rd_bytes_cong: "(\<And>i. i < n \<Longrightarrow> m (a + of_nat i) = m' (a + of_nat i)) \<Longrightarrow>
  rd_bytes m a n = rd_bytes m' a n"
  by (simp add: rd_bytes_def)

lemma wr_bytes_apply:
  "wr_bytes m a bs x = (if unat (x - a) < length bs then bs ! unat (x - a) else m x)"
  by (simp add: wr_bytes_def Let_def)

lemma rd_wr_bytes_same:
  assumes "length bs \<le> 2 ^ 64"
  shows "rd_bytes (wr_bytes m a bs) a (length bs) = bs"
proof (rule nth_equalityI)
  fix i
  assume "i < length (rd_bytes (wr_bytes m a bs) a (length bs))"
  then have i: "i < length bs" by simp
  with assms have "unat (of_nat i :: u64) = i"
    by (simp add: unat_of_nat)
  with i show "rd_bytes (wr_bytes m a bs) a (length bs) ! i = bs ! i"
    by (simp add: wr_bytes_apply)
qed simp

text \<open>Two windows of memory that share no address.\<close>

definition disjoint_win :: "u64 \<Rightarrow> nat \<Rightarrow> u64 \<Rightarrow> nat \<Rightarrow> bool" where
  "disjoint_win a n b k \<longleftrightarrow> (\<forall>i<n. \<forall>j<k. a + of_nat i \<noteq> b + of_nat j)"

lemma disjoint_win_sym: "disjoint_win a n b k \<Longrightarrow> disjoint_win b k a n"
  unfolding disjoint_win_def by metis

lemma disjoint_winI:
  assumes "unat a + n \<le> 2 ^ 64" "unat b + k \<le> 2 ^ 64"
    and "unat a + n \<le> unat b \<or> unat b + k \<le> unat a"
  shows "disjoint_win a n b k"
  unfolding disjoint_win_def
proof (intro allI impI notI)
  fix i j
  assume ij: "i < n" "j < k" and eq: "a + of_nat i = b + of_nat j"
  have "unat (a + of_nat i) = unat a + i" "unat (b + of_nat j) = unat b + j"
    using ij assms by (simp_all add: unat_word_ariths unat_of_nat)
  with eq have "unat a + i = unat b + j" by simp
  with ij assms(3) show False by linarith
qed

lemma in_win_iff: "unat (x - a) < n \<Longrightarrow> \<exists>i<n. x = a + of_nat i"
  by (rule exI [of _ "unat (x - a)"]) simp

lemma disjoint_win_outside:
  assumes "disjoint_win a k b n" "i < n"
  shows "k \<le> unat (b + of_nat i - a)"
  using assms in_win_iff [of "b + of_nat i" a k] unfolding disjoint_win_def
  by (metis linorder_not_less)

lemma wr_bytes_other:
  assumes "disjoint_win a (length bs) b n" "i < n"
  shows "wr_bytes m a bs (b + of_nat i) = m (b + of_nat i)"
  using disjoint_win_outside [OF assms] by (simp add: wr_bytes_apply)

lemma rd_wr_bytes_other:
  "disjoint_win a (length bs) b n \<Longrightarrow> rd_bytes (wr_bytes m a bs) b n = rd_bytes m b n"
  by (rule rd_bytes_cong) (simp add: wr_bytes_other)

lemma rd_zero_bytes_other:
  "disjoint_win a k b n \<Longrightarrow> rd_bytes (zero_bytes m a k) b n = rd_bytes m b n"
  by (rule rd_bytes_cong) (use disjoint_win_outside in \<open>fastforce simp: zero_bytes_def\<close>)

lemma rd64_wr64_same [simp]: "rd64 (wr64 m a v) a = v"
  using rd_wr_bytes_same [of "to_le_bytes 8 v" m a] by (simp add: rd64_def wr64_def)

lemma rd64_wr64_other: "disjoint_win a 8 b 8 \<Longrightarrow> rd64 (wr64 m a v) b = rd64 m b"
  by (simp add: rd64_def wr64_def rd_wr_bytes_other)

lemma rd64_zero_bytes_other: "disjoint_win a k b 8 \<Longrightarrow> rd64 (zero_bytes m a k) b = rd64 m b"
  by (simp add: rd64_def rd_zero_bytes_other)

lemma from_le_bytes_zero: "(\<forall>b \<in> set bs. b = 0) \<Longrightarrow> from_le_bytes bs = 0"
  by (induction bs) auto

lemma rd64_zero:
  "(\<And>i. i < 8 \<Longrightarrow> m (a + of_nat i) = 0) \<Longrightarrow> rd64 m a = 0"
  unfolding rd64_def by (rule from_le_bytes_zero) (auto simp: in_set_conv_nth)

end
