(* ===== verification/Pmm.thy ===== *)
theory Pmm
  imports Memory
begin

text \<open>
  The physical memory manager (\<^verbatim>\<open>kernel/src/mem/pmm.rs\<close>), its boot-time self test
  (\<^verbatim>\<open>mem/pmm_test.rs\<close>), the boot information it reads (\<^verbatim>\<open>boot.rs\<close>) and the memory-map
  check that runs before it (\<^verbatim>\<open>mem/validate.rs\<close>). Frames are numbered by \<open>nat\<close>, physical
  addresses are 64-bit words. The bitmap, an array of \<^verbatim>\<open>BITMAP_BYTES\<close> bytes, is a function
  on byte indices; every access of the code is below \<^verbatim>\<open>MAX_FRAMES / 8\<close>. The interface the
  other components rely on is the locale \<open>frame_allocator\<close>.
\<close>

unbundle bit_operations_syntax

section \<open>Boot information\<close>

record mem_map_entry =
  physical_start :: u64
  num_pages :: u64
  mem_type :: u32

record boot_info =
  bi_fb_base :: u64
  bi_fb_size :: u64
  bi_width :: u32
  bi_height :: u32
  bi_pitch :: u32
  bi_mmap :: "mem_map_entry list"
  bi_mmap_count :: u32
  bi_kernel_phys_base :: u64
  bi_kernel_alloc_size :: u64
  bi_user_elf_base :: u64
  bi_user_elf_size :: u64
  bi_font_base :: u64
  bi_font_size :: u64
  bi_tsc_bootloader_start :: u64

definition EFI_CONVENTIONAL_MEMORY :: u32 where
  "EFI_CONVENTIONAL_MEMORY = 7"

section \<open>State and bitmap operations\<close>

definition PAGE_SIZE :: nat where
  [simp]: "PAGE_SIZE = 4096"

definition MAX_FRAMES :: nat where
  "MAX_FRAMES = 1048576"

record pmm_state =
  bitmap :: "nat \<Rightarrow> u8"
  total_frames :: nat
  free_frames :: nat

record phys =
  PMM :: pmm_state
  MEM :: memory

definition pmm_new :: pmm_state where
  "pmm_new = \<lparr>bitmap = (\<lambda>_. 0xFF), total_frames = 0, free_frames = 0\<rparr>"

definition set_used :: "nat \<Rightarrow> pmm_state \<Rightarrow> pmm_state" where
  "set_used f p = p\<lparr>bitmap := (bitmap p)(f div 8 := bitmap p (f div 8) OR push_bit (f mod 8) 1)\<rparr>"

definition set_free :: "nat \<Rightarrow> pmm_state \<Rightarrow> pmm_state" where
  "set_free f p =
     p\<lparr>bitmap := (bitmap p)(f div 8 := bitmap p (f div 8) AND NOT (push_bit (f mod 8) 1))\<rparr>"

definition is_free :: "pmm_state \<Rightarrow> nat \<Rightarrow> bool" where
  "is_free p f \<longleftrightarrow> bitmap p (f div 8) AND push_bit (f mod 8) 1 = 0"

section \<open>Initialisation\<close>

definition claim_frame :: "nat \<Rightarrow> pmm_state \<Rightarrow> pmm_state" where
  "claim_frame f p =
     (if f < MAX_FRAMES \<and> \<not> is_free p f
      then (set_free f p)\<lparr>free_frames := free_frames p + 1, total_frames := total_frames p + 1\<rparr>
      else p)"

definition claim_entry :: "mem_map_entry \<Rightarrow> pmm_state \<Rightarrow> pmm_state" where
  "claim_entry e p =
     (if mem_type e \<noteq> EFI_CONVENTIONAL_MEMORY then p
      else let start_frame = unat (physical_start e) div PAGE_SIZE;
               end_frame = (start_frame + unat (num_pages e)) mod 2 ^ 64
           in fold claim_frame [start_frame..<end_frame] p)"

definition reserve_frame :: "nat \<Rightarrow> pmm_state \<Rightarrow> pmm_state" where
  "reserve_frame f p =
     (if f < MAX_FRAMES \<and> is_free p f
      then (set_used f p)\<lparr>free_frames := free_frames p - 1\<rparr> else p)"

definition kernel_frames :: "boot_info \<Rightarrow> nat list" where
  "kernel_frames bi =
     [unat (bi_kernel_phys_base bi div of_nat PAGE_SIZE) ..<
      unat (div_ceil (bi_kernel_phys_base bi + bi_kernel_alloc_size bi) (of_nat PAGE_SIZE))]"

definition pmm_init :: "boot_info \<Rightarrow> 'a phys_scheme \<Rightarrow> 'a phys_scheme" where
  "pmm_init bi s =
     (let p1 = fold claim_entry (take (unat (bi_mmap_count bi)) (bi_mmap bi)) (PMM s);
          p2 = fold reserve_frame (kernel_frames bi) p1;
          p3 = (if is_free p2 0
                then (set_used 0 p2)\<lparr>free_frames := free_frames p2 - 1\<rparr> else p2)
      in s\<lparr>PMM := p3\<rparr>)"

section \<open>Allocation\<close>

definition frame_addr :: "nat \<Rightarrow> u64" where
  "frame_addr f = of_nat (f * PAGE_SIZE)"

definition alloc_frame :: "'a phys_scheme \<Rightarrow> u64 \<times> 'a phys_scheme" where
  "alloc_frame s =
     (case first_such (is_free (PMM s)) 1 MAX_FRAMES of
        Some f \<Rightarrow>
          (let p = set_used f (PMM s); addr = frame_addr f
           in (addr, s\<lparr>PMM := p\<lparr>free_frames := free_frames p - 1\<rparr>,
                       MEM := zero_bytes (MEM s) addr PAGE_SIZE\<rparr>))
      | None \<Rightarrow> (0, s))"

text \<open>
  The scan of \<^verbatim>\<open>alloc_frames\<close>: \<open>f\<close> is the loop variable, \<open>c\<close> the variable
  \<^verbatim>\<open>consecutive\<close>, \<open>st\<close> the variable \<^verbatim>\<open>start_frame\<close>.
\<close>

function find_run :: "(nat \<Rightarrow> bool) \<Rightarrow> nat \<Rightarrow> nat \<Rightarrow> nat \<Rightarrow> nat \<Rightarrow> nat \<Rightarrow> nat option" where
  "find_run fr count f hi c st =
     (if f < hi then
        if fr f then
          let st' = (if c = 0 then f else st); c' = c + 1
          in if c' = count then Some st' else find_run fr count (Suc f) hi c' st'
        else find_run fr count (Suc f) hi 0 st
      else None)"
  by pat_completeness auto
termination
  by (relation "measure (\<lambda>(fr, count, f, hi, c, st). hi - f)") auto

declare find_run.simps [simp del]

definition alloc_frames :: "nat \<Rightarrow> 'a phys_scheme \<Rightarrow> u64 \<times> 'a phys_scheme" where
  "alloc_frames count s =
     (if count = 0 then (0, s)
      else if count = 1 then alloc_frame s
      else case find_run (is_free (PMM s)) count 1 MAX_FRAMES 0 0 of
             Some st \<Rightarrow>
               (let p = fold (\<lambda>i. set_used (st + i)) [0..<count] (PMM s); addr = frame_addr st
                in (addr, s\<lparr>PMM := p\<lparr>free_frames := free_frames p - count\<rparr>,
                            MEM := zero_bytes (MEM s) addr (count * PAGE_SIZE)\<rparr>))
           | None \<Rightarrow> (0, s))"

definition free_frame :: "u64 \<Rightarrow> 'a phys_scheme \<Rightarrow> 'a phys_scheme" where
  "free_frame phys_addr s =
     (let f = unat phys_addr div PAGE_SIZE; p = PMM s
      in if f = 0 \<or> f \<ge> MAX_FRAMES then s
         else if \<not> is_free p f
         then s\<lparr>PMM := (set_free f p)\<lparr>free_frames := free_frames p + 1\<rparr>\<rparr>
         else s)"

definition free_bytes :: "'a phys_scheme \<Rightarrow> nat" where
  "free_bytes s = free_frames (PMM s) * PAGE_SIZE"

definition total_bytes :: "'a phys_scheme \<Rightarrow> nat" where
  "total_bytes s = total_frames (PMM s) * PAGE_SIZE"

section \<open>The self test\<close>

text \<open>\<^verbatim>\<open>test_pmm_basic\<close>: allocate 128 frames, compare every pair, free them all.\<close>

definition test_pmm_basic :: "'a phys_scheme \<Rightarrow> ('a phys_scheme, unit) outcome" where
  "test_pmm_basic s =
     (let (pages, s1) = collect alloc_frame 128 s
      in if 0 \<in> set pages then Panicked
         else if \<exists>i<128. \<exists>j<128. i < j \<and> pages ! i = pages ! j then Panicked
         else Done () (fold free_frame pages s1))"

section \<open>Validation of the memory map\<close>

definition region_end :: "mem_map_entry \<Rightarrow> u64" where
  "region_end e = physical_start e + num_pages e * 4096"

definition regions_clash :: "mem_map_entry \<Rightarrow> mem_map_entry \<Rightarrow> bool" where
  "regions_clash e other \<longleftrightarrow>
     physical_start e < region_end other \<and> physical_start other < region_end e"

text \<open>\<open>True\<close> where \<^verbatim>\<open>validate_mmap\<close> returns, \<open>False\<close> where it panics.\<close>

definition validate_mmap :: "boot_info \<Rightarrow> bool" where
  "validate_mmap bi =
     (let count = unat (bi_mmap_count bi)
      in \<not> (count = 0 \<or> count > 256) \<and>
         (\<forall>i<count.
            physical_start (bi_mmap bi ! i) mod 4096 = 0 \<and>
            num_pages (bi_mmap bi ! i) \<noteq> 0 \<and>
            (\<forall>j<count. i < j \<longrightarrow> \<not> regions_clash (bi_mmap bi ! i) (bi_mmap bi ! j))))"


section \<open>Bits\<close>

lemma is_free_bit: "is_free p f \<longleftrightarrow> \<not> bit (bitmap p (f div 8)) (f mod 8)"
  by (simp add: is_free_def push_bit_of_1 and_exp_eq_0_iff_not_bit)

lemma same_frame_iff: "f = g \<longleftrightarrow> f div 8 = g div 8 \<and> f mod 8 = g mod (8::nat)"
  by (metis div_mult_mod_eq)

lemma is_free_set_used [simp]: "is_free (set_used f p) g \<longleftrightarrow> g \<noteq> f \<and> is_free p g"
  by (auto simp: is_free_bit set_used_def bit_simps same_frame_iff [of g f] same_frame_iff [of f g])

lemma is_free_set_free [simp]: "is_free (set_free f p) g \<longleftrightarrow> g = f \<or> is_free p g"
proof -
  have "f mod 8 < LENGTH(8)" "g mod 8 < LENGTH(8)" by simp_all
  then show ?thesis
    by (auto simp: is_free_bit set_free_def bit_simps same_frame_iff [of g f])
qed

lemma is_free_update [simp]:
  "is_free (p\<lparr>free_frames := n\<rparr>) f = is_free p f"
  "is_free (p\<lparr>total_frames := n\<rparr>) f = is_free p f"
  by (simp_all add: is_free_def)

lemma counters_set [simp]:
  "free_frames (set_used f p) = free_frames p" "total_frames (set_used f p) = total_frames p"
  "free_frames (set_free f p) = free_frames p" "total_frames (set_free f p) = total_frames p"
  by (simp_all add: set_used_def set_free_def)

section \<open>The set of free frames and the invariant\<close>

definition free_set :: "pmm_state \<Rightarrow> nat set" where
  "free_set p = {f. f < MAX_FRAMES \<and> is_free p f}"

definition pmm_inv :: "pmm_state \<Rightarrow> bool" where
  "pmm_inv p \<longleftrightarrow> free_frames p = card (free_set p) \<and> \<not> is_free p 0"

lemma finite_free_set [simp]: "finite (free_set p)"
  by (simp add: free_set_def)

lemma free_set_set_used [simp]: "free_set (set_used f p) = free_set p - {f}"
  by (auto simp: free_set_def)

lemma free_set_set_free [simp]: "f < MAX_FRAMES \<Longrightarrow> free_set (set_free f p) = insert f (free_set p)"
  by (auto simp: free_set_def)

lemma free_set_update [simp]:
  "free_set (p\<lparr>free_frames := n\<rparr>) = free_set p" "free_set (p\<lparr>total_frames := n\<rparr>) = free_set p"
  by (simp_all add: free_set_def)

lemma is_free_zero_iff: "is_free p 0 \<longleftrightarrow> 0 \<in> free_set p"
  by (simp add: free_set_def MAX_FRAMES_def)

lemma free_set_bounds: "pmm_inv p \<Longrightarrow> f \<in> free_set p \<Longrightarrow> 0 < f \<and> f < MAX_FRAMES"
  by (cases "f = 0") (auto simp: free_set_def pmm_inv_def)

lemma frame_addr_unat: "f < MAX_FRAMES \<Longrightarrow> unat (frame_addr f) = f * 4096"
  by (simp add: frame_addr_def unat_word_ariths unat_of_nat MAX_FRAMES_def)

lemma frame_addr_frame: "f < MAX_FRAMES \<Longrightarrow> unat (frame_addr f) div PAGE_SIZE = f"
  by (simp add: frame_addr_unat)

lemma frame_addr_eq_iff:
  "f < MAX_FRAMES \<Longrightarrow> g < MAX_FRAMES \<Longrightarrow> frame_addr f = frame_addr g \<longleftrightarrow> f = g"
  by (metis frame_addr_frame)

lemma frame_addr_0_iff: "f < MAX_FRAMES \<Longrightarrow> frame_addr f = 0 \<longleftrightarrow> f = 0"
  using frame_addr_unat [of f] by (auto simp: frame_addr_def)

lemma fold_set_used_free [simp]:
  "is_free (fold (\<lambda>i. set_used (st + i)) [0..<n] p) g \<longleftrightarrow> is_free p g \<and> \<not> (st \<le> g \<and> g < st + n)"
  by (induction n) (auto simp: less_Suc_eq)

lemma fold_set_used_counters [simp]:
  "free_frames (fold (\<lambda>i. set_used (st + i)) [0..<n] p) = free_frames p"
  "total_frames (fold (\<lambda>i. set_used (st + i)) [0..<n] p) = total_frames p"
  by (induction n) auto

section \<open>Single frames\<close>

lemma alloc_frame_None_iff:
  "pmm_inv (PMM s) \<Longrightarrow> first_such (is_free (PMM s)) (Suc 0) MAX_FRAMES = None \<longleftrightarrow> free_set (PMM s) = {}"
  by (auto simp: first_such_None_iff free_set_def pmm_inv_def) (metis Suc_leI not_gr_zero)

lemma alloc_frame_Some_iff:
  assumes "pmm_inv (PMM s)"
  shows "first_such (is_free (PMM s)) (Suc 0) MAX_FRAMES = Some f \<longleftrightarrow>
    f \<in> free_set (PMM s) \<and> (\<forall>g \<in> free_set (PMM s). f \<le> g)"
proof -
  have "0 \<notin> free_set (PMM s)" using free_set_bounds [OF assms, of 0] by auto
  then have "f \<in> free_set (PMM s) \<Longrightarrow> Suc 0 \<le> f" by (cases f) auto
  then show ?thesis
    using assms by (auto simp: first_such_Some_iff free_set_def pmm_inv_def)
      (metis linorder_not_le Suc_leI not_gr_zero order.strict_trans)+
qed


text \<open>The two branches of \<^verbatim>\<open>alloc_frame\<close>, in terms of the set of free frames.\<close>

lemma alloc_frame_empty:
  "pmm_inv (PMM s) \<Longrightarrow> free_set (PMM s) = {} \<Longrightarrow> alloc_frame s = (0, s)"
  by (simp add: alloc_frame_def alloc_frame_None_iff [THEN iffD2])

lemma alloc_frame_least:
  assumes inv: "pmm_inv (PMM s)" and ne: "free_set (PMM s) \<noteq> {}"
  defines "f \<equiv> Min (free_set (PMM s))"
  shows "alloc_frame s =
    (frame_addr f,
     s\<lparr>PMM := (set_used f (PMM s))\<lparr>free_frames := free_frames (PMM s) - 1\<rparr>,
       MEM := zero_bytes (MEM s) (frame_addr f) PAGE_SIZE\<rparr>)"
proof -
  have "first_such (is_free (PMM s)) (Suc 0) MAX_FRAMES = Some f"
    using inv ne by (simp add: alloc_frame_Some_iff f_def)
  then show ?thesis by (simp add: alloc_frame_def Let_def)
qed

lemma alloc_frame_inv [inv_intros]:
  assumes inv: "pmm_inv (PMM s)"
  shows "pmm_inv (PMM (snd (alloc_frame s)))"
proof (cases "free_set (PMM s) = {}")
  case True
  with inv show ?thesis by (simp add: alloc_frame_empty)
next
  case False
  then have "Min (free_set (PMM s)) \<in> free_set (PMM s)" by simp
  with inv False show ?thesis
    by (simp add: alloc_frame_least pmm_inv_def card_Diff_singleton)
qed

lemma free_frame_inv [inv_intros]: "pmm_inv (PMM s) \<Longrightarrow> pmm_inv (PMM (free_frame a s))"
  by (auto simp: free_frame_def Let_def pmm_inv_def free_set_def [of "PMM s"] card_insert_if)

lemma free_frame_set:
  "0 < unat a div PAGE_SIZE \<Longrightarrow> unat a div PAGE_SIZE < MAX_FRAMES \<Longrightarrow>
   free_set (PMM (free_frame a s)) = insert (unat a div PAGE_SIZE) (free_set (PMM s))"
  by (auto simp: free_frame_def Let_def) (auto simp: free_set_def)

lemma free_frame_out_of_range:
  "unat a div PAGE_SIZE = 0 \<or> MAX_FRAMES \<le> unat a div PAGE_SIZE \<Longrightarrow> free_frame a s = s"
  by (auto simp: free_frame_def)

lemma free_frame_double: "free_frame a (free_frame a s) = free_frame a s"
  by (simp add: free_frame_def Let_def)

section \<open>The allocator interface\<close>

text \<open>
  What a client of the frame allocator may rely on: allocation takes one frame out of the
  free set and returns its address, or returns 0 and changes nothing when there is none;
  freeing puts the frame back; the invariant is kept and frame 0 is never handed out.
\<close>

locale frame_allocator =
  fixes alloc :: "'s \<Rightarrow> u64 \<times> 's"
    and free :: "u64 \<Rightarrow> 's \<Rightarrow> 's"
    and avail :: "'s \<Rightarrow> nat set"
    and ainv :: "'s \<Rightarrow> bool"
  assumes avail_range: "ainv s \<Longrightarrow> f \<in> avail s \<Longrightarrow> 0 < f \<and> f < MAX_FRAMES"
    and alloc_empty: "ainv s \<Longrightarrow> avail s = {} \<Longrightarrow> alloc s = (0, s)"
    and alloc_takes: "ainv s \<Longrightarrow> avail s \<noteq> {} \<Longrightarrow>
      \<exists>f \<in> avail s. fst (alloc s) = frame_addr f \<and> avail (snd (alloc s)) = avail s - {f}"
    and alloc_ainv: "ainv s \<Longrightarrow> ainv (snd (alloc s))"
    and free_returns: "ainv s \<Longrightarrow> 0 < f \<Longrightarrow> f < MAX_FRAMES \<Longrightarrow>
      avail (free (frame_addr f) s) = insert f (avail s)"
    and free_ainv: "ainv s \<Longrightarrow> ainv (free a s)"
begin

lemma avail_finite: "ainv s \<Longrightarrow> finite (avail s)"
  by (rule finite_subset [of _ "{..<MAX_FRAMES}"]) (auto dest: avail_range)

lemma alloc_zero_iff: "ainv s \<Longrightarrow> fst (alloc s) = 0 \<longleftrightarrow> avail s = {}"
  using alloc_empty alloc_takes avail_range frame_addr_0_iff
  by (metis fst_conv less_irrefl)

text \<open>A series of allocations hands out different frames, all of them free before.\<close>

lemma collect_alloc:
  assumes "ainv s" "n \<le> card (avail s)"
  shows "\<exists>fs. fst (collect alloc n s) = map frame_addr fs \<and> distinct fs \<and> set fs \<subseteq> avail s \<and>
    avail (snd (collect alloc n s)) = avail s - set fs \<and> ainv (snd (collect alloc n s))"
  using assms
proof (induction n arbitrary: s)
  case 0
  then show ?case by simp
next
  case (Suc n)
  then have "avail s \<noteq> {}" by auto
  then obtain f where f: "f \<in> avail s" "fst (alloc s) = frame_addr f"
    "avail (snd (alloc s)) = avail s - {f}"
    using alloc_takes Suc.prems(1) by blast
  have "n \<le> card (avail (snd (alloc s)))"
    using Suc.prems f avail_finite by (simp add: card_Diff_singleton)
  with Suc.IH [OF alloc_ainv [OF Suc.prems(1)]] obtain fs where
    fs: "fst (collect alloc n (snd (alloc s))) = map frame_addr fs" "distinct fs"
    "set fs \<subseteq> avail (snd (alloc s))"
    "avail (snd (collect alloc n (snd (alloc s)))) = avail (snd (alloc s)) - set fs"
    "ainv (snd (collect alloc n (snd (alloc s))))"
    by blast
  show ?case
    using f fs by (intro exI [of _ "f # fs"]) (auto simp: split_beta Let_def)
qed

text \<open>When the frames run out, the series contains a 0.\<close>

lemma collect_alloc_exhausted:
  assumes "ainv s" "card (avail s) < n"
  shows "0 \<in> set (fst (collect alloc n s))"
  using assms
proof (induction n arbitrary: s)
  case 0
  then show ?case by simp
next
  case (Suc n)
  show ?case
  proof (cases "avail s = {}")
    case True
    then show ?thesis using Suc.prems alloc_empty by (simp add: split_beta Let_def)
  next
    case False
    then obtain f where "f \<in> avail s" "avail (snd (alloc s)) = avail s - {f}"
      using alloc_takes Suc.prems(1) by blast
    then have "card (avail (snd (alloc s))) < n"
      using Suc.prems avail_finite by (simp add: card_Diff_singleton)
         (metis card_gt_0_iff empty_iff less_Suc_eq_0_disj less_diff_conv2 One_nat_def Suc_leI add.commute plus_1_eq_Suc)
    then show ?thesis
      using Suc.IH alloc_ainv Suc.prems(1) by (simp add: split_beta Let_def)
  qed
qed

lemma fold_free:
  assumes "ainv s" "\<And>f. f \<in> set fs \<Longrightarrow> 0 < f \<and> f < MAX_FRAMES"
  shows "avail (fold free (map frame_addr fs) s) = avail s \<union> set fs \<and>
    ainv (fold free (map frame_addr fs) s)"
  using assms
  by (induction fs arbitrary: s) (auto simp: free_returns free_ainv)

end

interpretation pmm: frame_allocator alloc_frame free_frame "\<lambda>s. free_set (PMM s)" "\<lambda>s. pmm_inv (PMM s)"
proof (unfold_locales, goal_cases)
  case (1 s f)
  then show ?case by (rule free_set_bounds)
next
  case (2 s)
  then show ?case by (rule alloc_frame_empty)
next
  case (3 s)
  then have "Min (free_set (PMM s)) \<in> free_set (PMM s)" by simp
  with 3 show ?case by (intro bexI [of _ "Min (free_set (PMM s))"]) (simp_all add: alloc_frame_least)
next
  case (4 s)
  then show ?case by (rule alloc_frame_inv)
next
  case (5 s f)
  then show ?case by (simp add: free_frame_set frame_addr_unat)
next
  case (6 s a)
  then show ?case by (rule free_frame_inv)
qed


section \<open>Contiguous runs\<close>

definition run_at :: "(nat \<Rightarrow> bool) \<Rightarrow> nat \<Rightarrow> nat \<Rightarrow> bool" where
  "run_at fr count q \<longleftrightarrow> (\<forall>g. q \<le> g \<and> g < q + count \<longrightarrow> fr g)"

text \<open>
  The scan keeps \<open>c\<close> free frames behind it, starting at \<open>st\<close>. It returns the first start
  of a run of \<open>count\<close> free frames at or after the start of that window, and \<open>None\<close> only
  when there is none.
\<close>

lemma find_run_spec:
  assumes "c < count" and "c = 0 \<or> st + c = f \<and> run_at fr c st"
  shows "case find_run fr count f hi c st of
      Some r \<Rightarrow> (if c = 0 then f else st) \<le> r \<and> r + count \<le> hi \<and> run_at fr count r \<and>
        (\<forall>q. (if c = 0 then f else st) \<le> q \<and> q < r \<longrightarrow> \<not> run_at fr count q)
    | None \<Rightarrow> \<forall>q. (if c = 0 then f else st) \<le> q \<and> q + count \<le> hi \<longrightarrow> \<not> run_at fr count q"
  using assms
proof (induction fr count f hi c st rule: find_run.induct)
  case (1 fr count f hi c st)
  let ?b = "if c = 0 then f else st"
  have b: "?b + c = f" "run_at fr c ?b"
    using "1.prems" by (auto simp: run_at_def)
  consider (out) "hi \<le> f" | (busy) "f < hi" "\<not> fr f"
    | (full) "f < hi" "fr f" "c + 1 = count" | (more) "f < hi" "fr f" "c + 1 < count"
    using "1.prems"(1) by linarith
  then show ?case
  proof cases
    case out
    then show ?thesis using b "1.prems"(1) by (auto simp: find_run.simps [of fr count f])
  next
    case busy
    have skip: "\<not> run_at fr count q" if "?b \<le> q" "q < Suc f" for q
      using that b(1) busy(2) "1.prems"(1) unfolding run_at_def
      by (intro notI) (drule spec [of _ f], linarith)
    have eq: "find_run fr count f hi c st = find_run fr count (Suc f) hi 0 st"
      using busy by (subst find_run.simps) simp
    note IH = "1.IH"(2) [OF busy]
    show ?thesis
    proof (cases "find_run fr count (Suc f) hi 0 st")
      case None
      with IH "1.prems"(1) have "\<not> run_at fr count q" if "Suc f \<le> q" "q + count \<le> hi" for q
        using that by simp
      with skip have "\<not> run_at fr count q" if "?b \<le> q" "q + count \<le> hi" for q
        using that by (cases "q < Suc f") auto
      then show ?thesis using eq None by simp
    next
      case (Some r)
      with IH "1.prems"(1) have r: "Suc f \<le> r" "r + count \<le> hi" "run_at fr count r"
        "\<forall>q. Suc f \<le> q \<and> q < r \<longrightarrow> \<not> run_at fr count q"
        by simp_all
      with skip have "\<not> run_at fr count q" if "?b \<le> q" "q < r" for q
        using that by (cases "q < Suc f") auto
      then show ?thesis using eq Some r b(1) by simp
    qed
  next
    case full
    have "run_at fr count ?b"
      using b full(2,3) unfolding run_at_def by (metis Suc_eq_plus1 add_Suc_right less_Suc_eq)
    moreover have "find_run fr count f hi c st = Some ?b"
      using full by (subst find_run.simps) simp
    ultimately show ?thesis using b(1) full(1,3) by auto
  next
    case more
    have "run_at fr (c + 1) ?b"
      using b more(2) unfolding run_at_def by (metis Suc_eq_plus1 add_Suc_right less_Suc_eq)
    moreover have "find_run fr count f hi c st = find_run fr count (Suc f) hi (c + 1) ?b"
      using more by (subst find_run.simps) simp
    ultimately show ?thesis
      using "1.IH"(1) [OF more(1,2) refl refl] more(3) b
      by (cases "c = 0"; cases "find_run fr count (Suc f) hi (c + 1) ?b") simp_all
  qed
qed

lemma find_run_first_fit:
  assumes "0 < count"
  shows "find_run fr count 1 hi 0 0 = Some r \<Longrightarrow>
      1 \<le> r \<and> r + count \<le> hi \<and> run_at fr count r \<and> (\<forall>q. 1 \<le> q \<and> q < r \<longrightarrow> \<not> run_at fr count q)"
    and "find_run fr count 1 hi 0 0 = None \<Longrightarrow>
      1 \<le> q \<Longrightarrow> q + count \<le> hi \<Longrightarrow> \<not> run_at fr count q"
  using find_run_spec [of 0 count 0 1 fr hi] assms by auto

lemma run_at_one: "run_at fr (Suc 0) q = fr q"
  by (auto simp: run_at_def less_Suc_eq_le)

lemma free_set_fold_set_used:
  "free_set (fold (\<lambda>i. set_used (st + i)) [0..<n] p) = free_set p - {st..<st + n}"
  by (auto simp: free_set_def)

text \<open>First fit: the whole behaviour of \<^verbatim>\<open>alloc_frames\<close> for a positive count.\<close>

lemma alloc_frames_cases:
  assumes inv: "pmm_inv (PMM s)" and pos: "0 < count"
  obtains (fit) st where "1 \<le> st" "st + count \<le> MAX_FRAMES" "run_at (is_free (PMM s)) count st"
      "\<forall>q. 1 \<le> q \<and> q < st \<longrightarrow> \<not> run_at (is_free (PMM s)) count q"
      "fst (alloc_frames count s) = frame_addr st"
      "free_set (PMM (snd (alloc_frames count s))) = free_set (PMM s) - {st..<st + count}"
      "free_frames (PMM (snd (alloc_frames count s))) = free_frames (PMM s) - count"
      "MEM (snd (alloc_frames count s)) = zero_bytes (MEM s) (frame_addr st) (count * PAGE_SIZE)"
    | (none) "\<forall>q. 1 \<le> q \<and> q + count \<le> MAX_FRAMES \<longrightarrow> \<not> run_at (is_free (PMM s)) count q"
      "alloc_frames count s = (0, s)"
proof (cases "count = 1")
  case one: True
  show thesis
  proof (cases "first_such (is_free (PMM s)) (Suc 0) MAX_FRAMES")
    case None
    then have "\<forall>q. 1 \<le> q \<and> q < MAX_FRAMES \<longrightarrow> \<not> is_free (PMM s) q"
      by (simp add: first_such_None_iff)
    with one None show thesis
      by (intro none) (simp_all add: alloc_frames_def alloc_frame_def run_at_one)
  next
    case (Some st)
    moreover from this have "1 \<le> st \<and> st < MAX_FRAMES \<and> is_free (PMM s) st \<and>
        (\<forall>q. 1 \<le> q \<and> q < st \<longrightarrow> \<not> is_free (PMM s) q)"
      by (simp add: first_such_Some_iff)
    ultimately show thesis
      using one by (intro fit [of st])
        (simp_all add: alloc_frames_def alloc_frame_def run_at_one Let_def)
  qed
next
  case False
  show thesis
  proof (cases "find_run (is_free (PMM s)) count 1 MAX_FRAMES 0 0")
    case None
    with False pos show thesis
      using find_run_first_fit(2) by (intro none) (auto simp: alloc_frames_def)
  next
    case (Some st)
    with False pos show thesis
      using find_run_first_fit(1) [OF pos Some]
      by (intro fit [of st]) (simp_all add: alloc_frames_def Let_def free_set_fold_set_used)
  qed
qed

lemma alloc_frames_inv [inv_intros]:
  assumes "pmm_inv (PMM s)"
  shows "pmm_inv (PMM (snd (alloc_frames count s)))"
proof (cases "count = 0")
  case True
  with assms show ?thesis by (simp add: alloc_frames_def)
next
  case False
  with assms have pos: "0 < count" by simp
  from assms pos show ?thesis
  proof (cases rule: alloc_frames_cases)
    case (fit st)
    have sub: "{st..<st + count} \<subseteq> free_set (PMM s)"
      using fit(2,3) by (auto simp: free_set_def run_at_def)
    have "0 \<notin> free_set (PMM (snd (alloc_frames count s)))"
      using free_set_bounds [OF assms, of 0] by (auto simp: fit(6))
    then show ?thesis
      using assms sub by (simp add: pmm_inv_def fit(6,7) card_Diff_subset is_free_zero_iff)
  next
    case none
    with assms show ?thesis by simp
  qed
qed

section \<open>Initialisation\<close>

definition entry_frames :: "mem_map_entry \<Rightarrow> nat set" where
  "entry_frames e =
     (if mem_type e \<noteq> EFI_CONVENTIONAL_MEMORY then {}
      else {f. unat (physical_start e) div PAGE_SIZE \<le> f \<and>
               f < (unat (physical_start e) div PAGE_SIZE + unat (num_pages e)) mod 2 ^ 64 \<and>
               f < MAX_FRAMES})"

definition usable_frames :: "boot_info \<Rightarrow> nat set" where
  "usable_frames bi = (\<Union>e \<in> set (take (unat (bi_mmap_count bi)) (bi_mmap bi)). entry_frames e)"

definition counted :: "pmm_state \<Rightarrow> bool" where
  "counted p \<longleftrightarrow> free_frames p = card (free_set p) \<and> total_frames p = card (free_set p)"

lemma claim_frame_spec:
  "free_set (claim_frame f p) = (if f < MAX_FRAMES then insert f (free_set p) else free_set p)"
  "counted p \<Longrightarrow> counted (claim_frame f p)"
  by (auto simp: claim_frame_def counted_def card_insert_if) (auto simp: free_set_def)

lemma fold_claim_frame:
  "free_set (fold claim_frame fs p) = free_set p \<union> {f \<in> set fs. f < MAX_FRAMES}"
  "counted p \<Longrightarrow> counted (fold claim_frame fs p)"
  by (induction fs arbitrary: p) (auto simp: claim_frame_spec split: if_splits)

lemma fold_claim_entry:
  "free_set (fold claim_entry es p) = free_set p \<union> (\<Union>e \<in> set es. entry_frames e)"
  "counted p \<Longrightarrow> counted (fold claim_entry es p)"
  by (induction es arbitrary: p)
    (auto simp: claim_entry_def entry_frames_def Let_def fold_claim_frame)

lemma reserve_frame_spec:
  "free_set (reserve_frame f p) = free_set p - {f}"
  "free_frames p = card (free_set p) \<Longrightarrow>
   free_frames (reserve_frame f p) = card (free_set (reserve_frame f p))"
  "total_frames (reserve_frame f p) = total_frames p"
  by (auto simp: reserve_frame_def card_Diff_singleton_if) (auto simp: free_set_def)

lemma fold_reserve_frame:
  "free_set (fold reserve_frame fs p) = free_set p - set fs"
  "free_frames p = card (free_set p) \<Longrightarrow>
   free_frames (fold reserve_frame fs p) = card (free_set (fold reserve_frame fs p))"
  "total_frames (fold reserve_frame fs p) = total_frames p"
  by (induction fs arbitrary: p) (auto simp: reserve_frame_spec)

lemma pmm_new_counted: "counted pmm_new" "free_set pmm_new = {}"
proof -
  have all: "(0xFF :: u8) = - 1" by simp
  have "\<not> is_free pmm_new f" for f
    using bit_minus_1_iff [of "f mod 8", where 'a = u8] unfolding all [symmetric]
    by (simp add: is_free_bit pmm_new_def del: bit_minus_1_iff)
  then show "free_set pmm_new = {}" by (simp add: free_set_def)
  then show "counted pmm_new" by (simp add: counted_def pmm_new_def)
qed

lemma pmm_init_spec:
  fixes bi :: boot_info
  assumes "PMM s = pmm_new"
  defines "p \<equiv> PMM (pmm_init bi s)"
  shows "free_set p = usable_frames bi - set (kernel_frames bi) - {0}"
    and "free_frames p = card (free_set p)"
    and "total_frames p = card (usable_frames bi)"
    and "\<not> is_free p 0"
proof -
  let ?p1 = "fold claim_entry (take (unat (bi_mmap_count bi)) (bi_mmap bi)) pmm_new"
  let ?p2 = "fold reserve_frame (kernel_frames bi) ?p1"
  have p: "p = (if is_free ?p2 0 then (set_used 0 ?p2)\<lparr>free_frames := free_frames ?p2 - 1\<rparr> else ?p2)"
    by (simp add: p_def pmm_init_def assms(1) Let_def)
  have 1: "free_set ?p1 = usable_frames bi" "counted ?p1"
    using pmm_new_counted by (simp_all add: fold_claim_entry usable_frames_def)
  have 2: "free_set ?p2 = usable_frames bi - set (kernel_frames bi)"
    "free_frames ?p2 = card (free_set ?p2)" "total_frames ?p2 = card (usable_frames bi)"
    using 1 by (simp_all add: fold_reserve_frame counted_def)
  have z: "is_free ?p2 0 \<longleftrightarrow> 0 \<in> free_set ?p2"
    by (rule is_free_zero_iff)
  show "free_set p = usable_frames bi - set (kernel_frames bi) - {0}"
    using 2(1) z by (auto simp: p)
  then show "free_frames p = card (free_set p)"
    using 2 z by (auto simp: p card_Diff_singleton)
  show "total_frames p = card (usable_frames bi)" using 2(3) by (simp add: p)
  show "\<not> is_free p 0" by (simp add: p)
qed

lemma pmm_init_inv: "PMM s = pmm_new \<Longrightarrow> pmm_inv (PMM (pmm_init bi s))"
  using pmm_init_spec [of s bi] by (simp add: pmm_inv_def)

section \<open>Properties\<close>

text \<open>A small allocator state for the witnesses: frames 1 to 200 are free.\<close>

definition pmm_example :: phys where
  "pmm_example =
     \<lparr>PMM = (fold set_free [1..<201] pmm_new)\<lparr>free_frames := 200, total_frames := 200\<rparr>,
      MEM = (\<lambda>_. 7)\<rparr>"

lemma is_free_fold_set_free: "is_free (fold set_free fs p) g \<longleftrightarrow> g \<in> set fs \<or> is_free p g"
  by (induction fs arbitrary: p) auto

lemma pmm_example_free: "free_set (PMM pmm_example) = {1..<201}"
proof -
  have "\<not> is_free pmm_new g" if "g < MAX_FRAMES" for g
    using that pmm_new_counted(2) by (auto simp: free_set_def)
  then show ?thesis
    by (auto simp: pmm_example_def free_set_def is_free_fold_set_free MAX_FRAMES_def simp del: upt_rec_numeral)
qed

lemma pmm_example_inv: "pmm_inv (PMM pmm_example)"
  unfolding pmm_inv_def is_free_zero_iff pmm_example_free by (simp add: pmm_example_def)

text \<open>C8: \<^verbatim>\<open>alloc_frame\<close> hands out the lowest-numbered free frame, takes exactly that frame
  out of the free set, returns its (nonzero, page-aligned) address with the page cleared and
  no other byte of memory changed, and keeps the bitmap and the counter in agreement.\<close>

theorem alloc_frame_correct:
  assumes "pmm_inv (PMM s)" and "free_set (PMM s) \<noteq> {}"
  shows "let f = Min (free_set (PMM s)); (addr, t) = alloc_frame s
    in f \<in> free_set (PMM s) \<and> addr = frame_addr f \<and> addr \<noteq> 0 \<and>
       free_set (PMM t) = free_set (PMM s) - {f} \<and> pmm_inv (PMM t) \<and>
       (\<forall>i<PAGE_SIZE. MEM t (addr + of_nat i) = 0) \<and>
       (\<forall>a. PAGE_SIZE \<le> unat (a - addr) \<longrightarrow> MEM t a = MEM s a)"
proof -
  let ?f = "Min (free_set (PMM s))"
  have mem: "?f \<in> free_set (PMM s)" using assms(2) by simp
  then have "frame_addr ?f \<noteq> 0"
    using free_set_bounds [OF assms(1) mem] by (simp add: frame_addr_0_iff)
  with mem alloc_frame_inv [OF assms(1)] show ?thesis
    by (simp add: alloc_frame_least [OF assms] zero_bytes_def unat_of_nat Let_def)
qed

theorem alloc_frame_correct_witness:
  "fst (alloc_frame pmm_example) = 4096 \<and>
   free_set (PMM (snd (alloc_frame pmm_example))) = {2..<201}"
proof -
  have "Min {1..<201} = (1::nat)" by (rule Min_eqI) auto
  moreover have "{1..<201} - {1} = {2..<201::nat}" by auto
  ultimately show ?thesis
    using alloc_frame_correct [OF pmm_example_inv]
    by (simp add: pmm_example_free frame_addr_def Let_def split_beta)
qed

text \<open>C15: \<^verbatim>\<open>alloc_frames\<close> is first fit. It returns 0, changing nothing, exactly when no
  run of that many free frames exists (or the count is 0); otherwise it returns the address of
  the lowest run, takes exactly that run out of the free set and clears it.\<close>

theorem alloc_frames_first_fit:
  fixes count :: nat
  assumes "pmm_inv (PMM s)"
  defines "run \<equiv> \<lambda>q. 1 \<le> q \<and> q + count \<le> MAX_FRAMES \<and> run_at (is_free (PMM s)) count q"
  shows "if count = 0 \<or> (\<nexists>q. run q) then alloc_frames count s = (0, s)
    else \<exists>st. run st \<and> (\<forall>q. run q \<longrightarrow> st \<le> q) \<and> fst (alloc_frames count s) = frame_addr st \<and>
      free_set (PMM (snd (alloc_frames count s))) = free_set (PMM s) - {st..<st + count} \<and>
      MEM (snd (alloc_frames count s)) = zero_bytes (MEM s) (frame_addr st) (count * PAGE_SIZE) \<and>
      pmm_inv (PMM (snd (alloc_frames count s)))"
proof (cases "count = 0")
  case True
  then show ?thesis by (simp add: alloc_frames_def)
next
  case False
  then have "0 < count" by simp
  with assms(1) show ?thesis
  proof (cases rule: alloc_frames_cases)
    case (fit st)
    then have "run st" "\<forall>q. run q \<longrightarrow> st \<le> q" by (auto simp: run_def)
    with False fit(5,6,8) alloc_frames_inv [OF assms(1), of count] show ?thesis by auto
  next
    case none
    then have "\<nexists>q. run q" by (auto simp: run_def)
    with none(2) show ?thesis by simp
  qed
qed

theorem alloc_frames_first_fit_witness:
  "\<exists>st. fst (alloc_frames 3 pmm_example) = frame_addr st \<and>
     run_at (is_free (PMM pmm_example)) 3 st"
proof -
  have "is_free (PMM pmm_example) g" if "1 \<le> g" "g < 5" for g
  proof -
    have "g \<in> free_set (PMM pmm_example)" using that by (simp add: pmm_example_free)
    then show ?thesis by (simp add: free_set_def)
  qed
  then have "1 \<le> (1::nat) \<and> 1 + 3 \<le> MAX_FRAMES \<and> run_at (is_free (PMM pmm_example)) 3 1"
    by (simp add: run_at_def MAX_FRAMES_def)
  then show ?thesis
    using alloc_frames_first_fit [OF pmm_example_inv, of 3] by (auto split: if_splits)
qed

text \<open>C16: starting from the all-used bitmap, \<^verbatim>\<open>init\<close> makes exactly the conventional
  memory below 4 GiB free, except the kernel image and frame 0; \<^verbatim>\<open>total_frames\<close> counts every
  conventional frame once, also where map entries overlap, \<^verbatim>\<open>free_frames\<close> counts the free
  set, and the allocator invariant holds.\<close>

theorem pmm_init_correct:
  assumes "PMM s = pmm_new"
  shows "let p = PMM (pmm_init bi s); ok = usable_frames bi - set (kernel_frames bi) - {0}
    in free_set p = ok \<and> free_frames p = card ok \<and>
       total_frames p = card (usable_frames bi) \<and> pmm_inv p"
  using pmm_init_spec [OF assms, of bi] pmm_init_inv [OF assms, of bi]
  by (simp add: Let_def)

definition boot_example :: boot_info where
  "boot_example =
     \<lparr>bi_fb_base = 0x80000000, bi_fb_size = 0x300000, bi_width = 1024, bi_height = 768,
      bi_pitch = 4096,
      bi_mmap = [\<lparr>physical_start = 0, num_pages = 16, mem_type = 7\<rparr>,
                 \<lparr>physical_start = 0x10000, num_pages = 4, mem_type = 4\<rparr>],
      bi_mmap_count = 2, bi_kernel_phys_base = 0x2000, bi_kernel_alloc_size = 0x1800,
      bi_user_elf_base = 0, bi_user_elf_size = 0, bi_font_base = 0, bi_font_size = 0,
      bi_tsc_bootloader_start = 0\<rparr>"

lemma boot_example_frames:
  "usable_frames boot_example = {0..<16}" "set (kernel_frames boot_example) = {2, 3}"
proof -
  have "entry_frames \<lparr>physical_start = 0, num_pages = 16, mem_type = 7\<rparr> = {0..<16}"
    by (auto simp: entry_frames_def EFI_CONVENTIONAL_MEMORY_def MAX_FRAMES_def)
  moreover have "entry_frames \<lparr>physical_start = 0x10000, num_pages = 4, mem_type = 4\<rparr> = {}"
    by (simp add: entry_frames_def EFI_CONVENTIONAL_MEMORY_def)
  ultimately show "usable_frames boot_example = {0..<16}"
    by (simp add: usable_frames_def boot_example_def)
  have "kernel_frames boot_example = [2..<4]"
    by (simp add: kernel_frames_def boot_example_def div_ceil_def)
  then show "set (kernel_frames boot_example) = {2, 3}" by (simp add: upt_rec)
qed

theorem pmm_init_correct_witness:
  "free_set (PMM (pmm_init boot_example \<lparr>PMM = pmm_new, MEM = (\<lambda>_. 0)\<rparr>)) = insert 1 {4..<16}"
proof -
  have "{0..<16} - {2, 3} - {0} = insert 1 {4..<16::nat}" by auto
  then show ?thesis
    using pmm_init_correct [of "\<lparr>PMM = pmm_new, MEM = (\<lambda>_. 0)\<rparr>" boot_example]
    unfolding Let_def boot_example_frames by simp
qed

text \<open>C17: the boot self test panics exactly when fewer than 128 frames are free; when it
  passes, every frame it took is free again and the invariant holds.\<close>

theorem test_pmm_basic_correct:
  assumes "pmm_inv (PMM s)"
  shows "if card (free_set (PMM s)) < 128 then test_pmm_basic s = Panicked
    else \<exists>t. test_pmm_basic s = Done () t \<and> free_set (PMM t) = free_set (PMM s) \<and>
           free_frames (PMM t) = free_frames (PMM s) \<and> pmm_inv (PMM t)"
proof (cases "card (free_set (PMM s)) < 128")
  case True
  then show ?thesis
    using pmm.collect_alloc_exhausted [OF assms True]
    by (simp add: test_pmm_basic_def split_beta Let_def)
next
  case False
  let ?c = "collect alloc_frame 128 s"
  from False obtain fs where fs: "fst ?c = map frame_addr fs" "distinct fs"
    "set fs \<subseteq> free_set (PMM s)" "free_set (PMM (snd ?c)) = free_set (PMM s) - set fs"
    "pmm_inv (PMM (snd ?c))"
    using pmm.collect_alloc [OF assms, of 128] by auto
  have bounds: "0 < f \<and> f < MAX_FRAMES" if "f \<in> set fs" for f
    using that fs(3) free_set_bounds [OF assms] by auto
  have len: "length fs = 128" using arg_cong [OF fs(1), of length] by simp
  have "0 \<notin> set (fst ?c)" using bounds by (force simp: fs(1) frame_addr_0_iff)
  moreover have "\<not> (\<exists>i<128. \<exists>j<128. i < j \<and> fst ?c ! i = fst ?c ! j)"
    using fs(2) len bounds by (auto simp: fs(1) frame_addr_eq_iff nth_eq_iff_index_eq)
  moreover have "free_set (PMM (fold free_frame (fst ?c) (snd ?c))) = free_set (PMM s)"
    "pmm_inv (PMM (fold free_frame (fst ?c) (snd ?c)))"
    using pmm.fold_free [OF fs(5), of fs] bounds fs(3,4) by (auto simp: fs(1))
  ultimately show ?thesis
    using False assms by (simp add: test_pmm_basic_def split_beta Let_def pmm_inv_def)
qed

theorem test_pmm_basic_correct_witness:
  "\<exists>t. test_pmm_basic pmm_example = Done () t \<and> free_set (PMM t) = {1..<201}"
  using test_pmm_basic_correct [OF pmm_example_inv] by (auto simp: pmm_example_free)

end
