(* ===== verification/Paging.thy ===== *)
theory Paging
  imports Pmm
begin

text \<open>
  Page tables (\<^verbatim>\<open>kernel/src/arch/amd64/paging.rs\<close>). Tables live in physical memory and are
  read and written through the direct map, so an access at \<open>p2v a\<close> is an access of \<open>MEM\<close> at
  \<open>a\<close>. The translation lookaside buffer is not modelled: \<^verbatim>\<open>invlpg\<close> and the load of
  \<^verbatim>\<open>cr3\<close> leave memory unchanged. The index of a virtual address at level \<open>k\<close> of the walk
  (0 for the PML4, 3 for the page table) is \<open>vidx k\<close>.
\<close>

unbundle bit_operations_syntax

section \<open>Constants and address arithmetic\<close>

definition PTE_PRESENT :: u64 where "PTE_PRESENT = 1"
definition PTE_WRITABLE :: u64 where "PTE_WRITABLE = 2"
definition PTE_USER :: u64 where "PTE_USER = 4"
definition PTE_HUGE :: u64 where "PTE_HUGE = 0x80"
definition PTE_NX :: u64 where "PTE_NX = 0x8000000000000000"
definition PTE_ADDR_MASK :: u64 where "PTE_ADDR_MASK = 0x000ffffffffff000"
definition PHYSICAL_OFFSET :: u64 where "PHYSICAL_OFFSET = 0xFFFF800000000000"
definition KERNEL_IMAGE_BASE :: u64 where "KERNEL_IMAGE_BASE = 0xFFFFFFFF80100000"

lemmas pte_bits = PTE_PRESENT_def PTE_WRITABLE_def PTE_USER_def PTE_HUGE_def PTE_NX_def
  PTE_ADDR_MASK_def

record map_flags =
  mf_writable :: bool
  mf_user :: bool
  mf_executable :: bool

definition p2v :: "u64 \<Rightarrow> u64" where
  "p2v phys = phys + PHYSICAL_OFFSET"

definition v2p :: "u64 \<Rightarrow> u64" where
  "v2p virt = (if virt \<ge> PHYSICAL_OFFSET then virt - PHYSICAL_OFFSET else virt - 0xFFFFFFFF80000000)"

definition vidx :: "nat \<Rightarrow> u64 \<Rightarrow> u64" where
  "vidx k virt = drop_bit (39 - 9 * k) virt AND 0x1FF"

definition entry_addr :: "u64 \<Rightarrow> u64 \<Rightarrow> u64" where
  "entry_addr table i = table + i * 8"

section \<open>Table operations\<close>

definition alloc_table :: "'a phys_scheme \<Rightarrow> ('a phys_scheme, u64) outcome" where
  "alloc_table s = (let (addr, s1) = alloc_frame s in if addr = 0 then Panicked else Done addr s1)"

definition pte_ptr :: "memory \<Rightarrow> u64 \<Rightarrow> u64 \<Rightarrow> u64 option" where
  "pte_ptr m pml4 virt =
     (let pml4e = rd64 m (entry_addr pml4 (vidx 0 virt))
      in if pml4e AND PTE_PRESENT = 0 then None
         else let pdpt = pml4e AND NOT 0xFFF;
                  pdpte = rd64 m (entry_addr pdpt (vidx 1 virt))
              in if pdpte AND PTE_PRESENT = 0 then None
                 else let pd = pdpte AND NOT 0xFFF;
                          pde = rd64 m (entry_addr pd (vidx 2 virt))
                      in if pde AND PTE_PRESENT = 0 \<or> pde AND PTE_HUGE \<noteq> 0 then None
                         else let pt = pde AND NOT 0xFFF
                              in Some (entry_addr pt (vidx 3 virt)))"

definition write_entry :: "u64 \<Rightarrow> nat \<Rightarrow> u64 \<Rightarrow> 'a phys_scheme \<Rightarrow> 'a phys_scheme" where
  "write_entry table i value s = s\<lparr>MEM := wr64 (MEM s) (entry_addr table (of_nat i)) value\<rparr>"

text \<open>
  One level of the walks that create tables: \<^verbatim>\<open>if *ptr == 0\<close> allocate a table and link
  it, then read the entry's address.
\<close>

definition ensure_table :: "u64 \<Rightarrow> u64 \<Rightarrow> 'a phys_scheme \<Rightarrow> ('a phys_scheme, u64) outcome" where
  "ensure_table ptr flags s =
     obind (if rd64 (MEM s) ptr = 0
            then obind (alloc_table s) (\<lambda>t s1. Done () (s1\<lparr>MEM := wr64 (MEM s1) ptr (t OR flags)\<rparr>))
            else Done () s)
       (\<lambda>_ s2. Done (rd64 (MEM s2) ptr AND NOT 0xFFF) s2)"

definition user_flag :: "map_flags \<Rightarrow> u64" where
  "user_flag flags = (if mf_user flags then PTE_USER else 0)"

definition leaf_flags :: "map_flags \<Rightarrow> u64" where
  "leaf_flags flags =
     (if mf_writable flags then PTE_WRITABLE else 0) OR (if mf_user flags then PTE_USER else 0) OR
     (if mf_executable flags then 0 else PTE_NX)"

definition map_page_in ::
  "u64 \<Rightarrow> u64 \<Rightarrow> u64 \<Rightarrow> map_flags \<Rightarrow> 'a phys_scheme \<Rightarrow> ('a phys_scheme, unit) outcome" where
  "map_page_in pml4 virt phys flags s =
     (let tf = PTE_PRESENT OR PTE_WRITABLE OR user_flag flags
      in obind (ensure_table (entry_addr pml4 (vidx 0 virt)) tf s) (\<lambda>pdpt s1.
         obind (ensure_table (entry_addr pdpt (vidx 1 virt)) tf s1) (\<lambda>pd s2.
         obind (ensure_table (entry_addr pd (vidx 2 virt)) tf s2) (\<lambda>pt s3.
           if rd64 (MEM s3) (entry_addr pd (vidx 2 virt)) AND PTE_HUGE \<noteq> 0 then Done () s3
           else Done () (s3\<lparr>MEM := wr64 (MEM s3) (entry_addr pt (vidx 3 virt))
                                     (phys OR PTE_PRESENT OR leaf_flags flags)\<rparr>)))))"

definition translate_page :: "memory \<Rightarrow> u64 \<Rightarrow> u64 \<Rightarrow> u64 option" where
  "translate_page m pml4 virt =
     (let pml4e = rd64 m (entry_addr pml4 (vidx 0 virt))
      in if pml4e AND PTE_PRESENT = 0 then None
         else let pdpt = pml4e AND NOT 0xFFF;
                  pdpte = rd64 m (entry_addr pdpt (vidx 1 virt))
              in if pdpte AND PTE_PRESENT = 0 then None
                 else let pd = pdpte AND NOT 0xFFF;
                          pde = rd64 m (entry_addr pd (vidx 2 virt))
                      in if pde AND PTE_PRESENT = 0 then None
                         else if pde AND PTE_HUGE \<noteq> 0
                         then Some ((pde AND PTE_ADDR_MASK) + (virt AND (2 * 1024 * 1024 - 1)))
                         else case pte_ptr m pml4 virt of
                                None \<Rightarrow> None
                              | Some ptr \<Rightarrow>
                                  let pte = rd64 m ptr
                                  in if pte AND PTE_PRESENT = 0 then None
                                     else Some (pte AND PTE_ADDR_MASK))"

definition unmap_page_in :: "u64 \<Rightarrow> u64 \<Rightarrow> 'a phys_scheme \<Rightarrow> u64 option \<times> 'a phys_scheme" where
  "unmap_page_in pml4 virt s =
     (case pte_ptr (MEM s) pml4 virt of
        None \<Rightarrow> (None, s)
      | Some ptr \<Rightarrow>
          let entry = rd64 (MEM s) ptr
          in if entry AND PTE_PRESENT = 0 then (None, s)
             else (Some (entry AND PTE_ADDR_MASK), s\<lparr>MEM := wr64 (MEM s) ptr 0\<rparr>))"

definition protect_page_in ::
  "u64 \<Rightarrow> u64 \<Rightarrow> map_flags \<Rightarrow> 'a phys_scheme \<Rightarrow> bool \<times> 'a phys_scheme" where
  "protect_page_in pml4 virt flags s =
     (case pte_ptr (MEM s) pml4 virt of
        None \<Rightarrow> (False, s)
      | Some ptr \<Rightarrow>
          let entry = rd64 (MEM s) ptr
          in if entry AND PTE_PRESENT = 0 then (False, s)
             else (True, s\<lparr>MEM := wr64 (MEM s) ptr
                     ((entry AND NOT (PTE_WRITABLE OR PTE_USER OR PTE_NX)) OR leaf_flags flags)\<rparr>))"

section \<open>Ranges and the boot page tables\<close>

text \<open>
  The \<^verbatim>\<open>while virt < virt_end\<close> loops. Both bounds are multiples of the step above the
  start, so the loop runs \<open>(virt_end - virt) div step\<close> times when the range is not empty.
\<close>

primrec map_range_4k_loop ::
  "nat \<Rightarrow> u64 \<Rightarrow> u64 \<Rightarrow> u64 \<Rightarrow> 'a phys_scheme \<Rightarrow> ('a phys_scheme, unit) outcome" where
  "map_range_4k_loop 0 pml4 virt phys s = Done () s"
| "map_range_4k_loop (Suc n) pml4 virt phys s =
     obind (map_page_in pml4 virt phys \<lparr>mf_writable = True, mf_user = False, mf_executable = True\<rparr> s)
       (\<lambda>_. map_range_4k_loop n pml4 (virt + 0x1000) (phys + 0x1000))"

definition map_range_4k ::
  "u64 \<Rightarrow> u64 \<Rightarrow> u64 \<Rightarrow> u64 \<Rightarrow> 'a phys_scheme \<Rightarrow> ('a phys_scheme, unit) outcome" where
  "map_range_4k pml4 virt_start phys_start len s =
     (let virt_end = virt_start + div_ceil len 0x1000 * 0x1000
      in map_range_4k_loop
           (if virt_start < virt_end then unat (virt_end - virt_start) div 0x1000 else 0)
           pml4 virt_start phys_start s)"

primrec map_range_2mb_loop ::
  "nat \<Rightarrow> u64 \<Rightarrow> u64 \<Rightarrow> u64 \<Rightarrow> 'a phys_scheme \<Rightarrow> ('a phys_scheme, unit) outcome" where
  "map_range_2mb_loop 0 pml4 virt phys s = Done () s"
| "map_range_2mb_loop (Suc n) pml4 virt phys s =
     obind (ensure_table (entry_addr pml4 (vidx 0 virt)) (PTE_PRESENT OR PTE_WRITABLE) s) (\<lambda>pdpt s1.
     obind (ensure_table (entry_addr pdpt (vidx 1 virt)) (PTE_PRESENT OR PTE_WRITABLE) s1) (\<lambda>pd s2.
       map_range_2mb_loop n pml4 (virt + 0x200000) (phys + 0x200000)
         (s2\<lparr>MEM := wr64 (MEM s2) (entry_addr pd (vidx 2 virt))
                     (phys OR PTE_PRESENT OR PTE_WRITABLE OR PTE_HUGE)\<rparr>)))"

definition map_range_2mb ::
  "u64 \<Rightarrow> u64 \<Rightarrow> u64 \<Rightarrow> u64 \<Rightarrow> 'a phys_scheme \<Rightarrow> ('a phys_scheme, unit) outcome" where
  "map_range_2mb pml4 virt_start phys_start len s =
     (let two_mb = 0x200000;
          virt = virt_start AND NOT (two_mb - 1);
          phys = phys_start AND NOT (two_mb - 1);
          virt_end = (virt_start + len + two_mb - 1) AND NOT (two_mb - 1)
      in map_range_2mb_loop (if virt < virt_end then unat (virt_end - virt) div 0x200000 else 0)
           pml4 virt phys s)"

definition init_gigabyte :: "u64 \<Rightarrow> u64 \<Rightarrow> nat \<Rightarrow> 'a phys_scheme \<Rightarrow> ('a phys_scheme, unit) outcome" where
  "init_gigabyte dm_pdpt id_pdpt i s =
     obind (alloc_table s) (\<lambda>pd s1.
       let s2 = write_entry dm_pdpt i (pd OR PTE_PRESENT OR PTE_WRITABLE) s1;
           s3 = write_entry id_pdpt i (pd OR PTE_PRESENT OR PTE_WRITABLE) s2
       in Done () (fold (\<lambda>j. write_entry pd j
                      (of_nat (i * 512 + j) * (2 * 1024 * 1024) OR PTE_PRESENT OR PTE_WRITABLE OR PTE_HUGE))
                    [0..<512] s3))"

text \<open>\<^verbatim>\<open>paging::init\<close>; the result is the value stored in \<^verbatim>\<open>KERNEL_PML4\<close> and \<^verbatim>\<open>cr3\<close>.\<close>

definition paging_init :: "boot_info \<Rightarrow> 'a phys_scheme \<Rightarrow> ('a phys_scheme, u64) outcome" where
  "paging_init bi s =
     obind (alloc_table s) (\<lambda>pml4 s1.
     obind (alloc_table s1) (\<lambda>k_pdpt s2.
     obind (alloc_table s2) (\<lambda>dm_pdpt s3.
     obind (alloc_table s3) (\<lambda>id_pdpt s4.
       let s5 = write_entry pml4 511 (k_pdpt OR PTE_PRESENT OR PTE_WRITABLE) s4;
           s6 = write_entry pml4 256 (dm_pdpt OR PTE_PRESENT OR PTE_WRITABLE) s5;
           s7 = write_entry pml4 0 (id_pdpt OR PTE_PRESENT OR PTE_WRITABLE) s6
       in obind (for_each (init_gigabyte dm_pdpt id_pdpt) [0..<4] s7) (\<lambda>_ s8.
          obind (map_range_4k pml4 KERNEL_IMAGE_BASE (bi_kernel_phys_base bi) (bi_kernel_alloc_size bi) s8)
            (\<lambda>_ s9.
             let fb_phys = v2p (bi_fb_base bi)
             in obind (if fb_phys \<ge> 4 * 1024 * 1024 * 1024
                       then map_range_2mb pml4 (bi_fb_base bi) fb_phys (bi_fb_size bi) s9
                       else Done () s9)
                  (\<lambda>_ s10. Done pml4 s10)))))))"

section \<open>Cloning address spaces\<close>

definition clone_kernel_address_space :: "u64 \<Rightarrow> 'a phys_scheme \<Rightarrow> u64 \<times> 'a phys_scheme" where
  "clone_kernel_address_space kernel_pml4 s =
     (let (new_pml4, s1) = alloc_frame s;
          s2 = s1\<lparr>MEM := zero_bytes (MEM s1) new_pml4 4096\<rparr>
      in (new_pml4,
          fold (\<lambda>i t. write_entry new_pml4 i (rd64 (MEM t) (entry_addr kernel_pml4 (of_nat i))) t)
            [256..<512] s2))"

definition clone_pte :: "u64 \<Rightarrow> u64 \<Rightarrow> nat \<Rightarrow> 'a phys_scheme \<Rightarrow> ('a phys_scheme, unit) outcome" where
  "clone_pte src_pt dst_pt pt_i s =
     (let src_pte = rd64 (MEM s) (entry_addr src_pt (of_nat pt_i))
      in if src_pte AND PTE_PRESENT = 0 then Done () s
         else let src_frame = src_pte AND PTE_ADDR_MASK;
                  (new_frame, s1) = alloc_frame s
              in if new_frame = 0 then Panicked
                 else let s2 = s1\<lparr>MEM := wr_bytes (MEM s1) new_frame (rd_bytes (MEM s1) src_frame 4096)\<rparr>
                      in Done () (write_entry dst_pt pt_i (new_frame OR (src_pte AND NOT PTE_ADDR_MASK)) s2))"

definition clone_pde :: "u64 \<Rightarrow> u64 \<Rightarrow> nat \<Rightarrow> 'a phys_scheme \<Rightarrow> ('a phys_scheme, unit) outcome" where
  "clone_pde src_pd dst_pd pd_i s =
     (let src_pde = rd64 (MEM s) (entry_addr src_pd (of_nat pd_i))
      in if src_pde AND PTE_PRESENT = 0 then Done () s
         else if src_pde AND PTE_HUGE \<noteq> 0 then Done () (write_entry dst_pd pd_i src_pde s)
         else obind (alloc_table s) (\<lambda>new_pt s1.
                for_each (clone_pte (src_pde AND PTE_ADDR_MASK) new_pt) [0..<512]
                  (write_entry dst_pd pd_i (new_pt OR (src_pde AND NOT PTE_ADDR_MASK)) s1)))"

definition clone_pdpte :: "u64 \<Rightarrow> u64 \<Rightarrow> nat \<Rightarrow> 'a phys_scheme \<Rightarrow> ('a phys_scheme, unit) outcome" where
  "clone_pdpte src_pdpt dst_pdpt pdpt_i s =
     (let src_pdpte = rd64 (MEM s) (entry_addr src_pdpt (of_nat pdpt_i))
      in if src_pdpte AND PTE_PRESENT = 0 then Done () s
         else obind (alloc_table s) (\<lambda>new_pd s1.
                for_each (clone_pde (src_pdpte AND PTE_ADDR_MASK) new_pd) [0..<512]
                  (write_entry dst_pdpt pdpt_i (new_pd OR (src_pdpte AND NOT PTE_ADDR_MASK)) s1)))"

definition clone_pml4e :: "u64 \<Rightarrow> u64 \<Rightarrow> nat \<Rightarrow> 'a phys_scheme \<Rightarrow> ('a phys_scheme, unit) outcome" where
  "clone_pml4e src_pml4 dst_pml4 pml4_i s =
     (let src_pml4e = rd64 (MEM s) (entry_addr src_pml4 (of_nat pml4_i))
      in if src_pml4e AND PTE_PRESENT = 0 then Done () s
         else obind (alloc_table s) (\<lambda>new_pdpt s1.
                for_each (clone_pdpte (src_pml4e AND PTE_ADDR_MASK) new_pdpt) [0..<512]
                  (write_entry dst_pml4 pml4_i (new_pdpt OR (src_pml4e AND NOT PTE_ADDR_MASK)) s1)))"

definition clone_user_address_space ::
  "u64 \<Rightarrow> u64 \<Rightarrow> 'a phys_scheme \<Rightarrow> ('a phys_scheme, u64) outcome" where
  "clone_user_address_space kernel_pml4 src_pml4 s =
     (let (new_pml4, s1) = clone_kernel_address_space kernel_pml4 s
      in obind (for_each (clone_pml4e src_pml4 new_pml4) [0..<256] s1) (\<lambda>_. Done new_pml4))"

end
