(* ===== verification/AddressSpace.thy ===== *)
theory AddressSpace
  imports Paging
begin

text \<open>
  Address spaces: what a tree of page tables maps, the invariant that it is a tree of
  allocated frames, and what \<^verbatim>\<open>map_page_in\<close>, \<^verbatim>\<open>unmap_page_in\<close>, \<^verbatim>\<open>protect_page_in\<close>
  and \<^verbatim>\<open>translate_page\<close> of \<^verbatim>\<open>paging.rs\<close> do to the mapping. The abstract mapping is
  \<open>leaf_entry\<close>: for each virtual address the entry that ends the hardware walk, if any.
\<close>

unbundle bit_operations_syntax

section \<open>The walk\<close>

definition next_table :: "nat \<Rightarrow> u64 \<Rightarrow> u64 option" where
  "next_table k e =
     (if e AND PTE_PRESENT = 0 \<or> k = 2 \<and> e AND PTE_HUGE \<noteq> 0 then None else Some (e AND NOT 0xFFF))"

primrec table_at :: "memory \<Rightarrow> u64 \<Rightarrow> u64 \<Rightarrow> nat \<Rightarrow> u64 option" where
  "table_at m pml4 v 0 = Some pml4"
| "table_at m pml4 v (Suc k) =
     (case table_at m pml4 v k of
        None \<Rightarrow> None
      | Some t \<Rightarrow> next_table k (rd64 m (entry_addr t (vidx k v))))"

definition leaf_entry :: "memory \<Rightarrow> u64 \<Rightarrow> u64 \<Rightarrow> (bool \<times> u64) option" where
  "leaf_entry m pml4 v =
     (case table_at m pml4 v 2 of
        None \<Rightarrow> None
      | Some pd \<Rightarrow>
          let pde = rd64 m (entry_addr pd (vidx 2 v))
          in if pde AND PTE_PRESENT = 0 then None
             else if pde AND PTE_HUGE \<noteq> 0 then Some (True, pde)
             else case table_at m pml4 v 3 of
                    None \<Rightarrow> None
                  | Some pt \<Rightarrow>
                      let pte = rd64 m (entry_addr pt (vidx 3 v))
                      in if pte AND PTE_PRESENT = 0 then None else Some (False, pte))"

lemma pte_ptr_table_at:
  "pte_ptr m pml4 v = map_option (\<lambda>pt. entry_addr pt (vidx 3 v)) (table_at m pml4 v 3)"
  by (simp add: pte_ptr_def numeral_3_eq_3 next_table_def Let_def numeral_2_eq_2)

lemma translate_page_leaf:
  "translate_page m pml4 v =
     map_option (\<lambda>(huge, e). if huge then (e AND PTE_ADDR_MASK) + (v AND (2 * 1024 * 1024 - 1))
                             else e AND PTE_ADDR_MASK) (leaf_entry m pml4 v)"
  by (simp add: translate_page_def pte_ptr_def leaf_entry_def numeral_3_eq_3 next_table_def Let_def
      numeral_2_eq_2)

section \<open>Slots of tables\<close>

lemma vidx_less: "unat (vidx k v) < 512"
proof -
  have "vidx k v = take_bit 9 (drop_bit (39 - 9 * k) v)"
    by (simp add: vidx_def take_bit_eq_mask mask_eq_exp_minus_1)
  then have "unat (vidx k v) < 2 ^ 9"
    by (simp only: unsigned_take_bit_eq take_bit_nat_less_exp)
  then show ?thesis by simp
qed

definition table_addr :: "u64 \<Rightarrow> bool" where
  "table_addr t \<longleftrightarrow> (\<exists>f. 0 < f \<and> f < MAX_FRAMES \<and> t = frame_addr f)"

lemma entry_addr_unat:
  assumes "f < MAX_FRAMES" "unat i < 512"
  shows "unat (entry_addr (frame_addr f) i) = f * 4096 + unat i * 8"
proof -
  have "unat (i * 8) = unat i * 8" using assms(2) by (simp add: unat_word_ariths)
  then show ?thesis
    using assms by (simp add: entry_addr_def unat_word_ariths frame_addr_unat MAX_FRAMES_def)
qed

lemma slots_disjoint:
  assumes "table_addr t" "table_addr u" "unat i < 512" "unat j < 512" "t \<noteq> u \<or> i \<noteq> j"
  shows "disjoint_win (entry_addr t i) 8 (entry_addr u j) 8"
proof -
  from assms(1,2) obtain f g where fg: "f < MAX_FRAMES" "t = frame_addr f" "g < MAX_FRAMES" "u = frame_addr g"
    by (auto simp: table_addr_def)
  have ne: "f \<noteq> g \<or> unat i \<noteq> unat j" using assms(5) fg by (auto simp: word_unat_eq_iff)
  note a = entry_addr_unat [OF fg(1) assms(3)] entry_addr_unat [OF fg(3) assms(4)]
  show ?thesis
  proof (rule disjoint_winI)
    show "unat (entry_addr t i) + 8 \<le> 2 ^ 64" "unat (entry_addr u j) + 8 \<le> 2 ^ 64"
      using a fg assms(3,4) by (simp_all add: MAX_FRAMES_def)
    show "unat (entry_addr t i) + 8 \<le> unat (entry_addr u j) \<or> unat (entry_addr u j) + 8 \<le> unat (entry_addr t i)"
    proof (cases "f = g")
      case True
      with ne have "unat i < unat j \<or> unat j < unat i" by linarith
      then show ?thesis unfolding fg(2,4) a using True by linarith
    next
      case False
      then have "f + 1 \<le> g \<or> g + 1 \<le> f" by linarith
      then show ?thesis unfolding fg(2,4) a using assms(3,4) by linarith
    qed
  qed
qed

lemma slot_in_page_disjoint:
  assumes "f < MAX_FRAMES" "table_addr u" "u \<noteq> frame_addr f" "unat j < 512"
  shows "disjoint_win (frame_addr f) 4096 (entry_addr u j) 8"
proof -
  from assms(2) obtain g where g: "g < MAX_FRAMES" "u = frame_addr g" by (auto simp: table_addr_def)
  with assms(3) have "f + 1 \<le> g \<or> g + 1 \<le> f" by (cases f g rule: linorder_cases) auto
  with g assms(1,4) entry_addr_unat [OF g(1) assms(4)] show ?thesis
    by (intro disjoint_winI) (auto simp: frame_addr_unat MAX_FRAMES_def)
qed

text \<open>A table entry written with an aligned frame address and low flag bits.\<close>

lemma frame_addr_low_bits: "frame_addr f AND 0xFFF = 0"
proof -
  have "frame_addr f = push_bit 12 (of_nat f)"
    by (simp add: frame_addr_def push_bit_eq_mult)
  moreover have "(0xFFF :: u64) = mask 12" by (simp add: mask_eq_exp_minus_1)
  ultimately show ?thesis by (simp only: take_bit_push_bit flip: take_bit_eq_mask) simp
qed

definition table_flags :: "u64 \<Rightarrow> bool" where
  "table_flags fl \<longleftrightarrow> fl AND PTE_PRESENT \<noteq> 0 \<and> fl AND PTE_HUGE = 0 \<and> fl AND NOT 0xFFF = 0"

lemma table_flags_map: "table_flags (PTE_PRESENT OR PTE_WRITABLE OR user_flag flags)"
  by (simp add: table_flags_def user_flag_def pte_bits)

lemma link_entry_decode:
  assumes "table_addr n" "table_flags fl"
  shows "(n OR fl) AND PTE_PRESENT \<noteq> 0" "(n OR fl) AND PTE_HUGE = 0" "(n OR fl) AND NOT 0xFFF = n"
proof -
  from assms(1) have low: "n AND 0xFFF = 0" by (auto simp: table_addr_def frame_addr_low_bits)
  have "n AND c = 0" if "c = 0xFFF AND c" for c
  proof -
    have "n AND c = (n AND 0xFFF) AND c" using that by (metis and.assoc)
    with low show ?thesis by simp
  qed
  then have "n AND PTE_HUGE = 0" "n AND PTE_PRESENT = 0" by (simp_all add: pte_bits)
  with assms(2) show "(n OR fl) AND PTE_PRESENT \<noteq> 0" "(n OR fl) AND PTE_HUGE = 0"
    by (simp_all add: table_flags_def bit.conj_disj_distrib2)
  have "n AND NOT 0xFFF = n"
  proof -
    have "n = (n AND 0xFFF) OR (n AND NOT 0xFFF)" by (simp flip: bit.conj_disj_distrib)
    with low show ?thesis by simp
  qed
  then show "(n OR fl) AND NOT 0xFFF = n"
    using assms(2) by (simp only: bit.conj_disj_distrib2 table_flags_def) simp
qed

lemma next_table_link: "table_addr n \<Longrightarrow> table_flags fl \<Longrightarrow> next_table k (n OR fl) = Some n"
  unfolding next_table_def using link_entry_decode [of n fl] by (simp only: if_False simp_thms)

section \<open>The invariant\<close>

text \<open>
  The tables reachable from \<open>pml4\<close> are allocated frames, they form a tree (a table is
  reached by one path only), and an entry of an inner table that is not zero is present.
\<close>

definition aspace_inv :: "'a phys_scheme \<Rightarrow> u64 \<Rightarrow> bool" where
  "aspace_inv s pml4 \<longleftrightarrow>
     (\<forall>v k t. k \<le> 3 \<and> table_at (MEM s) pml4 v k = Some t \<longrightarrow>
        table_addr t \<and> unat t div PAGE_SIZE \<notin> free_set (PMM s)) \<and>
     (\<forall>v w k j t. k \<le> 3 \<and> j \<le> 3 \<and> table_at (MEM s) pml4 v k = Some t \<and>
        table_at (MEM s) pml4 w j = Some t \<longrightarrow> k = j \<and> (\<forall>i<k. vidx i v = vidx i w)) \<and>
     (\<forall>v k t. k \<le> 2 \<and> table_at (MEM s) pml4 v k = Some t \<and>
        rd64 (MEM s) (entry_addr t (vidx k v)) \<noteq> 0 \<longrightarrow>
        rd64 (MEM s) (entry_addr t (vidx k v)) AND PTE_PRESENT \<noteq> 0)"

lemma aspace_invI:
  assumes "\<And>v k t. k \<le> 3 \<Longrightarrow> table_at (MEM s) pml4 v k = Some t \<Longrightarrow>
      table_addr t \<and> unat t div PAGE_SIZE \<notin> free_set (PMM s)"
    and "\<And>v w k j t. k \<le> 3 \<Longrightarrow> j \<le> 3 \<Longrightarrow> table_at (MEM s) pml4 v k = Some t \<Longrightarrow>
      table_at (MEM s) pml4 w j = Some t \<Longrightarrow> k = j \<and> (\<forall>i<k. vidx i v = vidx i w)"
    and "\<And>v k t. k \<le> 2 \<Longrightarrow> table_at (MEM s) pml4 v k = Some t \<Longrightarrow>
      rd64 (MEM s) (entry_addr t (vidx k v)) \<noteq> 0 \<Longrightarrow>
      rd64 (MEM s) (entry_addr t (vidx k v)) AND PTE_PRESENT \<noteq> 0"
  shows "aspace_inv s pml4"
  using assms unfolding aspace_inv_def by blast

lemma aspace_table_addr:
  "aspace_inv s pml4 \<Longrightarrow> k \<le> 3 \<Longrightarrow> table_at (MEM s) pml4 v k = Some t \<Longrightarrow> table_addr t"
  unfolding aspace_inv_def by blast

lemma aspace_table_used:
  "aspace_inv s pml4 \<Longrightarrow> k \<le> 3 \<Longrightarrow> table_at (MEM s) pml4 v k = Some t \<Longrightarrow>
   unat t div PAGE_SIZE \<notin> free_set (PMM s)"
  unfolding aspace_inv_def by blast

lemma aspace_tree:
  "aspace_inv s pml4 \<Longrightarrow> k \<le> 3 \<Longrightarrow> j \<le> 3 \<Longrightarrow> table_at (MEM s) pml4 v k = Some t \<Longrightarrow>
   table_at (MEM s) pml4 w j = Some t \<Longrightarrow> k = j \<and> (\<forall>i<k. vidx i v = vidx i w)"
  unfolding aspace_inv_def by blast

lemma aspace_present:
  "aspace_inv s pml4 \<Longrightarrow> k \<le> 2 \<Longrightarrow> table_at (MEM s) pml4 v k = Some t \<Longrightarrow>
   rd64 (MEM s) (entry_addr t (vidx k v)) \<noteq> 0 \<Longrightarrow>
   rd64 (MEM s) (entry_addr t (vidx k v)) AND PTE_PRESENT \<noteq> 0"
  unfolding aspace_inv_def by blast

lemma table_at_prefix:
  "\<forall>i<k. vidx i w = vidx i v \<Longrightarrow> table_at m pml4 w k = table_at m pml4 v k"
  by (induction k) (simp_all cong: option.case_cong)

lemma table_at_cong:
  assumes "\<And>j t. j < k \<Longrightarrow> table_at m pml4 v j = Some t \<Longrightarrow>
    rd64 m' (entry_addr t (vidx j v)) = rd64 m (entry_addr t (vidx j v))"
  shows "table_at m' pml4 v k = table_at m pml4 v k"
  using assms by (induction k) (auto split: option.splits)

text \<open>Two addresses lie in the same 4 KiB page when all four indices agree.\<close>

definition same_page :: "u64 \<Rightarrow> u64 \<Rightarrow> bool" where
  "same_page v w \<longleftrightarrow> (\<forall>i<4. vidx i v = vidx i w)"

lemma same_page_iff:
  "same_page v w \<longleftrightarrow>
     vidx 0 v = vidx 0 w \<and> vidx 1 v = vidx 1 w \<and> vidx 2 v = vidx 2 w \<and> vidx 3 v = vidx 3 w"
  by (auto simp: same_page_def less_Suc_eq numeral_eq_Suc)

lemma same_page_refl [simp]: "same_page v v"
  by (simp add: same_page_def)

section \<open>Writing a leaf entry\<close>

lemma pte_write_read_other:
  assumes inv: "aspace_inv s pml4" and pt: "table_at (MEM s) pml4 v 3 = Some pt"
    and u: "j \<le> 3" "table_at (MEM s) pml4 w j = Some u" and ne: "\<not> (j = 3 \<and> same_page v w)"
  shows "rd64 (wr64 (MEM s) (entry_addr pt (vidx 3 v)) x) (entry_addr u (vidx j w)) =
    rd64 (MEM s) (entry_addr u (vidx j w))"
proof -
  have "pt \<noteq> u \<or> vidx 3 v \<noteq> vidx j w"
  proof (rule ccontr)
    assume "\<not> ?thesis"
    then have "pt = u" and eq: "vidx 3 v = vidx j w" by simp_all
    with aspace_tree [OF inv _ u(1) pt, of w] u(2) have "j = 3" "\<forall>i<3. vidx i v = vidx i w" by auto
    with eq have "same_page v w" by (simp add: same_page_def less_Suc_eq numeral_eq_Suc)
    with ne \<open>j = 3\<close> show False by simp
  qed
  then show ?thesis
    using aspace_table_addr [OF inv _ pt] aspace_table_addr [OF inv u]
    by (intro rd64_wr64_other slots_disjoint) (auto simp: vidx_less)
qed

lemma pte_write_table_at:
  assumes "aspace_inv s pml4" "table_at (MEM s) pml4 v 3 = Some pt" "j \<le> 3"
  shows "table_at (wr64 (MEM s) (entry_addr pt (vidx 3 v)) x) pml4 w j = table_at (MEM s) pml4 w j"
  using assms by (intro table_at_cong pte_write_read_other) auto

lemma pte_write_leaf:
  assumes inv: "aspace_inv s pml4" and pt: "table_at (MEM s) pml4 v 3 = Some pt"
  shows "leaf_entry (wr64 (MEM s) (entry_addr pt (vidx 3 v)) x) pml4 w =
    (if same_page v w then if x AND PTE_PRESENT = 0 then None else Some (False, x)
     else leaf_entry (MEM s) pml4 w)"
proof (cases "same_page v w")
  case True
  then have pre: "\<forall>i<k. vidx i w = vidx i v" if "k \<le> 4" for k
    using that by (simp add: same_page_def)
  have "table_at (MEM s) pml4 w 3 = Some pt" using pt table_at_prefix [OF pre [of 3]] by simp
  moreover from this obtain pd where pd: "table_at (MEM s) pml4 w 2 = Some pd"
    "next_table 2 (rd64 (MEM s) (entry_addr pd (vidx 2 w))) = Some pt"
    by (auto simp: numeral_3_eq_3 numeral_2_eq_2 split: option.splits)
  moreover have "vidx 3 w = vidx 3 v" using pre [of 4] by simp
  ultimately show ?thesis
    using True pte_write_read_other [OF inv pt _ pd(1)]
    by (simp add: leaf_entry_def pte_write_table_at [OF inv pt] next_table_def split: if_splits)
next
  case False
  then show ?thesis
    using pte_write_read_other [OF inv pt, of 2 w] pte_write_read_other [OF inv pt, of 3 w]
    by (auto simp: leaf_entry_def pte_write_table_at [OF inv pt] Let_def split: option.splits)
qed

lemma pte_write_inv:
  assumes inv: "aspace_inv s pml4" and pt: "table_at (MEM s) pml4 v 3 = Some pt"
  shows "aspace_inv (s\<lparr>MEM := wr64 (MEM s) (entry_addr pt (vidx 3 v)) x\<rparr>) pml4"
proof (rule aspace_invI, goal_cases)
  case (1 w k t)
  then show ?case
    using aspace_table_addr [OF inv] aspace_table_used [OF inv] by (simp add: pte_write_table_at [OF inv pt])
next
  case (2 w u k j t)
  then show ?case by (intro aspace_tree [OF inv]) (simp_all add: pte_write_table_at [OF inv pt])
next
  case (3 w k t)
  then have t: "table_at (MEM s) pml4 w k = Some t" by (simp add: pte_write_table_at [OF inv pt])
  with 3 show ?case
    using aspace_present [OF inv _ t] pte_write_read_other [OF inv pt _ t, of x] by simp
qed

section \<open>Linking a new table\<close>

text \<open>
  \<open>link m f p e\<close> is memory after a new table was allocated in frame \<open>f\<close> (and cleared) and
  the entry at \<open>p\<close> was set to \<open>e\<close>.
\<close>

definition link :: "memory \<Rightarrow> nat \<Rightarrow> u64 \<Rightarrow> u64 \<Rightarrow> memory" where
  "link m f p e = wr64 (zero_bytes m (frame_addr f) 4096) p e"

lemma link_read_new:
  assumes "f < MAX_FRAMES" "0 < f" "table_addr t" "t \<noteq> frame_addr f" "unat i < 512" "unat j < 512"
  shows "rd64 (link m f (entry_addr t i) e) (entry_addr (frame_addr f) j) = 0"
proof -
  have "table_addr (frame_addr f)" using assms(1,2) by (auto simp: table_addr_def)
  then have "rd64 (link m f (entry_addr t i) e) (entry_addr (frame_addr f) j) =
    rd64 (zero_bytes m (frame_addr f) 4096) (entry_addr (frame_addr f) j)"
    unfolding link_def using assms by (intro rd64_wr64_other slots_disjoint) auto
  also have "\<dots> = 0"
  proof (rule rd64_zero)
    fix b :: nat
    assume b: "b < 8"
    have "unat (j * 8 + of_nat b) = unat j * 8 + b"
      using assms(6) b by (simp add: unat_word_ariths unat_of_nat)
    then show "zero_bytes m (frame_addr f) 4096 (entry_addr (frame_addr f) j + of_nat b) = 0"
      using assms(6) b by (simp add: zero_bytes_def entry_addr_def add.assoc)
  qed
  finally show ?thesis .
qed

lemma link_read_old:
  assumes "f < MAX_FRAMES" "table_addr t" "table_addr u" "u \<noteq> frame_addr f"
    "unat i < 512" "unat j < 512" "u \<noteq> t \<or> j \<noteq> i"
  shows "rd64 (link m f (entry_addr t i) e) (entry_addr u j) = rd64 m (entry_addr u j)"
proof -
  have "rd64 (link m f (entry_addr t i) e) (entry_addr u j) =
    rd64 (zero_bytes m (frame_addr f) 4096) (entry_addr u j)"
    unfolding link_def using assms by (intro rd64_wr64_other slots_disjoint) auto
  also have "\<dots> = rd64 m (entry_addr u j)"
    using assms by (intro rd64_zero_bytes_other slot_in_page_disjoint) auto
  finally show ?thesis .
qed

lemma link_read_slot: "rd64 (link m f p e) p = e"
  by (simp add: link_def)

text \<open>The situation in which the walk for \<open>v\<close> finds an empty entry at level \<open>k\<close>.\<close>

definition link_ctx :: "'a phys_scheme \<Rightarrow> u64 \<Rightarrow> u64 \<Rightarrow> nat \<Rightarrow> u64 \<Rightarrow> nat \<Rightarrow> u64 \<Rightarrow> bool" where
  "link_ctx s pml4 v k t f fl \<longleftrightarrow>
     aspace_inv s pml4 \<and> k \<le> 2 \<and> table_at (MEM s) pml4 v k = Some t \<and>
     rd64 (MEM s) (entry_addr t (vidx k v)) = 0 \<and>
     0 < f \<and> f < MAX_FRAMES \<and> f \<in> free_set (PMM s) \<and> table_flags fl"

abbreviation linked :: "'a phys_scheme \<Rightarrow> u64 \<Rightarrow> nat \<Rightarrow> u64 \<Rightarrow> nat \<Rightarrow> u64 \<Rightarrow> memory" where
  "linked s v k t f fl \<equiv> link (MEM s) f (entry_addr t (vidx k v)) (frame_addr f OR fl)"

definition below :: "nat \<Rightarrow> u64 \<Rightarrow> u64 \<Rightarrow> bool" where
  "below k v w \<longleftrightarrow> (\<forall>i\<le>k. vidx i w = vidx i v)"

lemma link_ctxD:
  assumes "link_ctx s pml4 v k t f fl"
  shows "aspace_inv s pml4" "k \<le> 2" "table_at (MEM s) pml4 v k = Some t"
    "rd64 (MEM s) (entry_addr t (vidx k v)) = 0" "0 < f" "f < MAX_FRAMES" "f \<in> free_set (PMM s)"
    "table_flags fl" "table_addr (frame_addr f)"
  using assms by (auto simp: link_ctx_def table_addr_def)

lemma link_t_addr:
  assumes "link_ctx s pml4 v k t f fl"
  shows "table_addr t"
  using aspace_table_addr [OF link_ctxD(1) [OF assms] _ link_ctxD(3) [OF assms]] link_ctxD(2) [OF assms]
  by simp

lemma link_old_ne:
  assumes "link_ctx s pml4 v k t f fl" "j \<le> 3" "table_at (MEM s) pml4 w j = Some u"
  shows "u \<noteq> frame_addr f"
proof
  assume "u = frame_addr f"
  then have "unat u div PAGE_SIZE = f" using link_ctxD(6) [OF assms(1)] by (simp only: frame_addr_frame)
  with aspace_table_used [OF link_ctxD(1) [OF assms(1)] assms(2,3)] link_ctxD(7) [OF assms(1)]
  show False by simp
qed

lemma link_new_zero:
  assumes "link_ctx s pml4 v k t f fl"
  shows "rd64 (linked s v k t f fl) (entry_addr (frame_addr f) (vidx j w)) = 0"
  using link_ctxD [OF assms] link_t_addr [OF assms] link_old_ne [OF assms _ link_ctxD(3) [OF assms]]
  by (intro link_read_new) (simp_all add: vidx_less)

lemma link_old_read:
  assumes c: "link_ctx s pml4 v k t f fl"
    and u: "j \<le> 3" "table_at (MEM s) pml4 w j = Some u" "\<not> (j = k \<and> below k v w)"
  shows "rd64 (linked s v k t f fl) (entry_addr u (vidx j w)) = rd64 (MEM s) (entry_addr u (vidx j w))"
proof -
  have "u \<noteq> t \<or> vidx j w \<noteq> vidx k v"
  proof (rule ccontr)
    assume "\<not> ?thesis"
    then have "u = t" and eq: "vidx j w = vidx k v" by simp_all
    with aspace_tree [OF link_ctxD(1) [OF c] _ _ u(2), of k v] u(1) link_ctxD(2,3) [OF c]
    have "j = k" "\<forall>i<k. vidx i w = vidx i v" by auto
    with eq have "below k v w" by (auto simp: below_def le_less)
    with \<open>j = k\<close> u(3) show False by simp
  qed
  then show ?thesis
    using link_ctxD [OF c] link_t_addr [OF c] aspace_table_addr [OF link_ctxD(1) [OF c] u(1,2)]
      link_old_ne [OF c u(1,2)]
    by (intro link_read_old) (simp_all add: vidx_less)
qed

lemma link_below_table:
  assumes c: "link_ctx s pml4 v k t f fl" and b: "below k v w"
  shows "table_at (MEM s) pml4 w k = Some t" "table_at (MEM s) pml4 w (Suc k) = None"
proof -
  show "table_at (MEM s) pml4 w k = Some t"
    using link_ctxD(3) [OF c] table_at_prefix [of k w v "MEM s" pml4] b by (simp add: below_def)
  moreover have "vidx k w = vidx k v" using b by (simp add: below_def)
  ultimately show "table_at (MEM s) pml4 w (Suc k) = None"
    using link_ctxD(4) [OF c] by (simp add: next_table_def)
qed

lemma table_at_None_mono: "table_at m pml4 w i = None \<Longrightarrow> i \<le> j \<Longrightarrow> table_at m pml4 w j = None"
proof (induction j)
  case (Suc j)
  then show ?case by (cases "i = Suc j") simp_all
qed simp

lemma table_at_link:
  assumes c: "link_ctx s pml4 v k t f fl" and "j \<le> 3"
  shows "table_at (linked s v k t f fl) pml4 w j =
    (if below k v w \<and> j = Suc k then Some (frame_addr f) else table_at (MEM s) pml4 w j)"
  using assms(2)
proof (induction j)
  case 0
  then show ?case by simp
next
  case (Suc j)
  let ?m = "linked s v k t f fl"
  from Suc have IH: "table_at ?m pml4 w j =
      (if below k v w \<and> j = Suc k then Some (frame_addr f) else table_at (MEM s) pml4 w j)"
    by simp
  consider (new) "below k v w" "j = Suc k" | (slot) "below k v w" "j = k"
    | (other) "\<not> below k v w \<or> j \<noteq> Suc k \<and> j \<noteq> k"
    by blast
  then show ?case
  proof cases
    case new
    then show ?thesis
      using IH link_new_zero [OF c] link_below_table(2) [OF c new(1)] by (simp add: next_table_def)
  next
    case slot
    have "vidx k w = vidx k v" using slot by (simp add: below_def)
    with slot IH link_below_table(1) [OF c slot(1)] show ?thesis
      by (simp add: link_read_slot next_table_link [OF link_ctxD(9,8) [OF c]])
  next
    case other
    then have eq: "table_at ?m pml4 w j = table_at (MEM s) pml4 w j" using IH by auto
    show ?thesis
    proof (cases "table_at (MEM s) pml4 w j")
      case None
      with other eq show ?thesis by auto
    next
      case (Some u)
      with other eq link_old_read [OF c, of j w u] Suc.prems show ?thesis by auto
    qed
  qed
qed

lemma leaf_entry_link:
  assumes c: "link_ctx s pml4 v k t f fl"
  shows "leaf_entry (linked s v k t f fl) pml4 w = leaf_entry (MEM s) pml4 w"
proof (cases "below k v w")
  case False
  then have tab: "table_at (linked s v k t f fl) pml4 w j = table_at (MEM s) pml4 w j" if "j \<le> 3" for j
    using that table_at_link [OF c] by auto
  show ?thesis
    using tab [of 2] tab [of 3] link_old_read [OF c, of 2 w] link_old_read [OF c, of 3 w] False
    by (auto simp: leaf_entry_def Let_def split: option.splits)
next
  case True
  let ?m = "linked s v k t f fl"
  have none: "table_at (MEM s) pml4 w j = None" if "Suc k \<le> j" for j
    using link_below_table(2) [OF c True] that by (rule table_at_None_mono)
  show ?thesis
  proof (cases "k = 2")
    case k2: True
    have "vidx 2 w = vidx 2 v" using True k2 by (simp add: below_def)
    moreover have "table_at ?m pml4 w 2 = Some t" "table_at (MEM s) pml4 w 2 = Some t"
      using link_below_table(1) [OF c True] table_at_link [OF c, of 2 w] k2 by simp_all
    moreover have "table_at ?m pml4 w 3 = Some (frame_addr f)"
      using table_at_link [OF c, of 3 w] True k2 by simp
    ultimately show ?thesis
      using link_ctxD(4) [OF c] link_new_zero [OF c, of 3 w] k2
        link_entry_decode(1,2) [OF link_ctxD(9,8) [OF c]] link_read_slot
      by (simp add: leaf_entry_def)
  next
    case False
    with link_ctxD(2) [OF c] have "Suc k \<le> 2" by simp
    then show ?thesis
      using none [of 2] table_at_link [OF c, of 2 w] table_at_link [OF c, of 3 w]
        link_new_zero [OF c, of 2 w] True
      by (simp add: leaf_entry_def Let_def)
  qed
qed

lemma aspace_link:
  assumes c: "link_ctx s pml4 v k t f fl"
    and s': "MEM s' = linked s v k t f fl" "free_set (PMM s') = free_set (PMM s) - {f}"
  shows "aspace_inv s' pml4"
proof (rule aspace_invI, goal_cases)
  case (1 w j u)
  then show ?case
    using table_at_link [OF c, of j w] aspace_table_addr [OF link_ctxD(1) [OF c], of j w u]
      aspace_table_used [OF link_ctxD(1) [OF c], of j w u] link_ctxD(6,9) [OF c]
    by (auto simp: s' frame_addr_frame split: if_splits simp del: PAGE_SIZE_def)
next
  case (2 w x i j u)
  then show ?case
    using table_at_link [OF c, of i w] table_at_link [OF c, of j x] link_old_ne [OF c]
      aspace_tree [OF link_ctxD(1) [OF c], of i j w u x]
    by (auto simp: s' below_def split: if_splits)
next
  case (3 w j u)
  show ?case
  proof (cases "below k v w \<and> (j = k \<or> j = Suc k)")
    case True
    then have "vidx k w = vidx k v" by (simp add: below_def)
    with True 3 show ?thesis
      using table_at_link [OF c, of j w] link_below_table(1) [OF c] link_new_zero [OF c, of j w]
        link_entry_decode(1) [OF link_ctxD(9,8) [OF c]] link_read_slot
      by (auto simp: s')
  next
    case False
    with 3 have u: "table_at (MEM s) pml4 w j = Some u" using table_at_link [OF c, of j w] by (auto simp: s')
    then show ?thesis
      using 3 False link_old_read [OF c _ u] aspace_present [OF link_ctxD(1) [OF c] _ u] by (auto simp: s')
  qed
qed

section \<open>Steps that only extend the tables\<close>

text \<open>A byte of memory that is neither in a free frame nor in a table of the address space.\<close>

definition data_byte :: "'a phys_scheme \<Rightarrow> u64 \<Rightarrow> u64 \<Rightarrow> bool" where
  "data_byte s pml4 a \<longleftrightarrow>
     unat a div PAGE_SIZE \<notin> free_set (PMM s) \<and>
     (\<forall>w j u. j \<le> 3 \<longrightarrow> table_at (MEM s) pml4 w j = Some u \<longrightarrow>
        unat a div PAGE_SIZE \<noteq> unat u div PAGE_SIZE)"

definition extends :: "u64 \<Rightarrow> 'a phys_scheme \<Rightarrow> 'a phys_scheme \<Rightarrow> bool" where
  "extends pml4 s s' \<longleftrightarrow>
     aspace_inv s' pml4 \<and> pmm_inv (PMM s') \<and> phys.more s' = phys.more s \<and>
     free_set (PMM s') \<subseteq> free_set (PMM s) \<and>
     (\<forall>w. leaf_entry (MEM s') pml4 w = leaf_entry (MEM s) pml4 w) \<and>
     (\<forall>a. data_byte s pml4 a \<longrightarrow> data_byte s' pml4 a \<and> MEM s' a = MEM s a)"

lemma extends_refl: "aspace_inv s pml4 \<Longrightarrow> pmm_inv (PMM s) \<Longrightarrow> extends pml4 s s"
  by (simp add: extends_def)

lemma extends_trans: "extends pml4 s s' \<Longrightarrow> extends pml4 s' s'' \<Longrightarrow> extends pml4 s s''"
  unfolding extends_def by auto

lemma in_frame:
  assumes "f < MAX_FRAMES" "unat (a - frame_addr f) < 4096"
  shows "unat a div PAGE_SIZE = f"
proof -
  obtain b where b: "b < 4096" "a = frame_addr f + of_nat b" using in_win_iff [OF assms(2)] by auto
  then have "unat a = f * 4096 + b"
    using assms(1) by (simp add: unat_word_ariths frame_addr_unat unat_of_nat MAX_FRAMES_def)
  with b(1) show ?thesis by simp
qed

lemma in_slot:
  assumes "table_addr t" "unat i < 512" "unat (a - entry_addr t i) < 8"
  shows "unat a div PAGE_SIZE = unat t div PAGE_SIZE"
proof -
  from assms(1) obtain f where f: "f < MAX_FRAMES" "t = frame_addr f" by (auto simp: table_addr_def)
  obtain b where b: "b < 8" "a = entry_addr t i + of_nat b" using in_win_iff [OF assms(3)] by auto
  then have "unat a = f * 4096 + unat i * 8 + b"
    using f assms(2) entry_addr_unat [OF f(1) assms(2)]
    by (simp add: unat_word_ariths unat_of_nat MAX_FRAMES_def)
  with b(1) assms(2) f show ?thesis by (simp add: frame_addr_unat)
qed

lemma slot_write_data:
  assumes "aspace_inv s pml4" "j \<le> 3" "table_at (MEM s) pml4 w j = Some u" "data_byte s pml4 a"
  shows "wr64 m (entry_addr u (vidx j w)) x a = m a"
proof -
  have "\<not> unat (a - entry_addr u (vidx j w)) < 8"
    using in_slot [OF aspace_table_addr [OF assms(1-3)] vidx_less, of a j w] assms(2-4)
    by (auto simp: data_byte_def)
  then show ?thesis by (simp add: wr64_def wr_bytes_apply)
qed

lemma link_extends:
  assumes c: "link_ctx s pml4 v k t f fl" and pmm: "pmm_inv (PMM s')"
    and s': "MEM s' = linked s v k t f fl" "free_set (PMM s') = free_set (PMM s) - {f}"
      "phys.more s' = phys.more s"
  shows "extends pml4 s s'"
proof -
  have "data_byte s' pml4 a \<and> MEM s' a = MEM s a" if d: "data_byte s pml4 a" for a
  proof -
    have ne: "unat a div PAGE_SIZE \<noteq> f" using d link_ctxD(7) [OF c] by (auto simp: data_byte_def)
    then have "\<not> unat (a - frame_addr f) < 4096" using in_frame [OF link_ctxD(6) [OF c]] by blast
    moreover have "linked s v k t f fl a = zero_bytes (MEM s) (frame_addr f) 4096 a"
      unfolding link_def using slot_write_data [OF link_ctxD(1) [OF c] _ link_ctxD(3) [OF c] d] link_ctxD(2) [OF c]
      by simp
    ultimately have "MEM s' a = MEM s a" by (simp add: s' zero_bytes_def)
    moreover have "data_byte s' pml4 a"
      using d ne frame_addr_frame [OF link_ctxD(6) [OF c]] table_at_link [OF c]
      by (auto simp: data_byte_def s' simp del: PAGE_SIZE_def split: if_splits)
    ultimately show ?thesis by simp
  qed
  then show ?thesis
    using aspace_link [OF c s'(1,2)] pmm leaf_entry_link [OF c] by (simp add: extends_def s')
qed

lemma ensure_table_spec:
  assumes inv: "aspace_inv s pml4" "pmm_inv (PMM s)" and k: "k \<le> 2"
    and t: "table_at (MEM s) pml4 v k = Some t" and fl: "table_flags fl"
  defines "p \<equiv> entry_addr t (vidx k v)"
  obtains (oom) "ensure_table p fl s = Panicked" "free_set (PMM s) = {}"
    | (ok) s' where "ensure_table p fl s = Done (rd64 (MEM s') p AND NOT 0xFFF) s'" "extends pml4 s s'"
      "rd64 (MEM s') p \<noteq> 0" "table_at (MEM s') pml4 v k = Some t"
      "card (free_set (PMM s)) \<le> card (free_set (PMM s')) + 1"
proof (cases "rd64 (MEM s) p = 0")
  case False
  then show thesis
    using ok [of s] extends_refl [OF inv] t by (simp add: ensure_table_def)
next
  case empty: True
  show thesis
  proof (cases "free_set (PMM s) = {}")
    case True
    then show thesis
      using oom empty inv(2) by (simp add: ensure_table_def alloc_table_def alloc_frame_empty)
  next
    case False
    let ?f = "Min (free_set (PMM s))"
    have mem: "?f \<in> free_set (PMM s)" using False by simp
    have f: "0 < ?f" "?f < MAX_FRAMES" using free_set_bounds [OF inv(2) mem] by simp_all
    have c: "link_ctx s pml4 v k t ?f fl"
      using inv(1) k t fl empty mem f by (simp add: link_ctx_def p_def)
    define s1 where "s1 = snd (alloc_frame s)"
    define s' where "s' = s1\<lparr>MEM := wr64 (MEM s1) p (frame_addr ?f OR fl)\<rparr>"
    have s1: "alloc_frame s = (frame_addr ?f, s1)" "MEM s1 = zero_bytes (MEM s) (frame_addr ?f) 4096"
      "free_set (PMM s1) = free_set (PMM s) - {?f}" "phys.more s1 = phys.more s" "pmm_inv (PMM s1)"
      using alloc_frame_least [OF inv(2) False] alloc_frame_inv [OF inv(2)] by (simp_all add: s1_def)
    have MEM': "MEM s' = linked s v k t ?f fl" by (simp add: s'_def s1 link_def p_def)
    have "PMM s' = PMM s1" "phys.more s' = phys.more s" by (simp_all add: s'_def s1)
    then have ext: "extends pml4 s s'"
      using s1(3,5) by (intro link_extends [OF c]) (simp_all add: MEM')
    have rd: "rd64 (MEM s') p = frame_addr ?f OR fl" by (simp add: s'_def)
    have "frame_addr ?f \<noteq> 0" using f by (simp add: frame_addr_0_iff)
    with empty s1(1) have "ensure_table p fl s = Done (rd64 (MEM s') p AND NOT 0xFFF) s'"
      by (simp add: ensure_table_def alloc_table_def s'_def)
    moreover have "rd64 (MEM s') p \<noteq> 0"
      using link_entry_decode(1) [OF link_ctxD(9,8) [OF c]] by (auto simp: rd)
    moreover have "table_at (MEM s') pml4 v k = Some t"
      using table_at_link [OF c, of k v] k t by (simp add: MEM')
    moreover have "card (free_set (PMM s)) \<le> card (free_set (PMM s')) + 1"
      using mem by (simp add: s'_def s1 card_Diff_singleton)
    ultimately show thesis using ok [of s'] ext by blast
  qed
qed

section \<open>Mapping a page\<close>

definition huge_at :: "memory \<Rightarrow> u64 \<Rightarrow> u64 \<Rightarrow> bool" where
  "huge_at m pml4 v \<longleftrightarrow> (\<exists>e. leaf_entry m pml4 v = Some (True, e))"

lemma extends_next:
  assumes "aspace_inv s pml4" "k \<le> 2" "table_at (MEM s) pml4 v k = Some t"
    and "rd64 (MEM s) (entry_addr t (vidx k v)) \<noteq> 0"
    and "k = 2 \<Longrightarrow> rd64 (MEM s) (entry_addr t (vidx k v)) AND PTE_HUGE = 0"
  shows "table_at (MEM s) pml4 v (Suc k) = Some (rd64 (MEM s) (entry_addr t (vidx k v)) AND NOT 0xFFF)"
  using aspace_present [OF assms(1-4)] assms(3,5) by (auto simp: next_table_def)

lemma huge_at_pde:
  assumes "aspace_inv s pml4" "table_at (MEM s) pml4 v 2 = Some pd"
    and "rd64 (MEM s) (entry_addr pd (vidx 2 v)) \<noteq> 0"
  shows "huge_at (MEM s) pml4 v \<longleftrightarrow> rd64 (MEM s) (entry_addr pd (vidx 2 v)) AND PTE_HUGE \<noteq> 0"
  using aspace_present [OF assms(1) _ assms(2,3)] assms(2)
  by (auto simp: huge_at_def leaf_entry_def Let_def split: option.splits if_splits)

lemma leaf_entry_bits:
  "(phys OR PTE_PRESENT OR leaf_flags flags) AND PTE_PRESENT \<noteq> 0"
  "(phys OR PTE_PRESENT OR leaf_flags flags) AND PTE_ADDR_MASK = phys AND PTE_ADDR_MASK"
  by (simp_all add: bit.conj_disj_distrib2 leaf_flags_def pte_bits or_eq_0_iff)

text \<open>
  Everything \<^verbatim>\<open>map_page_in\<close> can do: run out of frames, find a huge page and leave the
  mapping alone, or set the leaf entry of the page.
\<close>

definition mapped :: "u64 \<Rightarrow> u64 \<Rightarrow> u64 \<Rightarrow> 'a phys_scheme \<Rightarrow> 'a phys_scheme \<Rightarrow> bool" where
  "mapped pml4 v e s s' \<longleftrightarrow>
     aspace_inv s' pml4 \<and> pmm_inv (PMM s') \<and> phys.more s' = phys.more s \<and>
     free_set (PMM s') \<subseteq> free_set (PMM s) \<and>
     (\<forall>w. leaf_entry (MEM s') pml4 w =
        (if same_page v w then Some (False, e) else leaf_entry (MEM s) pml4 w)) \<and>
     (\<forall>a. data_byte s pml4 a \<longrightarrow> data_byte s' pml4 a \<and> MEM s' a = MEM s a)"

lemma extends_pte:
  assumes ext: "extends pml4 s s3" and pt: "table_at (MEM s3) pml4 v 3 = Some pt"
    and e: "e AND PTE_PRESENT \<noteq> 0"
  shows "mapped pml4 v e s (s3\<lparr>MEM := wr64 (MEM s3) (entry_addr pt (vidx 3 v)) e\<rparr>)"
proof -
  from ext have inv3: "aspace_inv s3 pml4" by (simp add: extends_def)
  show ?thesis
    using ext e pte_write_inv [OF inv3 pt] pte_write_leaf [OF inv3 pt, of e]
      slot_write_data [OF inv3 _ pt] pte_write_table_at [OF inv3 pt]
    by (simp add: mapped_def extends_def data_byte_def)
qed

lemma ensure_inner:
  assumes "aspace_inv s pml4" "pmm_inv (PMM s)" "k < 2" "table_at (MEM s) pml4 v k = Some t"
    "table_flags fl"
  obtains (oom) "ensure_table (entry_addr t (vidx k v)) fl s = Panicked" "free_set (PMM s) = {}"
    | (ok) nt s' where "ensure_table (entry_addr t (vidx k v)) fl s = Done nt s'" "extends pml4 s s'"
      "table_at (MEM s') pml4 v (Suc k) = Some nt"
      "card (free_set (PMM s)) \<le> card (free_set (PMM s')) + 1"
proof (rule ensure_table_spec [OF assms(1,2) _ assms(4,5)])
  show "k \<le> 2" using assms(3) by simp
next
  fix s'
  assume a: "extends pml4 s s'" "rd64 (MEM s') (entry_addr t (vidx k v)) \<noteq> 0"
    "table_at (MEM s') pml4 v k = Some t"
    "card (free_set (PMM s)) \<le> card (free_set (PMM s')) + 1"
    "ensure_table (entry_addr t (vidx k v)) fl s =
       Done (rd64 (MEM s') (entry_addr t (vidx k v)) AND NOT 0xFFF) s'"
  show thesis
    using a(1) assms(3) by (intro ok [OF a(5,1) _ a(4)] extends_next [OF _ _ a(3,2)])
      (simp_all add: extends_def)
qed (rule oom)

lemma ensure_last:
  assumes "aspace_inv s pml4" "pmm_inv (PMM s)" "table_at (MEM s) pml4 v 2 = Some pd" "table_flags fl"
  defines "p \<equiv> entry_addr pd (vidx 2 v)"
  obtains (oom) "ensure_table p fl s = Panicked" "free_set (PMM s) = {}"
    | (huge) nt s' where "ensure_table p fl s = Done nt s'" "extends pml4 s s'"
      "rd64 (MEM s') p AND PTE_HUGE \<noteq> 0" "huge_at (MEM s) pml4 v"
    | (ok) nt s' where "ensure_table p fl s = Done nt s'" "extends pml4 s s'"
      "rd64 (MEM s') p AND PTE_HUGE = 0" "\<not> huge_at (MEM s) pml4 v"
      "table_at (MEM s') pml4 v 3 = Some nt"
proof (rule ensure_table_spec [OF assms(1,2) _ assms(3,4)])
  fix s'
  assume a: "extends pml4 s s'" "rd64 (MEM s') (entry_addr pd (vidx 2 v)) \<noteq> 0"
    "table_at (MEM s') pml4 v 2 = Some pd"
    "ensure_table (entry_addr pd (vidx 2 v)) fl s =
       Done (rd64 (MEM s') (entry_addr pd (vidx 2 v)) AND NOT 0xFFF) s'"
  from a(1) have inv': "aspace_inv s' pml4" by (simp add: extends_def)
  have h: "huge_at (MEM s) pml4 v \<longleftrightarrow> rd64 (MEM s') p AND PTE_HUGE \<noteq> 0"
    using huge_at_pde [OF inv' a(3,2)] a(1) by (simp add: p_def huge_at_def extends_def)
  show thesis
  proof (cases "rd64 (MEM s') p AND PTE_HUGE = 0")
    case True
    then have "table_at (MEM s') pml4 v (Suc 2) = Some (rd64 (MEM s') p AND NOT 0xFFF)"
      unfolding p_def by (intro extends_next [OF inv' _ a(3,2)]) simp_all
    then have "table_at (MEM s') pml4 v 3 = Some (rd64 (MEM s') p AND NOT 0xFFF)"
      by (simp only: numeral_3_eq_3 numeral_2_eq_2)
    with True h a(1,4) show thesis by (intro ok [of _ s']) (simp_all only: p_def simp_thms)
  next
    case False
    with h a(1,4) show thesis by (intro huge [of _ s']) (simp_all only: p_def simp_thms)
  qed
qed (simp_all add: oom p_def)

lemma map_page_in_cases:
  assumes inv: "aspace_inv s pml4" "pmm_inv (PMM s)"
  obtains (oom) "map_page_in pml4 v phys flags s = Panicked" "card (free_set (PMM s)) < 3"
    | (huge) s' where "map_page_in pml4 v phys flags s = Done () s'" "huge_at (MEM s) pml4 v"
      "extends pml4 s s'"
    | (ok) s' where "map_page_in pml4 v phys flags s = Done () s'" "\<not> huge_at (MEM s) pml4 v"
      "mapped pml4 v (phys OR PTE_PRESENT OR leaf_flags flags) s s'"
proof -
  note fl = table_flags_map [of flags]
  note leaf_bits = leaf_entry_bits(1) [of phys flags]
  have t0: "table_at (MEM s) pml4 v 0 = Some pml4" by simp
  show thesis
  proof (rule ensure_inner [OF inv _ t0 fl])
    assume a: "ensure_table (entry_addr pml4 (vidx 0 v)) (PTE_PRESENT OR PTE_WRITABLE OR user_flag flags) s = Panicked"
      "free_set (PMM s) = {}"
    then show thesis by (intro oom) (simp_all add: map_page_in_def)
  next
    fix pdpt s1
    assume a: "ensure_table (entry_addr pml4 (vidx 0 v)) (PTE_PRESENT OR PTE_WRITABLE OR user_flag flags) s = Done pdpt s1"
      "extends pml4 s s1" "table_at (MEM s1) pml4 v (Suc 0) = Some pdpt"
      "card (free_set (PMM s)) \<le> card (free_set (PMM s1)) + 1"
    from a(2) have i1: "aspace_inv s1 pml4" "pmm_inv (PMM s1)" by (simp_all add: extends_def)
    show thesis
    proof (rule ensure_inner [OF i1 _ a(3) fl])
      assume b: "ensure_table (entry_addr pdpt (vidx (Suc 0) v)) (PTE_PRESENT OR PTE_WRITABLE OR user_flag flags) s1 = Panicked"
        "free_set (PMM s1) = {}"
      then show thesis using a by (intro oom) (simp_all add: map_page_in_def)
    next
      fix pd s2
      assume b: "ensure_table (entry_addr pdpt (vidx (Suc 0) v)) (PTE_PRESENT OR PTE_WRITABLE OR user_flag flags) s1 = Done pd s2"
        "extends pml4 s1 s2" "table_at (MEM s2) pml4 v (Suc (Suc 0)) = Some pd"
        "card (free_set (PMM s1)) \<le> card (free_set (PMM s2)) + 1"
      from b(2) have i2: "aspace_inv s2 pml4" "pmm_inv (PMM s2)" by (simp_all add: extends_def)
      have t2: "table_at (MEM s2) pml4 v 2 = Some pd" using b(3) by (simp only: numeral_2_eq_2)
      have ext: "extends pml4 s s2" using a(2) b(2) by (rule extends_trans)
      have huge2: "huge_at (MEM s2) pml4 v = huge_at (MEM s) pml4 v"
        using ext by (simp add: extends_def huge_at_def)
      show thesis
      proof (cases rule: ensure_last [OF i2 t2 fl])
        case 1
        with a b show ?thesis by (intro oom) (simp_all add: map_page_in_def)
      next
        case (2 pt s3)
        with a b ext huge2 show ?thesis
          by (intro huge [of s3]) (auto simp: map_page_in_def intro: extends_trans)
      next
        case (3 pt s3)
        with a b ext huge2 show ?thesis
          by (intro ok) (auto simp: map_page_in_def intro: extends_pte [OF extends_trans [OF ext] _ leaf_bits])
      qed
    qed simp
  qed simp
qed

section \<open>Cloning the kernel half\<close>

lemma write_entry_frame [simp]:
  "PMM (write_entry t i x s) = PMM s" "phys.more (write_entry t i x s) = phys.more s"
  "MEM (write_entry t i x s) = wr64 (MEM s) (entry_addr t (of_nat i)) x"
  by (simp_all add: write_entry_def)

lemma unat_index: "i < 512 \<Longrightarrow> unat (of_nat i :: u64) = i"
  by (simp add: unat_of_nat)

lemma index_read_other_table:
  assumes "table_addr src" "table_addr dst" "src \<noteq> dst" "j < 512" "b < 512"
  shows "rd64 (wr64 m (entry_addr dst (of_nat b)) x) (entry_addr src (of_nat j)) =
    rd64 m (entry_addr src (of_nat j))"
  using assms by (intro rd64_wr64_other slots_disjoint) (auto simp: unat_index)

lemma index_read_same_table:
  assumes "table_addr dst" "j < 512" "b < 512"
  shows "rd64 (wr64 m (entry_addr dst (of_nat b)) x) (entry_addr dst (of_nat j)) =
    (if j = b then x else rd64 m (entry_addr dst (of_nat j)))"
proof (cases "j = b")
  case False
  then have "(of_nat b :: u64) \<noteq> of_nat j" using assms(2,3) by (metis unat_index)
  with assms False show ?thesis
    by (simp, intro rd64_wr64_other slots_disjoint) (auto simp: unat_index)
qed simp

abbreviation copy_entries :: "u64 \<Rightarrow> u64 \<Rightarrow> nat \<Rightarrow> nat \<Rightarrow> 'a phys_scheme \<Rightarrow> 'a phys_scheme" where
  "copy_entries src dst a b s \<equiv>
     fold (\<lambda>i t. write_entry dst i (rd64 (MEM t) (entry_addr src (of_nat i))) t) [a..<b] s"

lemma copy_entries_spec:
  assumes "table_addr src" "table_addr dst" "src \<noteq> dst" "b \<le> 512"
  shows "PMM (copy_entries src dst a b s) = PMM s \<and> (\<forall>j<512.
    rd64 (MEM (copy_entries src dst a b s)) (entry_addr src (of_nat j)) = rd64 (MEM s) (entry_addr src (of_nat j)) \<and>
    rd64 (MEM (copy_entries src dst a b s)) (entry_addr dst (of_nat j)) =
      (if a \<le> j \<and> j < b then rd64 (MEM s) (entry_addr src (of_nat j)) else rd64 (MEM s) (entry_addr dst (of_nat j))))"
  using assms(4)
proof (induction b)
  case 0
  show ?case by simp
next
  case (Suc b)
  then show ?case
    using index_read_other_table [OF assms(1-3)] index_read_same_table [OF assms(2)]
    by (cases "a \<le> b") (simp_all add: less_Suc_eq, auto)
qed

lemma copy_entries_other_table:
  assumes "table_addr u" "table_addr dst" "u \<noteq> dst" "unat i < 512" "b \<le> 512"
  shows "rd64 (MEM (copy_entries src dst a b s)) (entry_addr u i) = rd64 (MEM s) (entry_addr u i)"
  using assms(5)
proof (induction b)
  case (Suc b)
  then show ?case
    using assms(1-4) slots_disjoint [of dst u "of_nat b" i] unat_index [of b]
    by (cases "a \<le> b") (auto simp: rd64_wr64_other)
qed simp

text \<open>A walk from another root that agrees on the root entry and on every inner table.\<close>

lemma table_at_other_root:
  assumes "rd64 m' (entry_addr p (vidx 0 v)) = rd64 m (entry_addr q (vidx 0 v))"
    and "\<And>j u. 0 < j \<Longrightarrow> j < k \<Longrightarrow> table_at m q v j = Some u \<Longrightarrow>
      rd64 m' (entry_addr u (vidx j v)) = rd64 m (entry_addr u (vidx j v))"
    and "0 < k"
  shows "table_at m' p v k = table_at m q v k"
  using assms(2,3)
proof (induction k)
  case (Suc k)
  show ?case
  proof (cases "k = 0")
    case True
    then show ?thesis using assms(1) by simp
  next
    case False
    with Suc have "table_at m' p v k = table_at m q v k" by simp
    with False Suc.prems(1) [of k] show ?thesis by (auto split: option.splits)
  qed
qed simp

lemma clone_kernel_memory:
  assumes pmm: "pmm_inv (PMM s)" "free_set (PMM s) \<noteq> {}"
    and k: "table_addr k" "unat k div PAGE_SIZE \<notin> free_set (PMM s)"
  defines "f \<equiv> Min (free_set (PMM s))"
  obtains s' where "clone_kernel_address_space k s = (frame_addr f, s')" "table_addr (frame_addr f)"
    "free_set (PMM s') = free_set (PMM s) - {f}" "f \<in> free_set (PMM s)"
    "\<And>j. j < 512 \<Longrightarrow> rd64 (MEM s') (entry_addr (frame_addr f) (of_nat j)) =
       (if 256 \<le> j then rd64 (MEM s) (entry_addr k (of_nat j)) else 0)"
    "\<And>u i. table_addr u \<Longrightarrow> u \<noteq> frame_addr f \<Longrightarrow> unat i < 512 \<Longrightarrow>
       rd64 (MEM s') (entry_addr u i) = rd64 (MEM s) (entry_addr u i)"
proof -
  have mem: "f \<in> free_set (PMM s)" using pmm(2) by (simp add: f_def)
  have f: "0 < f" "f < MAX_FRAMES" using free_set_bounds [OF pmm(1) mem] by simp_all
  have fa: "table_addr (frame_addr f)" using f by (auto simp: table_addr_def)
  have ne: "k \<noteq> frame_addr f" using k(2) mem f frame_addr_frame by auto
  obtain s1 where alloc: "alloc_frame s = (frame_addr f, s1)"
    "MEM s1 = zero_bytes (MEM s) (frame_addr f) 4096" "free_set (PMM s1) = free_set (PMM s) - {f}"
    using alloc_frame_least [OF pmm] by (simp add: f_def)
  let ?s2 = "s1\<lparr>MEM := zero_bytes (MEM s1) (frame_addr f) 4096\<rparr>"
  have m2: "MEM ?s2 = zero_bytes (MEM s) (frame_addr f) 4096" by (simp add: alloc zero_bytes_def fun_eq_iff)
  have clone: "clone_kernel_address_space k s = (frame_addr f, copy_entries k (frame_addr f) 256 512 ?s2)"
    by (simp add: clone_kernel_address_space_def alloc(1) Let_def del: upt_rec_numeral)
  have zero: "rd64 (MEM ?s2) (entry_addr (frame_addr f) (of_nat j)) = 0" if "j < 512" for j
  proof (rule rd64_zero)
    fix b :: nat
    assume "b < 8"
    with that have "unat (of_nat j * 8 + of_nat b :: u64) = j * 8 + b"
      by (simp add: unat_word_ariths unat_of_nat)
    with that \<open>b < 8\<close> show "MEM ?s2 (entry_addr (frame_addr f) (of_nat j) + of_nat b) = 0"
      unfolding m2 by (simp add: zero_bytes_def entry_addr_def add.assoc)
  qed
  have old: "rd64 (MEM ?s2) (entry_addr u i) = rd64 (MEM s) (entry_addr u i)"
    if "table_addr u" "u \<noteq> frame_addr f" "unat i < 512" for u i
    unfolding m2 using that f by (intro rd64_zero_bytes_other slot_in_page_disjoint) auto
  show thesis
  proof (rule that [OF clone fa _ mem])
    show "free_set (PMM (copy_entries k (frame_addr f) 256 512 ?s2)) = free_set (PMM s) - {f}"
      using copy_entries_spec [OF k(1) fa ne, of 512 256 ?s2] alloc(3) by (simp del: upt_rec_numeral)
    show "rd64 (MEM (copy_entries k (frame_addr f) 256 512 ?s2)) (entry_addr (frame_addr f) (of_nat j)) =
       (if 256 \<le> j then rd64 (MEM s) (entry_addr k (of_nat j)) else 0)" if "j < 512" for j
      using copy_entries_spec [OF k(1) fa ne, of 512 256 ?s2] that zero [OF that]
        old [OF k(1) ne, of "of_nat j"] unat_index [OF that]
      by (simp del: upt_rec_numeral)
    show "rd64 (MEM (copy_entries k (frame_addr f) 256 512 ?s2)) (entry_addr u i) = rd64 (MEM s) (entry_addr u i)"
      if "table_addr u" "u \<noteq> frame_addr f" "unat i < 512" for u i
      using trans [OF copy_entries_other_table [OF that(1) fa that(2,3) order.refl] old [OF that]] .
  qed
qed

section \<open>Properties\<close>

text \<open>C5: mapping a page. With three frames free and no 2 MiB page in the way,
  \<^verbatim>\<open>map_page_in\<close> succeeds; afterwards \<^verbatim>\<open>translate_page\<close> gives the mapped frame for every
  address of the page and what it gave before for every other address, the tables are again a
  tree of allocated frames, and no byte outside free frames and tables has changed.\<close>

theorem map_page_in_correct:
  assumes "aspace_inv s pml4" "pmm_inv (PMM s)" "3 \<le> card (free_set (PMM s))"
    and "\<not> huge_at (MEM s) pml4 v"
  shows "\<exists>s'. map_page_in pml4 v phys flags s = Done () s' \<and>
    (\<forall>w. translate_page (MEM s') pml4 w =
       (if same_page v w then Some (phys AND PTE_ADDR_MASK) else translate_page (MEM s) pml4 w)) \<and>
    aspace_inv s' pml4 \<and> pmm_inv (PMM s') \<and>
    (\<forall>a. data_byte s pml4 a \<longrightarrow> MEM s' a = MEM s a)"
  using assms(1,2)
proof (cases rule: map_page_in_cases [where v = v and phys = phys and flags = flags])
  case oom
  with assms(3) show ?thesis by simp
next
  case (huge s')
  with assms(4) show ?thesis by simp
next
  case (ok s')
  then show ?thesis
    using leaf_entry_bits(2) [of phys flags]
    by (intro exI [of _ s']) (auto simp: mapped_def translate_page_leaf)
qed

text \<open>An address space with one empty table, for the witnesses.\<close>

definition aspace_example :: phys where
  "aspace_example = pmm_example\<lparr>MEM := (\<lambda>_. 0)\<rparr>"

lemma aspace_example_table: "table_at (\<lambda>_. 0) pml4 v (Suc k) = None"
proof -
  have "rd64 (\<lambda>_. 0) p = 0" for p by (rule rd64_zero) simp
  then show ?thesis by (simp add: next_table_def split: option.splits)
qed

lemma aspace_example_inv:
  "aspace_inv aspace_example (frame_addr 300)" "pmm_inv (PMM aspace_example)"
  "3 \<le> card (free_set (PMM aspace_example))" "\<not> huge_at (MEM aspace_example) (frame_addr 300) v"
proof -
  have pmm: "PMM aspace_example = PMM pmm_example" by (simp add: aspace_example_def)
  show "pmm_inv (PMM aspace_example)" by (simp add: pmm pmm_example_inv)
  show "3 \<le> card (free_set (PMM aspace_example))" by (simp add: pmm pmm_example_free)
  have "table_at (MEM aspace_example) p w 2 = None" for p w
    using aspace_example_table [of p w 1] by (simp add: aspace_example_def numeral_2_eq_2)
  then show "\<not> huge_at (MEM aspace_example) (frame_addr 300) v" by (simp add: huge_at_def leaf_entry_def)
  have only: "k = 0 \<and> t = frame_addr 300"
    if "table_at (MEM aspace_example) (frame_addr 300) w k = Some t" for w k t
    using that aspace_example_table by (cases k) (auto simp: aspace_example_def)
  have "rd64 (MEM aspace_example) p = 0" for p by (rule rd64_zero) (simp add: aspace_example_def)
  moreover have "table_addr (frame_addr 300)"
    by (auto simp: table_addr_def MAX_FRAMES_def intro: exI [of _ 300])
  ultimately show "aspace_inv aspace_example (frame_addr 300)"
    by (intro aspace_invI) (auto dest!: only simp: pmm pmm_example_free frame_addr_unat MAX_FRAMES_def)
qed

theorem map_page_in_correct_witness:
  "\<exists>s'. map_page_in (frame_addr 300) 0x400000 0x123000
          \<lparr>mf_writable = True, mf_user = True, mf_executable = False\<rparr> aspace_example = Done () s' \<and>
        translate_page (MEM s') (frame_addr 300) 0x400123 = Some 0x123000"
proof -
  have "same_page 0x400000 0x400123"
    by (simp add: same_page_iff vidx_def)
  then show ?thesis
    using map_page_in_correct [OF aspace_example_inv, of "0x400000" "0x123000"
        "\<lparr>mf_writable = True, mf_user = True, mf_executable = False\<rparr>"]
    by (auto simp: pte_bits)
qed

lemma aspace_example_mapped:
  obtains s' :: phys where "aspace_inv s' (frame_addr 300)"
    "leaf_entry (MEM s') (frame_addr 300) 0x400000 = Some (False, 0x8000000000123007)"
  using aspace_example_inv(1,2)
proof (cases rule: map_page_in_cases [where v = "0x400000" and phys = "0x123000" and
      flags = "\<lparr>mf_writable = True, mf_user = True, mf_executable = False\<rparr>"])
  case oom
  with aspace_example_inv(3) show ?thesis by simp
next
  case (huge s')
  with aspace_example_inv(4) show ?thesis by simp
next
  case (ok s')
  then show ?thesis by (intro that [of s']) (simp_all add: mapped_def leaf_flags_def pte_bits)
qed

lemma unmap_page_cases:
  assumes inv: "aspace_inv s pml4"
  obtains (none) "\<nexists>e. leaf_entry (MEM s) pml4 v = Some (False, e)" "unmap_page_in pml4 v s = (None, s)"
  | (page) e s' where "leaf_entry (MEM s) pml4 v = Some (False, e)"
      "unmap_page_in pml4 v s = (Some (e AND PTE_ADDR_MASK), s')"
      "aspace_inv s' pml4" "PMM s' = PMM s" "phys.more s' = phys.more s"
      "\<And>w. leaf_entry (MEM s') pml4 w = (if same_page v w then None else leaf_entry (MEM s) pml4 w)"
      "\<And>w j. j \<le> 3 \<Longrightarrow> table_at (MEM s') pml4 w j = table_at (MEM s) pml4 w j"
proof (cases "table_at (MEM s) pml4 v 3")
  case None
  then have "unmap_page_in pml4 v s = (None, s)" by (simp add: unmap_page_in_def pte_ptr_table_at)
  moreover have "\<nexists>e. leaf_entry (MEM s) pml4 v = Some (False, e)"
    using None by (auto simp: leaf_entry_def Let_def split: option.splits if_splits)
  ultimately show thesis by (rule none [rotated])
next
  case (Some pt)
  let ?e = "rd64 (MEM s) (entry_addr pt (vidx 3 v))"
  let ?s = "s\<lparr>MEM := wr64 (MEM s) (entry_addr pt (vidx 3 v)) 0\<rparr>"
  have leaf: "leaf_entry (MEM s) pml4 v = (if ?e AND PTE_PRESENT = 0 then None else Some (False, ?e))"
    using Some by (auto simp: leaf_entry_def Let_def numeral_3_eq_3 numeral_2_eq_2 next_table_def
        split: option.splits if_splits)
  show thesis
  proof (cases "?e AND PTE_PRESENT = 0")
    case True
    with leaf Some show thesis
      by (intro none) (simp_all add: unmap_page_in_def pte_ptr_table_at Let_def)
  next
    case False
    with leaf Some show thesis
      using pte_write_leaf [OF inv Some, of 0] pte_write_inv [OF inv Some, of 0] pte_write_table_at [OF inv Some]
      by (intro page [of ?e ?s]) (simp_all add: unmap_page_in_def pte_ptr_table_at Let_def)
  qed
qed

text \<open>C22: unmapping a page. \<^verbatim>\<open>unmap_page_in\<close> returns the frame of a mapped 4 KiB page and
  removes exactly that page from the mapping; where there is no such page (also inside a 2 MiB
  page) it returns \<^verbatim>\<open>None\<close> and changes nothing. No frame is freed.\<close>

theorem unmap_page_in_correct:
  assumes inv: "aspace_inv s pml4"
  shows "let (r, s') = unmap_page_in pml4 v s
    in (case leaf_entry (MEM s) pml4 v of
          Some (False, e) \<Rightarrow> r = Some (e AND PTE_ADDR_MASK) \<and> aspace_inv s' pml4 \<and>
            (\<forall>w. leaf_entry (MEM s') pml4 w = (if same_page v w then None else leaf_entry (MEM s) pml4 w))
        | _ \<Rightarrow> r = None \<and> s' = s) \<and> PMM s' = PMM s"
  using inv by (cases rule: unmap_page_cases [where v = v]) (auto split: option.split bool.split)

theorem unmap_page_in_correct_witness:
  "\<exists>s. leaf_entry (MEM s) (frame_addr 300) 0x400000 = Some (False, 0x8000000000123007) \<and>
     fst (unmap_page_in (frame_addr 300) 0x400000 (s :: phys)) = Some 0x123000 \<and>
     leaf_entry (MEM (snd (unmap_page_in (frame_addr 300) 0x400000 s))) (frame_addr 300) 0x400000 = None"
proof (rule aspace_example_mapped)
  fix s :: phys
  assume a: "aspace_inv s (frame_addr 300)"
    "leaf_entry (MEM s) (frame_addr 300) 0x400000 = Some (False, 0x8000000000123007)"
  show ?thesis
    using unmap_page_in_correct [OF a(1), of "0x400000"] a(2)
    by (intro exI [of _ s]) (simp add: split_beta Let_def PTE_ADDR_MASK_def)
qed

text \<open>C23: changing protection. \<^verbatim>\<open>protect_page_in\<close> reports success exactly on a mapped 4 KiB
  page, and then replaces the writable, user and no-execute bits of that page's entry by the
  requested ones, keeping its frame and other bits and the mapping of every other page.\<close>

theorem protect_page_in_correct:
  assumes inv: "aspace_inv s pml4"
  shows "let (r, s') = protect_page_in pml4 v flags s
    in (case leaf_entry (MEM s) pml4 v of
          Some (False, e) \<Rightarrow> r \<and> aspace_inv s' pml4 \<and>
            (\<forall>w. translate_page (MEM s') pml4 w = translate_page (MEM s) pml4 w) \<and>
            (\<forall>w. leaf_entry (MEM s') pml4 w =
               (if same_page v w
                then Some (False, (e AND NOT (PTE_WRITABLE OR PTE_USER OR PTE_NX)) OR leaf_flags flags)
                else leaf_entry (MEM s) pml4 w))
        | _ \<Rightarrow> \<not> r \<and> s' = s) \<and> PMM s' = PMM s"
proof (cases "table_at (MEM s) pml4 v 3")
  case None
  then have "protect_page_in pml4 v flags s = (False, s)"
    by (simp add: protect_page_in_def pte_ptr_table_at)
  moreover have "\<nexists>e. leaf_entry (MEM s) pml4 v = Some (False, e)"
    using None by (auto simp: leaf_entry_def Let_def split: option.splits if_splits)
  ultimately show ?thesis by (auto split: option.split bool.split)
next
  case (Some pt)
  let ?e = "rd64 (MEM s) (entry_addr pt (vidx 3 v))"
  let ?x = "(?e AND NOT (PTE_WRITABLE OR PTE_USER OR PTE_NX)) OR leaf_flags flags"
  have leaf: "leaf_entry (MEM s) pml4 w = (if ?e AND PTE_PRESENT = 0 then None else Some (False, ?e))"
    if "same_page v w" for w
  proof -
    have pre: "\<forall>i<k. vidx i w = vidx i v" if "k \<le> 4" for k
      using that \<open>same_page v w\<close> by (simp add: same_page_def)
    have "table_at (MEM s) pml4 w 3 = Some pt" "vidx 3 w = vidx 3 v"
      using Some table_at_prefix [OF pre [of 3]] pre [of 4] by simp_all
    then show ?thesis
      by (auto simp: leaf_entry_def Let_def numeral_3_eq_3 numeral_2_eq_2 next_table_def
          split: option.splits if_splits)
  qed
  have bits: "?x AND PTE_PRESENT = ?e AND PTE_PRESENT" "?x AND PTE_ADDR_MASK = ?e AND PTE_ADDR_MASK"
    by (simp_all add: bit.conj_disj_distrib2 leaf_flags_def pte_bits and.assoc)
  have tr: "translate_page (MEM s) pml4 w = Some (?e AND PTE_ADDR_MASK)"
    if "same_page v w" "?e AND PTE_PRESENT \<noteq> 0" for w
    using that leaf by (simp add: translate_page_leaf)
  show ?thesis
    using Some pte_write_leaf [OF inv Some, of ?x] pte_write_inv [OF inv Some, of ?x] leaf bits tr
    by (auto simp: protect_page_in_def pte_ptr_table_at Let_def translate_page_leaf)
qed

theorem protect_page_in_correct_witness:
  "\<exists>s. leaf_entry (MEM s) (frame_addr 300) 0x400000 = Some (False, 0x8000000000123007) \<and>
     leaf_entry (MEM (snd (protect_page_in (frame_addr 300) 0x400000
       \<lparr>mf_writable = False, mf_user = True, mf_executable = True\<rparr> (s :: phys)))) (frame_addr 300) 0x400000 =
       Some (False, 0x123005)"
proof (rule aspace_example_mapped)
  fix s :: phys
  assume a: "aspace_inv s (frame_addr 300)"
    "leaf_entry (MEM s) (frame_addr 300) 0x400000 = Some (False, 0x8000000000123007)"
  show ?thesis
    using protect_page_in_correct [OF a(1), of "0x400000"
        "\<lparr>mf_writable = False, mf_user = True, mf_executable = True\<rparr>"] a(2)
    by (intro exI [of _ s]) (simp add: split_beta Let_def leaf_flags_def pte_bits)
qed



end
