(* ===== verification/Heap.thy ===== *)
theory Heap
  imports AddressSpace
begin

text \<open>
  The kernel heap (\<^verbatim>\<open>kernel/src/mem/heap.rs\<close>): a slab allocator with eight size classes
  whose free lists are threaded through the free slots themselves, and whole frames for larger
  requests. Free-list links are virtual addresses in the direct map, so a link \<open>v\<close> is
  followed by reading \<open>MEM\<close> at \<open>v2p v\<close>. Interrupts are off inside both operations, so each
  is one step.
\<close>

section \<open>State and operations\<close>

definition SIZE_CLASSES :: "nat list" where
  "SIZE_CLASSES = [16, 32, 64, 128, 256, 512, 1024, 2048]"

definition MAX_SLABS_PER_CLASS :: nat where
  "MAX_SLABS_PER_CLASS = 64"

record slab_header =
  slab_page :: u64
  free_head :: u64
  free_count :: nat
  capacity :: nat

record heap = phys +
  SLABS :: "slab_header list list"

definition slab_empty :: slab_header where
  "slab_empty = \<lparr>slab_page = 0, free_head = 0, free_count = 0, capacity = 0\<rparr>"

definition is_empty_slot :: "slab_header \<Rightarrow> bool" where
  "is_empty_slot h \<longleftrightarrow> slab_page h = 0"

definition heap_new :: "'a phys_scheme \<Rightarrow> heap" where
  "heap_new s = \<lparr>PMM = PMM s, MEM = MEM s, SLABS = replicate 8 (replicate MAX_SLABS_PER_CLASS slab_empty)\<rparr>"

definition class_for :: "nat \<Rightarrow> nat option" where
  "class_for sz = position (\<lambda>s. sz \<le> s) SIZE_CLASSES"

definition set_slab :: "nat \<Rightarrow> nat \<Rightarrow> slab_header \<Rightarrow> heap \<Rightarrow> heap" where
  "set_slab ci j h s = s\<lparr>SLABS := (SLABS s)[ci := (SLABS s ! ci)[j := h]]\<rparr>"

text \<open>The loop of \<^verbatim>\<open>new_slab\<close> that threads the free list, from the last slot to the first.\<close>

definition thread_slots :: "u64 \<Rightarrow> nat \<Rightarrow> nat \<Rightarrow> memory \<Rightarrow> u64 \<times> memory" where
  "thread_slots page slot_size cap m =
     fold (\<lambda>i (prev, m). (p2v (page + of_nat (i * slot_size)), wr64 m (page + of_nat (i * slot_size)) prev))
       (rev [0..<cap]) (0, m)"

definition new_slab :: "nat \<Rightarrow> heap \<Rightarrow> nat option \<times> heap" where
  "new_slab class_idx s =
     (let slot_size = SIZE_CLASSES ! class_idx
      in case position is_empty_slot (SLABS s ! class_idx) of
           None \<Rightarrow> (None, s)
         | Some j \<Rightarrow>
             let (page, s1) = alloc_frame s
             in if page = 0 then (None, s1)
                else let cap = PAGE_SIZE div slot_size;
                         (prev, m) = thread_slots page slot_size cap (MEM s1)
                     in (Some j, set_slab class_idx j
                           \<lparr>slab_page = page, free_head = prev, free_count = cap, capacity = cap\<rparr>
                           (s1\<lparr>MEM := m\<rparr>)))"

definition layout_size :: "nat \<Rightarrow> nat \<Rightarrow> nat" where
  "layout_size sz algn = max (max sz algn) 8"

definition take_slot :: "nat \<Rightarrow> nat \<Rightarrow> heap \<Rightarrow> u64 \<times> heap" where
  "take_slot ci j s =
     (let slab = SLABS s ! ci ! j;
          slot = free_head slab;
          slab' = slab\<lparr>free_head := rd64 (MEM s) (v2p slot), free_count := free_count slab - 1\<rparr>
      in (slot, (set_slab ci j slab' s)\<lparr>MEM := zero_bytes (MEM s) (v2p slot) (SIZE_CLASSES ! ci)\<rparr>))"

definition heap_alloc :: "nat \<Rightarrow> nat \<Rightarrow> heap \<Rightarrow> u64 \<times> heap" where
  "heap_alloc lsize lalign s =
     (let sz = layout_size lsize lalign
      in case class_for sz of
           Some ci \<Rightarrow>
             (case position (\<lambda>h. \<not> is_empty_slot h \<and> free_count h > 0) (SLABS s ! ci) of
                Some j \<Rightarrow> take_slot ci j s
              | None \<Rightarrow>
                  (case new_slab ci s of
                     (Some j, s1) \<Rightarrow> take_slot ci j s1
                   | (None, s1) \<Rightarrow> (0, s1)))
         | None \<Rightarrow>
             let pages_needed = (sz + PAGE_SIZE - 1) div PAGE_SIZE;
                 (first, s1) = alloc_frames pages_needed s
             in if first = 0 then (0, s1) else (p2v first, s1))"

definition heap_dealloc :: "u64 \<Rightarrow> nat \<Rightarrow> nat \<Rightarrow> heap \<Rightarrow> heap" where
  "heap_dealloc ptr lsize lalign s =
     (if ptr = 0 then s
      else let sz = layout_size lsize lalign
           in case class_for sz of
                Some ci \<Rightarrow>
                  let addr_phys = v2p ptr
                  in (case position (\<lambda>h. \<not> is_empty_slot h \<and> addr_phys \<ge> slab_page h \<and>
                                   addr_phys < slab_page h + of_nat PAGE_SIZE) (SLABS s ! ci) of
                        Some j \<Rightarrow>
                          let slab = SLABS s ! ci ! j;
                              s1 = s\<lparr>MEM := wr64 (MEM s) addr_phys (free_head slab)\<rparr>;
                              slab' = slab\<lparr>free_head := ptr, free_count := free_count slab + 1\<rparr>
                          in if free_count slab' = capacity slab'
                             then set_slab ci j slab_empty (free_frame (slab_page slab') s1)
                             else set_slab ci j slab' s1
                      | None \<Rightarrow> s)
              | None \<Rightarrow>
                  let pages_needed = (sz + PAGE_SIZE - 1) div PAGE_SIZE; addr_phys = v2p ptr
                  in fold (\<lambda>i. free_frame (addr_phys + of_nat (i * PAGE_SIZE))) [0..<pages_needed] s)"

section \<open>Size classes\<close>

lemma size_class:
  assumes "ci < 8"
  shows "16 \<le> SIZE_CLASSES ! ci" "SIZE_CLASSES ! ci \<le> 2048"
    "4096 div (SIZE_CLASSES ! ci) * (SIZE_CLASSES ! ci) = 4096" "0 < 4096 div (SIZE_CLASSES ! ci)"
proof -
  have "list_all (\<lambda>s. 16 \<le> s \<and> s \<le> 2048 \<and> 4096 div s * s = 4096 \<and> 0 < 4096 div s) SIZE_CLASSES"
    by (simp add: SIZE_CLASSES_def)
  moreover have "length SIZE_CLASSES = 8" by (simp add: SIZE_CLASSES_def)
  ultimately show "16 \<le> SIZE_CLASSES ! ci" "SIZE_CLASSES ! ci \<le> 2048"
    "4096 div (SIZE_CLASSES ! ci) * (SIZE_CLASSES ! ci) = 4096" "0 < 4096 div (SIZE_CLASSES ! ci)"
    using assms by (auto simp: list_all_length)
qed

lemma class_for_SomeD:
  assumes "class_for sz = Some ci"
  shows "ci < 8" "sz \<le> SIZE_CLASSES ! ci"
  using position_SomeD [OF assms [unfolded class_for_def]] by (simp_all add: SIZE_CLASSES_def)

lemma class_for_None_iff: "class_for sz = None \<longleftrightarrow> 2048 < sz"
  by (auto simp: class_for_def position_None_iff SIZE_CLASSES_def)

section \<open>Slots\<close>

definition slot_addr :: "nat \<Rightarrow> nat \<Rightarrow> nat \<Rightarrow> u64" where
  "slot_addr f sz i = frame_addr f + of_nat (i * sz)"

lemma slot_addr_unat:
  assumes "f < MAX_FRAMES" "i * sz < 4096"
  shows "unat (slot_addr f sz i) = f * 4096 + i * sz"
  using assms by (simp add: slot_addr_def unat_word_ariths frame_addr_unat unat_of_nat MAX_FRAMES_def
      del: of_nat_mult)

lemma v2p_p2v:
  assumes "unat a < 2 ^ 47"
  shows "v2p (p2v a) = a"
proof -
  have "unat (p2v a) = unat a + unat PHYSICAL_OFFSET"
    using assms by (simp add: p2v_def unat_word_ariths PHYSICAL_OFFSET_def)
  then have "PHYSICAL_OFFSET \<le> p2v a" by (simp add: word_le_nat_alt)
  then show ?thesis by (simp add: v2p_def p2v_def)
qed

lemma p2v_nonzero:
  assumes "unat a < 2 ^ 47"
  shows "p2v a \<noteq> 0"
proof
  assume "p2v a = 0"
  moreover have "unat (p2v a) = unat a + unat PHYSICAL_OFFSET"
    using assms by (simp add: p2v_def unat_word_ariths PHYSICAL_OFFSET_def)
  ultimately show False by (simp add: PHYSICAL_OFFSET_def)
qed

lemma slot_index: "sz * (4096 div sz) = 4096 \<Longrightarrow> i < 4096 div sz \<Longrightarrow> i * sz + sz \<le> (4096::nat)"
proof -
  assume "sz * (4096 div sz) = 4096" "i < 4096 div sz"
  then have "Suc i * sz \<le> 4096 div sz * sz" by (intro mult_le_mono1) simp
  with \<open>sz * (4096 div sz) = 4096\<close> show ?thesis by (simp add: mult.commute)
qed

text \<open>A slot of a slab page: frame \<open>f\<close>, class size \<open>sz\<close>, index \<open>i\<close>.\<close>

definition slot_ok :: "nat \<Rightarrow> nat \<Rightarrow> nat \<Rightarrow> bool" where
  "slot_ok f sz i \<longleftrightarrow> f < MAX_FRAMES \<and> 16 \<le> sz \<and> i * sz + sz \<le> 4096"

lemma slot_ok_unat: "slot_ok f sz i \<Longrightarrow> unat (slot_addr f sz i) = f * 4096 + i * sz"
  by (simp add: slot_ok_def slot_addr_unat)

lemma slot_ok_phys: "slot_ok f sz i \<Longrightarrow> unat (slot_addr f sz i) < 2 ^ 47"
  by (simp add: slot_ok_unat) (simp add: slot_ok_def MAX_FRAMES_def)

lemma slots_apart:
  assumes "slot_ok f sz i" "slot_ok g tz j" "f \<noteq> g \<or> sz = tz \<and> i \<noteq> j" "n \<le> sz" "k \<le> tz"
  shows "disjoint_win (slot_addr f sz i) n (slot_addr g tz j) k"
proof (rule disjoint_winI)
  note u = slot_ok_unat [OF assms(1)] slot_ok_unat [OF assms(2)]
  have b: "i * sz + sz \<le> 4096" "j * tz + tz \<le> 4096" "f < MAX_FRAMES" "g < MAX_FRAMES"
    using assms(1,2) by (simp_all add: slot_ok_def)
  show "unat (slot_addr f sz i) + n \<le> 2 ^ 64" "unat (slot_addr g tz j) + k \<le> 2 ^ 64"
    using u b assms(4,5) by (simp_all add: MAX_FRAMES_def)
  consider "f + 1 \<le> g" | "g + 1 \<le> f" | "f = g" "sz = tz" "i + 1 \<le> j" | "f = g" "sz = tz" "j + 1 \<le> i"
    using assms(3) by (cases f g rule: linorder_cases; cases i j rule: linorder_cases) auto
  then show "unat (slot_addr f sz i) + n \<le> unat (slot_addr g tz j) \<or>
      unat (slot_addr g tz j) + k \<le> unat (slot_addr f sz i)"
  proof cases
    case 3
    have "(i + 1) * sz \<le> j * sz" using 3(3) by (rule mult_le_mono1)
    with 3 u assms(4) show ?thesis by simp
  next
    case 4
    have "(j + 1) * sz \<le> i * sz" using 4(3) by (rule mult_le_mono1)
    with 4 u assms(5) show ?thesis by simp
  qed (use u b assms(4,5) in linarith)+
qed

section \<open>Free lists\<close>

primrec chain :: "memory \<Rightarrow> nat \<Rightarrow> nat \<Rightarrow> u64 \<Rightarrow> nat list \<Rightarrow> bool" where
  "chain m f sz h [] \<longleftrightarrow> h = 0"
| "chain m f sz h (i # is) \<longleftrightarrow>
     h = p2v (slot_addr f sz i) \<and> chain m f sz (rd64 m (slot_addr f sz i)) is"

lemma chain_cong:
  "(\<And>i. i \<in> set is \<Longrightarrow> rd64 m' (slot_addr f sz i) = rd64 m (slot_addr f sz i)) \<Longrightarrow>
   chain m' f sz h is = chain m f sz h is"
  by (induction "is" arbitrary: h) simp_all

lemma thread_slots_Suc:
  "fold F (rev [0..<Suc n]) x = fold F (rev [0..<n]) (F n x)"
  by simp

lemma thread_slots_chain:
  assumes "\<And>i. i < cap \<Longrightarrow> slot_ok f sz i" "n \<le> cap"
    and "chain m f sz h [n..<cap]"
  shows "let (h', m') = fold (\<lambda>i (prev, m). (p2v (slot_addr f sz i), wr64 m (slot_addr f sz i) prev))
                          (rev [0..<n]) (h, m)
    in chain m' f sz h' [0..<cap] \<and>
       (\<forall>x. (\<forall>i<cap. 8 \<le> unat (x - slot_addr f sz i)) \<longrightarrow> m' x = m x)"
  using assms(2,3)
proof (induction n arbitrary: h m)
  case 0
  then show ?case by simp
next
  case (Suc n)
  let ?a = "slot_addr f sz n" and ?m = "wr64 m (slot_addr f sz n) h"
  have ok: "slot_ok f sz n" using assms(1) Suc.prems(1) by simp
  have "chain ?m f sz h [Suc n..<cap]"
  proof (subst chain_cong)
    fix i
    assume "i \<in> set [Suc n..<cap]"
    then have i: "i < cap" "n \<noteq> i" by auto
    then show "rd64 ?m (slot_addr f sz i) = rd64 m (slot_addr f sz i)"
      using ok assms(1) [OF i(1)] by (intro rd64_wr64_other slots_apart) (auto simp: slot_ok_def)
  qed (rule Suc.prems(2))
  moreover have "[n..<cap] = n # [Suc n..<cap]" using Suc.prems(1) by (simp add: upt_conv_Cons)
  ultimately have c: "chain ?m f sz (p2v ?a) [n..<cap]" by simp
  have "?m x = m x" if "\<forall>i<cap. 8 \<le> unat (x - slot_addr f sz i)" for x
  proof -
    have "8 \<le> unat (x - ?a)" using that Suc.prems(1) by (simp add: Suc_le_eq)
    then show ?thesis by (simp add: wr64_def wr_bytes_apply)
  qed
  with Suc.IH [OF _ c] Suc.prems(1) show ?case by (simp add: thread_slots_Suc split_beta Let_def)
qed

section \<open>Representation invariant\<close>

text \<open>
  \<open>heap_rep s fl\<close>: every slab that is in use owns an allocated frame of its own, and its
  free list, threaded through memory, visits exactly the slots \<open>fl ci j\<close>, each once.
\<close>

definition slab_frame :: "slab_header \<Rightarrow> nat" where
  "slab_frame h = unat (slab_page h) div PAGE_SIZE"

definition slab_rep :: "'a phys_scheme \<Rightarrow> nat \<Rightarrow> slab_header \<Rightarrow> nat list \<Rightarrow> bool" where
  "slab_rep s sz h is \<longleftrightarrow>
     0 < slab_frame h \<and> slab_frame h < MAX_FRAMES \<and> slab_page h = frame_addr (slab_frame h) \<and>
     slab_frame h \<notin> free_set (PMM s) \<and> capacity h = 4096 div sz \<and> free_count h = length is \<and>
     distinct is \<and> set is \<subseteq> {..<4096 div sz} \<and> chain (MEM s) (slab_frame h) sz (free_head h) is"

abbreviation slab_at :: "heap \<Rightarrow> nat \<Rightarrow> nat \<Rightarrow> slab_header" where
  "slab_at s ci j \<equiv> SLABS s ! ci ! j"

definition heap_rep :: "heap \<Rightarrow> (nat \<Rightarrow> nat \<Rightarrow> nat list) \<Rightarrow> bool" where
  "heap_rep s fl \<longleftrightarrow>
     pmm_inv (PMM s) \<and> length (SLABS s) = 8 \<and> (\<forall>ci<8. length (SLABS s ! ci) = MAX_SLABS_PER_CLASS) \<and>
     (\<forall>ci<8. \<forall>j<MAX_SLABS_PER_CLASS. slab_page (slab_at s ci j) \<noteq> 0 \<longrightarrow>
        slab_rep s (SIZE_CLASSES ! ci) (slab_at s ci j) (fl ci j)) \<and>
     (\<forall>ci<8. \<forall>j<MAX_SLABS_PER_CLASS. \<forall>ci'<8. \<forall>j'<MAX_SLABS_PER_CLASS.
        slab_page (slab_at s ci j) \<noteq> 0 \<longrightarrow> slab_page (slab_at s ci j) = slab_page (slab_at s ci' j') \<longrightarrow>
        ci = ci' \<and> j = j')"

lemma heap_repD:
  assumes "heap_rep s fl"
  shows "pmm_inv (PMM s)" "length (SLABS s) = 8" "ci < 8 \<Longrightarrow> length (SLABS s ! ci) = MAX_SLABS_PER_CLASS"
    "ci < 8 \<Longrightarrow> j < MAX_SLABS_PER_CLASS \<Longrightarrow> slab_page (slab_at s ci j) \<noteq> 0 \<Longrightarrow>
       slab_rep s (SIZE_CLASSES ! ci) (slab_at s ci j) (fl ci j)"
    "ci < 8 \<Longrightarrow> j < MAX_SLABS_PER_CLASS \<Longrightarrow> ci' < 8 \<Longrightarrow> j' < MAX_SLABS_PER_CLASS \<Longrightarrow>
       slab_page (slab_at s ci j) \<noteq> 0 \<Longrightarrow> slab_page (slab_at s ci j) = slab_page (slab_at s ci' j') \<Longrightarrow>
       ci = ci' \<and> j = j'"
  using assms unfolding heap_rep_def by blast+

lemma set_slab_at:
  assumes "length (SLABS s) = 8" "length (SLABS s ! ci) = MAX_SLABS_PER_CLASS"
    "ci < 8" "j < MAX_SLABS_PER_CLASS" "ci' < 8"
  shows "slab_at (set_slab ci j h s) ci' j' = (if ci' = ci \<and> j' = j then h else slab_at s ci' j')"
  using assms by (simp add: set_slab_def nth_list_update)

lemma set_slab_frame [simp]:
  "PMM (set_slab ci j h s) = PMM s" "MEM (set_slab ci j h s) = MEM s"
  "length (SLABS (set_slab ci j h s)) = length (SLABS s)"
  by (simp_all add: set_slab_def)

lemma set_slab_length [simp]: "length (SLABS (set_slab ci j h s) ! ci') = length (SLABS s ! ci')"
  by (cases "ci < length (SLABS s)") (simp_all add: set_slab_def nth_list_update list_update_beyond not_less)

lemma slab_rep_slot_ok:
  "slab_rep s (SIZE_CLASSES ! ci) h is \<Longrightarrow> ci < 8 \<Longrightarrow> i < 4096 div (SIZE_CLASSES ! ci) \<Longrightarrow>
   slot_ok (slab_frame h) (SIZE_CLASSES ! ci) i"
  using size_class [of ci] slot_index [of "SIZE_CLASSES ! ci" i]
  by (simp add: slab_rep_def slot_ok_def mult.commute)

text \<open>A slab keeps its free list when memory changes only outside its page.\<close>

lemma slab_rep_other:
  assumes "slab_rep s sz h is" "slab_frame h \<notin> free_set (PMM s')"
    and "\<And>i. i \<in> set is \<Longrightarrow> rd64 (MEM s') (slot_addr (slab_frame h) sz i) = rd64 (MEM s) (slot_addr (slab_frame h) sz i)"
  shows "slab_rep s' sz h is"
  using assms(1,2) chain_cong [OF assms(3)] by (simp add: slab_rep_def)

text \<open>Replacing one slab, with memory changed only inside its page.\<close>

lemma heap_rep_update:
  assumes rep: "heap_rep s fl" and ci: "ci < 8" "j < MAX_SLABS_PER_CLASS"
    and pmm: "pmm_inv (PMM s')" and slabs: "SLABS s' = SLABS (set_slab ci j h s)"
    and new: "slab_page h \<noteq> 0 \<Longrightarrow> slab_rep s' (SIZE_CLASSES ! ci) h is"
    and own: "\<And>ci' j'. ci' < 8 \<Longrightarrow> j' < MAX_SLABS_PER_CLASS \<Longrightarrow> (ci', j') \<noteq> (ci, j) \<Longrightarrow>
      slab_page (slab_at s ci' j') \<noteq> 0 \<Longrightarrow>
      slab_page h \<noteq> slab_page (slab_at s ci' j') \<and>
      slab_rep s' (SIZE_CLASSES ! ci') (slab_at s ci' j') (fl ci' j')"
  shows "heap_rep s' (fl(ci := (fl ci)(j := is)))"
proof -
  note len = heap_repD(2) [OF rep] heap_repD(3) [OF rep ci(1)]
  have at: "slab_at s' ci' j' = (if ci' = ci \<and> j' = j then h else slab_at s ci' j')" if "ci' < 8" for ci' j'
    unfolding slabs using set_slab_at [OF len ci that] .
  show ?thesis
    unfolding heap_rep_def
  proof (intro conjI allI impI)
    fix c i
    assume a: "c < 8" "i < MAX_SLABS_PER_CLASS" "slab_page (slab_at s' c i) \<noteq> 0"
    show "slab_rep s' (SIZE_CLASSES ! c) (slab_at s' c i) ((fl(ci := (fl ci)(j := is))) c i)"
    proof (cases "(c, i) = (ci, j)")
      case True
      with a at [OF a(1), of i] new show ?thesis by simp
    next
      case False
      then have "slab_at s' c i = slab_at s c i" "(fl(ci := (fl ci)(j := is))) c i = fl c i"
        using at [OF a(1), of i] by auto
      with own [OF a(1,2) False] a(3) show ?thesis by simp
    qed
  next
    fix c i c' i'
    assume a: "c < 8" "i < MAX_SLABS_PER_CLASS" "c' < 8" "i' < MAX_SLABS_PER_CLASS"
      "slab_page (slab_at s' c i) \<noteq> 0" "slab_page (slab_at s' c i) = slab_page (slab_at s' c' i')"
    have "(c, i) = (c', i')"
    proof (cases "(c, i) = (ci, j) \<or> (c', i') = (ci, j)")
      case True
      show ?thesis
      proof (rule ccontr)
        assume ne: "(c, i) \<noteq> (c', i')"
        then consider "(c, i) = (ci, j)" "(c', i') \<noteq> (ci, j)" | "(c', i') = (ci, j)" "(c, i) \<noteq> (ci, j)"
          using True by auto
        then show False
        proof cases
          case 1
          have "slab_at s' c i = h" "slab_at s' c' i' = slab_at s c' i'"
            using 1 at [OF a(1), of i] at [OF a(3), of i'] by auto
          then have "slab_page h = slab_page (slab_at s c' i')" "slab_page (slab_at s c' i') \<noteq> 0"
            using a(5,6) by simp_all
          with own [OF a(3,4) 1(2)] show False by simp
        next
          case 2
          have "slab_at s' c' i' = h" "slab_at s' c i = slab_at s c i"
            using 2 at [OF a(1), of i] at [OF a(3), of i'] by auto
          then have "slab_page h = slab_page (slab_at s c i)" "slab_page (slab_at s c i) \<noteq> 0"
            using a(5,6) by simp_all
          with own [OF a(1,2) 2(2)] show False by simp
        qed
      qed
    next
      case False
      then have "slab_at s' c i = slab_at s c i" "slab_at s' c' i' = slab_at s c' i'"
        using at [OF a(1), of i] at [OF a(3), of i'] by auto
      then show ?thesis using heap_repD(5) [OF rep a(1-4)] a(5,6) by simp
    qed
    then show "c = c'" "i = i'" by simp_all
  qed (simp_all add: pmm slabs len(1) heap_repD(3) [OF rep])
qed

section \<open>Taking a slot\<close>

text \<open>A slot that is handed out: its physical address, its class and the slab it is in.\<close>

lemma take_slot_spec:
  assumes rep: "heap_rep s fl" and ci: "ci < 8" "j < MAX_SLABS_PER_CLASS"
    and used: "slab_page (slab_at s ci j) \<noteq> 0" "free_count (slab_at s ci j) > 0"
  defines "sz \<equiv> SIZE_CLASSES ! ci" and "f \<equiv> slab_frame (slab_at s ci j)"
  obtains i "is" s' where "fl ci j = i # is" "take_slot ci j s = (p2v (slot_addr f sz i), s')"
    "slot_ok f sz i" "heap_rep s' (fl(ci := (fl ci)(j := is)))" "i \<notin> set is"
    "\<And>b. b < sz \<Longrightarrow> MEM s' (slot_addr f sz i + of_nat b) = 0"
    "PMM s' = PMM s" "\<And>ci' j'. ci' < 8 \<Longrightarrow> slab_page (slab_at s' ci' j') = slab_page (slab_at s ci' j')"
proof -
  let ?h = "slab_at s ci j"
  have r: "slab_rep s sz ?h (fl ci j)" using heap_repD(4) [OF rep ci used(1)] by (simp add: sz_def)
  then have "length (fl ci j) > 0" using used(2) by (simp add: slab_rep_def)
  then obtain i "is" where fl: "fl ci j = i # is" by (cases "fl ci j") auto
  have i: "i < 4096 div sz" "i \<notin> set is" "distinct is" "set is \<subseteq> {..<4096 div sz}"
    using r by (auto simp: slab_rep_def fl)
  have ok: "slot_ok f sz k" if "k < 4096 div sz" for k
    using slab_rep_slot_ok [of s ci ?h "fl ci j" k] r ci(1) that by (simp add: sz_def f_def)
  have head: "free_head ?h = p2v (slot_addr f sz i)" "chain (MEM s) f sz (rd64 (MEM s) (slot_addr f sz i)) is"
    using r by (simp_all add: slab_rep_def fl f_def)
  let ?a = "slot_addr f sz i"
  have v: "v2p (p2v ?a) = ?a" using slot_ok_phys [OF ok [OF i(1)]] by (rule v2p_p2v)
  define h' where "h' = ?h\<lparr>free_head := rd64 (MEM s) ?a, free_count := free_count ?h - 1\<rparr>"
  define s' where "s' = (set_slab ci j h' s)\<lparr>MEM := zero_bytes (MEM s) ?a sz\<rparr>"
  have take: "take_slot ci j s = (p2v ?a, s')"
    unfolding take_slot_def Let_def head(1) v s'_def h'_def by (simp add: sz_def)
  have sz16: "16 \<le> sz" using size_class(1) [OF ci(1)] by (simp add: sz_def)
  have rd: "rd64 (MEM s') (slot_addr g tz k) = rd64 (MEM s) (slot_addr g tz k)"
    if "slot_ok g tz k" "f \<noteq> g \<or> sz = tz \<and> i \<noteq> k" for g tz k
    unfolding s'_def using that ok [OF i(1)]
    by (simp, intro rd64_zero_bytes_other slots_apart) (auto simp: slot_ok_def)
  have new: "slab_rep s' sz h' is"
  proof -
    have "slab_rep s sz h' is"
      using r i head(2) by (simp add: slab_rep_def fl h'_def slab_frame_def f_def)
    then show ?thesis
    proof (rule slab_rep_other)
      show "slab_frame h' \<notin> free_set (PMM s')" using r by (simp add: s'_def h'_def slab_frame_def slab_rep_def)
      show "rd64 (MEM s') (slot_addr (slab_frame h') sz k) = rd64 (MEM s) (slot_addr (slab_frame h') sz k)"
        if "k \<in> set is" for k
        using that i rd [OF ok, of k] by (auto simp: h'_def slab_frame_def f_def)
    qed
  qed
  have rep': "heap_rep s' (fl(ci := (fl ci)(j := is)))"
  proof (rule heap_rep_update [OF rep ci])
    show "pmm_inv (PMM s')" using heap_repD(1) [OF rep] by (simp add: s'_def)
    show "SLABS s' = SLABS (set_slab ci j h' s)" by (simp add: s'_def)
    show "slab_rep s' (SIZE_CLASSES ! ci) h' is" using new by (simp add: sz_def)
    fix ci' j'
    assume o: "ci' < 8" "j' < MAX_SLABS_PER_CLASS" "(ci', j') \<noteq> (ci, j)" "slab_page (slab_at s ci' j') \<noteq> 0"
    note r' = heap_repD(4) [OF rep o(1,2,4)]
    have ne: "slab_page ?h \<noteq> slab_page (slab_at s ci' j')"
      using heap_repD(5) [OF rep ci o(1,2) used(1)] o(3) by auto
    then have "f \<noteq> slab_frame (slab_at s ci' j')" using r r' by (auto simp: f_def slab_rep_def)
    then have "slab_rep s' (SIZE_CLASSES ! ci') (slab_at s ci' j') (fl ci' j')"
      using r' rd slab_rep_slot_ok [OF r' o(1)]
      by (intro slab_rep_other [OF r']) (auto simp: s'_def slab_rep_def)
    with ne show "slab_page h' \<noteq> slab_page (slab_at s ci' j') \<and>
        slab_rep s' (SIZE_CLASSES ! ci') (slab_at s ci' j') (fl ci' j')"
      by (simp add: h'_def)
  qed
  have "MEM s' (?a + of_nat b) = 0" if "b < sz" for b
    using that size_class(2) [OF ci(1)] by (simp add: s'_def zero_bytes_def unat_of_nat sz_def)
  moreover have "slab_page (slab_at s' ci' j') = slab_page (slab_at s ci' j')" if "ci' < 8" for ci' j'
    using set_slab_at [OF heap_repD(2) [OF rep] heap_repD(3) [OF rep ci(1)] ci that, of h' j']
    by (simp add: s'_def h'_def)
  ultimately show thesis
    using that [OF fl take ok [OF i(1)] rep' i(2)] by (simp add: s'_def)
qed

section \<open>Unallocated memory\<close>

definition slot_bytes :: "nat \<Rightarrow> nat \<Rightarrow> nat \<Rightarrow> u64 set" where
  "slot_bytes f sz i = {x. unat (x - slot_addr f sz i) < sz}"

text \<open>The bytes nobody owns: those of free frames and of the slots on the free lists.\<close>

definition free_slot_bytes :: "heap \<Rightarrow> (nat \<Rightarrow> nat \<Rightarrow> nat list) \<Rightarrow> u64 set" where
  "free_slot_bytes s fl =
     {x. \<exists>ci<8. \<exists>j<MAX_SLABS_PER_CLASS. slab_page (slab_at s ci j) \<noteq> 0 \<and>
        (\<exists>i\<in>set (fl ci j). x \<in> slot_bytes (slab_frame (slab_at s ci j)) (SIZE_CLASSES ! ci) i)}"

definition unalloc :: "heap \<Rightarrow> (nat \<Rightarrow> nat \<Rightarrow> nat list) \<Rightarrow> u64 set" where
  "unalloc s fl = {x. unat x div PAGE_SIZE \<in> free_set (PMM s)} \<union> free_slot_bytes s fl"

lemma slot_bytes_iff:
  assumes "slot_ok f sz i"
  shows "x \<in> slot_bytes f sz i \<longleftrightarrow> f * 4096 + i * sz \<le> unat x \<and> unat x < f * 4096 + i * sz + sz"
proof -
  note u = slot_ok_unat [OF assms]
  show ?thesis
  proof
    assume "x \<in> slot_bytes f sz i"
    then obtain b where b: "b < sz" "x = slot_addr f sz i + of_nat b"
      using in_win_iff [of x "slot_addr f sz i" sz] by (auto simp: slot_bytes_def)
    then have "unat x = f * 4096 + i * sz + b"
      using assms u by (simp add: slot_ok_def unat_word_ariths unat_of_nat MAX_FRAMES_def)
    with b(1) show "f * 4096 + i * sz \<le> unat x \<and> unat x < f * 4096 + i * sz + sz" by simp
  next
    assume a: "f * 4096 + i * sz \<le> unat x \<and> unat x < f * 4096 + i * sz + sz"
    then have "unat (x - slot_addr f sz i) = unat x - (f * 4096 + i * sz)"
      using u by (simp add: unat_sub word_le_nat_alt)
    moreover have "unat x - (f * 4096 + i * sz) < sz" using a by linarith
    ultimately show "x \<in> slot_bytes f sz i" by (simp add: slot_bytes_def)
  qed
qed

lemma slot_bytes_frame: "slot_ok f sz i \<Longrightarrow> x \<in> slot_bytes f sz i \<Longrightarrow> unat x div PAGE_SIZE = f"
  by (rule div_nat_eqI) (simp_all add: slot_bytes_iff slot_ok_def)

lemma slot_bytes_same:
  assumes "slot_ok f sz i" "slot_ok f sz k" "x \<in> slot_bytes f sz i" "x \<in> slot_bytes f sz k"
  shows "i = k"
proof (rule ccontr)
  assume "i \<noteq> k"
  then consider "i + 1 \<le> k" | "k + 1 \<le> i" by linarith
  then show False
  proof cases
    case 1
    then have "(i + 1) * sz \<le> k * sz" by (rule mult_le_mono1)
    then show False using assms by (simp add: slot_bytes_iff)
  next
    case 2
    then have "(k + 1) * sz \<le> i * sz" by (rule mult_le_mono1)
    then show False using assms by (simp add: slot_bytes_iff)
  qed
qed

lemma slots_cover_frame:
  assumes "\<And>i. i < n \<Longrightarrow> slot_ok f sz i" "n * sz = 4096" "0 < sz" "unat x div PAGE_SIZE = f"
  shows "\<exists>i<n. x \<in> slot_bytes f sz i"
proof -
  let ?b = "unat x mod 4096"
  have x: "unat x = f * 4096 + ?b" by (metis PAGE_SIZE_def assms(4) div_mult_mod_eq)
  have "?b < n * sz" using assms(2) by simp
  then have "?b div sz < n" by (simp add: less_mult_imp_div_less)
  moreover have "x \<in> slot_bytes f sz (?b div sz)"
  proof -
    have "?b div sz * sz \<le> ?b" by simp
    moreover have "?b < ?b div sz * sz + sz" using dividend_less_div_times [OF assms(3), of ?b] by (simp add: add.commute)
    ultimately show ?thesis
      unfolding slot_bytes_iff [OF assms(1) [OF \<open>?b div sz < n\<close>]] using x by linarith
  qed
  ultimately show ?thesis by blast
qed

lemma unalloc_slot_iff:
  assumes rep: "heap_rep s fl" and ci: "ci < 8" "j < MAX_SLABS_PER_CLASS" "slab_page (slab_at s ci j) \<noteq> 0"
    and i: "i < 4096 div (SIZE_CLASSES ! ci)"
    and x: "x \<in> slot_bytes (slab_frame (slab_at s ci j)) (SIZE_CLASSES ! ci) i"
  shows "x \<in> unalloc s fl \<longleftrightarrow> i \<in> set (fl ci j)"
proof
  note r = heap_repD(4) [OF rep ci]
  note ok = slab_rep_slot_ok [OF r ci(1)]
  have frame: "unat x div PAGE_SIZE = slab_frame (slab_at s ci j)"
    using slot_bytes_frame [OF ok [OF i] x] .
  assume "x \<in> unalloc s fl"
  moreover have "unat x div PAGE_SIZE \<notin> free_set (PMM s)" unfolding frame using r by (simp add: slab_rep_def)
  ultimately obtain ci' j' k where o: "ci' < 8" "j' < MAX_SLABS_PER_CLASS" "slab_page (slab_at s ci' j') \<noteq> 0"
    "k \<in> set (fl ci' j')" "x \<in> slot_bytes (slab_frame (slab_at s ci' j')) (SIZE_CLASSES ! ci') k"
    by (auto simp: unalloc_def free_slot_bytes_def)
  note r' = heap_repD(4) [OF rep o(1-3)]
  have k: "k < 4096 div (SIZE_CLASSES ! ci')" using r' o(4) by (auto simp: slab_rep_def)
  note ok' = slab_rep_slot_ok [OF r' o(1) k]
  have "slab_frame (slab_at s ci' j') = slab_frame (slab_at s ci j)"
    using slot_bytes_frame [OF ok' o(5)] frame by simp
  then have "slab_page (slab_at s ci' j') = slab_page (slab_at s ci j)"
    using r r' by (simp add: slab_rep_def)
  then have eq: "ci' = ci" "j' = j" using heap_repD(5) [OF rep o(1,2) ci(1,2) o(3)] by simp_all
  with o(5) ok' x ok [OF i] have "k = i" by (auto intro: slot_bytes_same)
  with o(4) eq show "i \<in> set (fl ci j)" by simp
next
  assume "i \<in> set (fl ci j)"
  with ci x show "x \<in> unalloc s fl" by (auto simp: unalloc_def free_slot_bytes_def)
qed

text \<open>
  Two heaps that differ in one slab have the same unallocated bytes outside that slab's page
  when the allocator's free frames agree there.
\<close>

lemma unalloc_other_frame:
  assumes rep: "heap_rep s fl" "heap_rep s' (fl(ci := (fl ci)(j := is)))"
    and ci: "ci < 8" "j < MAX_SLABS_PER_CLASS"
    and at: "\<And>ci' j'. ci' < 8 \<Longrightarrow> (ci', j') \<noteq> (ci, j) \<Longrightarrow> slab_page (slab_at s' ci' j') = slab_page (slab_at s ci' j')"
    and f: "slab_page (slab_at s ci j) \<noteq> 0 \<Longrightarrow> slab_frame (slab_at s ci j) = f"
      "slab_page (slab_at s' ci j) \<noteq> 0 \<Longrightarrow> slab_frame (slab_at s' ci j) = f"
    and free: "\<And>g. g \<noteq> f \<Longrightarrow> g \<in> free_set (PMM s') \<longleftrightarrow> g \<in> free_set (PMM s)"
    and x: "unat x div PAGE_SIZE \<noteq> f"
  shows "x \<in> unalloc s' (fl(ci := (fl ci)(j := is))) \<longleftrightarrow> x \<in> unalloc s fl"
proof -
  let ?fl = "fl(ci := (fl ci)(j := is))"
  have body: "slab_page (slab_at s' c i) \<noteq> 0 \<and> (\<exists>k\<in>set (?fl c i). x \<in> slot_bytes (slab_frame (slab_at s' c i)) (SIZE_CLASSES ! c) k) \<longleftrightarrow>
      slab_page (slab_at s c i) \<noteq> 0 \<and> (\<exists>k\<in>set (fl c i). x \<in> slot_bytes (slab_frame (slab_at s c i)) (SIZE_CLASSES ! c) k)"
    if c: "c < 8" "i < MAX_SLABS_PER_CLASS" for c i
  proof (cases "(c, i) = (ci, j)")
    case False
    then show ?thesis using at [OF c(1) False] by (auto simp: slab_frame_def)
  next
    case True
    have "x \<notin> slot_bytes (slab_frame (slab_at t c i)) (SIZE_CLASSES ! c) k"
      if t: "heap_rep t g" "slab_page (slab_at t c i) \<noteq> 0" "slab_frame (slab_at t c i) = f" "k \<in> set (g c i)" for t g k
    proof
      assume "x \<in> slot_bytes (slab_frame (slab_at t c i)) (SIZE_CLASSES ! c) k"
      moreover note r = heap_repD(4) [OF t(1) c t(2)]
      moreover have "k < 4096 div (SIZE_CLASSES ! c)" using r t(4) by (auto simp: slab_rep_def)
      ultimately show False using slot_bytes_frame slab_rep_slot_ok [OF r c(1)] t(3) x by metis
    qed
    then show ?thesis using rep f True by (metis prod.inject)
  qed
  have "x \<in> free_slot_bytes s' ?fl \<longleftrightarrow> x \<in> free_slot_bytes s fl"
    unfolding free_slot_bytes_def mem_Collect_eq using body by metis
  then show ?thesis using free [OF x] by (simp add: unalloc_def)
qed

text \<open>The bytes of a block of \<open>n\<close> bytes at physical address \<open>a\<close>.\<close>

definition block :: "u64 \<Rightarrow> nat \<Rightarrow> u64 set" where
  "block a n = {x. unat (x - a) < n}"

lemma slot_bytes_block: "slot_bytes f sz i = block (slot_addr f sz i) sz"
  by (simp add: slot_bytes_def block_def)

lemma slot_aligned:
  assumes "slot_ok f sz i" "4096 div sz * sz = 4096"
  shows "unat (slot_addr f sz i) mod sz = 0"
proof -
  have "f * 4096 + i * sz = (f * (4096 div sz) + i) * sz"
    using assms(2) by (simp add: algebra_simps)
  then show ?thesis by (simp add: slot_ok_unat [OF assms(1)])
qed

lemma take_slot_unalloc:
  assumes rep: "heap_rep s fl" and ci: "ci < 8" "j < MAX_SLABS_PER_CLASS"
    and used: "slab_page (slab_at s ci j) \<noteq> 0" "free_count (slab_at s ci j) > 0"
  defines "sz \<equiv> SIZE_CLASSES ! ci"
  obtains a s' fl' where "take_slot ci j s = (p2v a, s')" "heap_rep s' fl'" "unat a < 2 ^ 47"
    "unat a mod sz = 0" "block a sz \<subseteq> unalloc s fl" "unalloc s' fl' = unalloc s fl - block a sz"
    "\<forall>b < sz. MEM s' (a + of_nat b) = 0"
proof -
  let ?f = "slab_frame (slab_at s ci j)"
  obtain i "is" s' where t: "fl ci j = i # is" "take_slot ci j s = (p2v (slot_addr ?f sz i), s')"
    "slot_ok ?f sz i" "heap_rep s' (fl(ci := (fl ci)(j := is)))" "i \<notin> set is"
    "\<And>b. b < sz \<Longrightarrow> MEM s' (slot_addr ?f sz i + of_nat b) = 0"
    "PMM s' = PMM s" "\<And>ci' j'. ci' < 8 \<Longrightarrow> slab_page (slab_at s' ci' j') = slab_page (slab_at s ci' j')"
    using take_slot_spec [OF rep ci used] unfolding sz_def by blast
  let ?a = "slot_addr ?f sz i" and ?fl = "fl(ci := (fl ci)(j := is))"
  have page': "slab_page (slab_at s' ci j) \<noteq> 0" "slab_frame (slab_at s' ci j) = ?f"
    using used(1) t(8) [OF ci(1)] by (simp_all add: slab_frame_def)
  note r = heap_repD(4) [OF rep ci used(1), folded sz_def] and r' = heap_repD(4) [OF t(4) ci page'(1), folded sz_def]
  note ok = slab_rep_slot_ok [OF r [unfolded sz_def] ci(1), folded sz_def]
  have i: "i < 4096 div sz" using r t(1) by (simp add: slab_rep_def)
  have sub: "block ?a sz \<subseteq> unalloc s fl"
  proof
    fix x
    assume "x \<in> block ?a sz"
    then show "x \<in> unalloc s fl"
      using unalloc_slot_iff [OF rep ci used(1), of i x] i t(1) by (simp add: slot_bytes_block sz_def)
  qed
  have "x \<in> unalloc s' ?fl \<longleftrightarrow> x \<in> unalloc s fl \<and> x \<notin> block ?a sz" for x
  proof (cases "unat x div PAGE_SIZE = ?f")
    case True
    have n: "4096 div sz * sz = 4096" "0 < sz" using size_class [OF ci(1)] by (simp_all add: sz_def)
    obtain k where k: "k < 4096 div sz" "x \<in> slot_bytes ?f sz k"
      using slots_cover_frame [OF ok n True] by blast
    have "x \<in> unalloc s fl \<longleftrightarrow> k \<in> set (fl ci j)"
      using unalloc_slot_iff [OF rep ci used(1)] k by (simp add: sz_def)
    moreover have "x \<in> unalloc s' ?fl \<longleftrightarrow> k \<in> set is"
      using unalloc_slot_iff [OF t(4) ci page'(1), of k x] k by (simp add: page'(2) sz_def)
    moreover have "x \<in> block ?a sz \<longleftrightarrow> k = i"
      using k slot_bytes_same [OF ok [OF k(1)] ok [OF i]] by (auto simp: slot_bytes_block)
    ultimately show ?thesis using t(1,5) by auto
  next
    case False
    have "x \<in> unalloc s' ?fl \<longleftrightarrow> x \<in> unalloc s fl"
      using False t(7,8) page'(2) by (intro unalloc_other_frame [OF rep t(4) ci, where f = ?f]) auto
    moreover have "x \<notin> block ?a sz"
      using slot_bytes_frame [OF ok [OF i], of x] False by (auto simp: slot_bytes_block)
    ultimately show ?thesis by simp
  qed
  then have un: "unalloc s' ?fl = unalloc s fl - block ?a sz" by blast
  have "unat ?a mod sz = 0"
    using slot_aligned [OF t(3)] size_class(3) [OF ci(1)] by (simp add: sz_def)
  with that [OF t(2,4) slot_ok_phys [OF t(3)] _ sub un] t(6) show thesis by blast
qed

lemma rd64_frame_cong:
  assumes "\<And>x. unat x div PAGE_SIZE = g \<Longrightarrow> m' x = m x" "slot_ok g tz k"
  shows "rd64 m' (slot_addr g tz k) = rd64 m (slot_addr g tz k)"
  unfolding rd64_def
proof (intro arg_cong [where f = from_le_bytes] rd_bytes_cong assms(1))
  fix b :: nat
  assume "b < 8"
  then have "slot_addr g tz k + of_nat b \<in> slot_bytes g tz k"
    using assms(2) by (simp add: slot_bytes_def unat_of_nat slot_ok_def)
  then show "unat (slot_addr g tz k + of_nat b) div PAGE_SIZE = g"
    by (rule slot_bytes_frame [OF assms(2)])
qed

lemma thread_slots_spec:
  assumes "\<And>i. i < cap \<Longrightarrow> slot_ok f sz i"
  obtains h m' where "thread_slots (frame_addr f) sz cap m = (h, m')" "chain m' f sz h [0..<cap]"
    "\<And>x. unat x div PAGE_SIZE \<noteq> f \<Longrightarrow> m' x = m x"
proof -
  obtain h m' where t: "thread_slots (frame_addr f) sz cap m = (h, m')" by fastforce
  have c: "chain m' f sz h [0..<cap]" and o: "\<And>x. (\<forall>i<cap. 8 \<le> unat (x - slot_addr f sz i)) \<Longrightarrow> m' x = m x"
    using thread_slots_chain [of cap f sz cap m 0] assms t
    by (simp_all add: thread_slots_def slot_addr_def split: prod.splits)
  have "m' x = m x" if x: "unat x div PAGE_SIZE \<noteq> f" for x
  proof (rule o, intro allI impI)
    fix i
    assume i: "i < cap"
    have "x \<notin> slot_bytes f sz i" using slot_bytes_frame [OF assms [OF i]] x by blast
    then show "8 \<le> unat (x - slot_addr f sz i)"
      using assms [OF i] by (simp add: slot_bytes_def slot_ok_def)
  qed
  with that t c show thesis by blast
qed

lemma new_slab_fresh:
  assumes rep: "heap_rep s fl" and ci: "ci < 8" "j < MAX_SLABS_PER_CLASS"
    and j: "position is_empty_slot (SLABS s ! ci) = Some j" "slab_page (slab_at s ci j) = 0"
    and ne: "free_set (PMM s) \<noteq> {}"
  obtains s' fl' where "new_slab ci s = (Some j, s')" "heap_rep s' fl'"
    "slab_page (slab_at s' ci j) \<noteq> 0" "free_count (slab_at s' ci j) > 0" "unalloc s' fl' = unalloc s fl"
proof -
  define f where "f = Min (free_set (PMM s))"
  define sz where "sz = SIZE_CLASSES ! ci"
  let ?cap = "4096 div sz"
  have mem: "f \<in> free_set (PMM s)" using ne by (simp add: f_def)
  have f: "0 < f" "f < MAX_FRAMES" using free_set_bounds [OF heap_repD(1) [OF rep] mem] by simp_all
  have f0: "frame_addr f \<noteq> 0" using f by (simp add: frame_addr_0_iff)
  have sz: "16 \<le> sz" "?cap * sz = 4096" "0 < ?cap" using size_class [OF ci(1)] by (simp_all add: sz_def)
  have ok: "slot_ok f sz i" if "i < ?cap" for i
    using that sz f slot_index [of sz i] by (simp add: slot_ok_def mult.commute)
  obtain s1 where s1: "alloc_frame s = (frame_addr f, s1)" "MEM s1 = zero_bytes (MEM s) (frame_addr f) 4096"
    "free_set (PMM s1) = free_set (PMM s) - {f}" "SLABS s1 = SLABS s" "pmm_inv (PMM s1)"
    using alloc_frame_least [OF heap_repD(1) [OF rep] ne] alloc_frame_inv [OF heap_repD(1) [OF rep]]
    by (simp add: f_def)
  obtain h m' where t: "thread_slots (frame_addr f) sz ?cap (MEM s1) = (h, m')" "chain m' f sz h [0..<?cap]"
    "\<And>x. unat x div PAGE_SIZE \<noteq> f \<Longrightarrow> m' x = MEM s1 x"
    by (rule thread_slots_spec [OF ok, where m = "MEM s1"]) blast+
  define hd' where "hd' = \<lparr>slab_page = frame_addr f, free_head = h, free_count = ?cap, capacity = ?cap\<rparr>"
  define s' where "s' = set_slab ci j hd' (s1\<lparr>MEM := m'\<rparr>)"
  have new: "new_slab ci s = (Some j, s')"
    using f0 by (simp add: new_slab_def j(1) s1(1) t(1) Let_def s'_def hd'_def flip: sz_def)
  have slabs: "SLABS s' = SLABS (set_slab ci j hd' s)" by (simp add: s'_def set_slab_def s1)
  have at: "slab_at s' c i = (if c = ci \<and> i = j then hd' else slab_at s c i)" if "c < 8" for c i
    unfolding slabs using set_slab_at [OF heap_repD(2) [OF rep] heap_repD(3) [OF rep ci(1)] ci that] .
  have fr: "slab_frame hd' = f" using f by (simp add: hd'_def slab_frame_def frame_addr_frame del: PAGE_SIZE_def)
  have mem': "MEM s' x = MEM s x" if "unat x div PAGE_SIZE \<noteq> f" for x
    using t(3) [OF that] in_frame [OF f(2), of x] that by (auto simp: s'_def s1(2) zero_bytes_def)
  have pmm': "PMM s' = PMM s1" by (simp add: s'_def)
  have rep': "heap_rep s' (fl(ci := (fl ci)(j := [0..<?cap])))"
  proof (rule heap_rep_update [OF rep ci _ slabs])
    show "pmm_inv (PMM s')" by (simp add: pmm' s1)
    show "slab_rep s' (SIZE_CLASSES ! ci) hd' [0..<?cap]"
      using f t(2) by (auto simp: slab_rep_def fr pmm' s1 simp flip: sz_def) (auto simp: hd'_def s'_def)
    fix ci' j'
    assume o: "ci' < 8" "j' < MAX_SLABS_PER_CLASS" "(ci', j') \<noteq> (ci, j)" "slab_page (slab_at s ci' j') \<noteq> 0"
    note r' = heap_repD(4) [OF rep o(1,2,4)]
    have nf: "slab_frame (slab_at s ci' j') \<noteq> f" using r' mem by (auto simp: slab_rep_def)
    have "slab_rep s' (SIZE_CLASSES ! ci') (slab_at s ci' j') (fl ci' j')"
    proof (rule slab_rep_other [OF r'])
      show "slab_frame (slab_at s ci' j') \<notin> free_set (PMM s')" using r' by (auto simp: pmm' s1 slab_rep_def)
      fix i
      assume "i \<in> set (fl ci' j')"
      then have "i < 4096 div (SIZE_CLASSES ! ci')" using r' by (auto simp: slab_rep_def)
      then show "rd64 (MEM s') (slot_addr (slab_frame (slab_at s ci' j')) (SIZE_CLASSES ! ci') i) =
          rd64 (MEM s) (slot_addr (slab_frame (slab_at s ci' j')) (SIZE_CLASSES ! ci') i)"
        using mem' nf slab_rep_slot_ok [OF r' o(1)] by (intro rd64_frame_cong) auto
    qed
    moreover have "frame_addr f \<noteq> slab_page (slab_at s ci' j')"
      using nf f(2) frame_addr_frame [OF f(2)] by (auto simp: slab_frame_def)
    ultimately show "slab_page hd' \<noteq> slab_page (slab_at s ci' j') \<and>
        slab_rep s' (SIZE_CLASSES ! ci') (slab_at s ci' j') (fl ci' j')"
      by (simp add: hd'_def)
  qed
  have at': "slab_at s' ci j = hd'" using at [OF ci(1)] by simp
  have pg: "slab_page hd' \<noteq> 0" using f0 by (simp add: hd'_def)
  have "x \<in> unalloc s' (fl(ci := (fl ci)(j := [0..<?cap]))) \<longleftrightarrow> x \<in> unalloc s fl" for x
  proof (cases "unat x div PAGE_SIZE = f")
    case True
    have "0 < sz" using sz(1) by simp
    obtain k where k: "k < ?cap" "x \<in> slot_bytes f sz k"
      using slots_cover_frame [OF ok sz(2) \<open>0 < sz\<close> True] by blast
    then have "x \<in> unalloc s' (fl(ci := (fl ci)(j := [0..<?cap])))"
      using unalloc_slot_iff [OF rep' ci, of k x] at' pg fr by (simp flip: sz_def)
    moreover have "x \<in> unalloc s fl" using True mem by (simp add: unalloc_def)
    ultimately show ?thesis by simp
  next
    case False
    then show ?thesis
      using at at' fr j(2) by (intro unalloc_other_frame [OF rep rep' ci, where f = f]) (auto simp: pmm' s1)
  qed
  then have "unalloc s' (fl(ci := (fl ci)(j := [0..<?cap]))) = unalloc s fl" by blast
  with that [OF new rep'] at' pg sz(3) show thesis by (simp add: hd'_def)
qed

lemma new_slab_spec:
  assumes rep: "heap_rep s fl" and ci: "ci < 8"
  defines "sz \<equiv> SIZE_CLASSES ! ci"
  obtains (none) "new_slab ci s = (None, s)"
      "free_set (PMM s) = {} \<or> (\<forall>j<MAX_SLABS_PER_CLASS. slab_page (slab_at s ci j) \<noteq> 0)"
    | (some) j s' fl' where "new_slab ci s = (Some j, s')" "j < MAX_SLABS_PER_CLASS"
      "heap_rep s' fl'" "slab_page (slab_at s' ci j) \<noteq> 0" "free_count (slab_at s' ci j) > 0"
      "unalloc s' fl' = unalloc s fl"
proof -
  note len = heap_repD(2) [OF rep] heap_repD(3) [OF rep ci]
  show thesis
  proof (cases "position is_empty_slot (SLABS s ! ci)")
    case None
    then have "\<forall>h\<in>set (SLABS s ! ci). slab_page h \<noteq> 0" by (simp add: position_None_iff is_empty_slot_def)
    with len None show thesis by (intro none) (auto simp: new_slab_def)
  next
    case (Some j)
    then have j: "j < MAX_SLABS_PER_CLASS" "slab_page (slab_at s ci j) = 0"
      using position_SomeD [OF Some] len by (simp_all add: is_empty_slot_def)
    show thesis
    proof (cases "free_set (PMM s) = {}")
      case True
      then show thesis
        using Some alloc_frame_empty [OF heap_repD(1) [OF rep] True] by (intro none) (simp_all add: new_slab_def)
    next
      case False
      show thesis
        by (rule new_slab_fresh [OF rep ci j(1) Some j(2) False]) (rule some [OF _ j(1)])
    qed
  qed
qed

section \<open>Large requests\<close>

lemma alloc_frames_SLABS [simp]: "SLABS (snd (alloc_frames n s)) = SLABS s"
  by (simp add: alloc_frames_def alloc_frame_def Let_def split: option.split)

lemma frames_block_iff:
  assumes "st + n \<le> MAX_FRAMES"
  shows "x \<in> block (frame_addr st) (n * 4096) \<longleftrightarrow> unat x div PAGE_SIZE \<in> {st..<st + n}"
proof (cases "n = 0")
  case True
  then show ?thesis by (simp add: block_def)
next
  case False
  with assms have st: "st < MAX_FRAMES" by simp
  note u = frame_addr_unat [OF st]
  show ?thesis
  proof
    assume "x \<in> block (frame_addr st) (n * 4096)"
    then obtain b where b: "b < n * 4096" "x = frame_addr st + of_nat b"
      using in_win_iff [of x "frame_addr st" "n * 4096"] by (auto simp: block_def)
    then have x: "unat x = st * 4096 + b"
      using assms u by (simp add: unat_word_ariths unat_of_nat MAX_FRAMES_def)
    then have "unat x div 4096 = st + b div 4096" by simp
    moreover have "b div 4096 < n" using b(1) by (simp add: less_mult_imp_div_less)
    ultimately show "unat x div PAGE_SIZE \<in> {st..<st + n}" by simp
  next
    assume "unat x div PAGE_SIZE \<in> {st..<st + n}"
    then have "st * 4096 \<le> unat x" "unat x < (st + n) * 4096"
      by (simp_all add: less_eq_div_iff_mult_less_eq div_less_iff_less_mult)
    then have "unat (x - frame_addr st) = unat x - st * 4096" "unat x - st * 4096 < n * 4096"
      using u by (simp_all add: unat_sub word_le_nat_alt algebra_simps)
    then show "x \<in> block (frame_addr st) (n * 4096)" by (simp add: block_def)
  qed
qed

lemma free_slot_not_free_frame:
  assumes "heap_rep s fl" "x \<in> free_slot_bytes s fl"
  shows "unat x div PAGE_SIZE \<notin> free_set (PMM s)"
proof -
  obtain ci j i where o: "ci < 8" "j < MAX_SLABS_PER_CLASS" "slab_page (slab_at s ci j) \<noteq> 0"
    "i \<in> set (fl ci j)" "x \<in> slot_bytes (slab_frame (slab_at s ci j)) (SIZE_CLASSES ! ci) i"
    using assms(2) by (auto simp: free_slot_bytes_def)
  note r = heap_repD(4) [OF assms(1) o(1-3)]
  have "i < 4096 div (SIZE_CLASSES ! ci)" using r o(4) by (auto simp: slab_rep_def)
  then have "unat x div PAGE_SIZE = slab_frame (slab_at s ci j)"
    using slot_bytes_frame [OF slab_rep_slot_ok [OF r o(1)] o(5)] by simp
  with r show ?thesis by (simp add: slab_rep_def)
qed

text \<open>Taking free frames away, with memory changed only in them.\<close>

lemma heap_rep_frames:
  assumes rep: "heap_rep s fl" and pmm: "pmm_inv (PMM s')" "SLABS s' = SLABS s"
    and free: "free_set (PMM s') \<subseteq> free_set (PMM s)"
    and mem: "\<And>x. unat x div PAGE_SIZE \<notin> free_set (PMM s) \<Longrightarrow> MEM s' x = MEM s x"
  shows "heap_rep s' fl"
proof -
  have "slab_rep s' (SIZE_CLASSES ! ci) (slab_at s ci j) (fl ci j)"
    if c: "ci < 8" "j < MAX_SLABS_PER_CLASS" "slab_page (slab_at s ci j) \<noteq> 0" for ci j
  proof (rule slab_rep_other [OF heap_repD(4) [OF rep c]])
    note r = heap_repD(4) [OF rep c]
    show "slab_frame (slab_at s ci j) \<notin> free_set (PMM s')" using r free by (auto simp: slab_rep_def)
    fix i
    assume "i \<in> set (fl ci j)"
    then have "i < 4096 div (SIZE_CLASSES ! ci)" using r by (auto simp: slab_rep_def)
    moreover have "slab_frame (slab_at s ci j) \<notin> free_set (PMM s)" using r by (simp add: slab_rep_def)
    ultimately show "rd64 (MEM s') (slot_addr (slab_frame (slab_at s ci j)) (SIZE_CLASSES ! ci) i) =
        rd64 (MEM s) (slot_addr (slab_frame (slab_at s ci j)) (SIZE_CLASSES ! ci) i)"
      using mem slab_rep_slot_ok [OF r c(1)] by (intro rd64_frame_cong) auto
  qed
  then show ?thesis
    using rep pmm unfolding heap_rep_def by (simp add: pmm(2))
qed

text \<open>What a request gets: a block of unallocated bytes, cleared, and nothing else changes hands.\<close>

definition gives :: "heap \<Rightarrow> (nat \<Rightarrow> nat \<Rightarrow> nat list) \<Rightarrow> u64 \<Rightarrow> nat \<Rightarrow> heap \<Rightarrow> bool" where
  "gives s fl a n s' \<longleftrightarrow>
     (\<exists>fl'. heap_rep s' fl' \<and> block a n \<subseteq> unalloc s fl \<and> unalloc s' fl' = unalloc s fl - block a n \<and>
        (\<forall>b<n. MEM s' (a + of_nat b) = 0) \<and> unat a < 2 ^ 47)"

lemma gives_nonzero: "gives s fl a n s' \<Longrightarrow> p2v a \<noteq> 0"
  unfolding gives_def using p2v_nonzero by blast

lemma alloc_frames_gives:
  assumes rep: "heap_rep s fl" and n: "0 < n"
  obtains (none) "alloc_frames n s = (0, s)"
    | (some) a s' where "alloc_frames n s = (a, s')" "a \<noteq> 0" "gives s fl a (n * 4096) s'" "unat a mod 4096 = 0"
  using heap_repD(1) [OF rep] n
proof (cases rule: alloc_frames_cases)
  case (fit st)
  let ?s' = "snd (alloc_frames n s)"
  have run: "{st..<st + n} \<subseteq> free_set (PMM s)"
    using fit(2,3) by (auto simp: free_set_def run_at_def)
  have in_block: "x \<in> block (frame_addr st) (n * 4096) \<longleftrightarrow> unat x div PAGE_SIZE \<in> {st..<st + n}" for x
    by (rule frames_block_iff [OF fit(2)])
  have mem: "MEM ?s' x = (if x \<in> block (frame_addr st) (n * 4096) then 0 else MEM s x)" for x
    by (simp add: fit(8) zero_bytes_def block_def)
  have rep': "heap_rep ?s' fl"
  proof (rule heap_rep_frames [OF rep alloc_frames_inv [OF heap_repD(1) [OF rep]] alloc_frames_SLABS])
    show "free_set (PMM ?s') \<subseteq> free_set (PMM s)" by (auto simp: fit(6))
    show "MEM ?s' x = MEM s x" if "unat x div PAGE_SIZE \<notin> free_set (PMM s)" for x
      using that run in_block [of x] mem [of x] by auto
  qed
  have "free_slot_bytes ?s' fl = free_slot_bytes s fl" by (simp add: free_slot_bytes_def)
  then have un: "unalloc ?s' fl = unalloc s fl - block (frame_addr st) (n * 4096)"
    using in_block run free_slot_not_free_frame [OF rep] by (auto simp: unalloc_def fit(6))
  have sub: "block (frame_addr st) (n * 4096) \<subseteq> unalloc s fl"
    using in_block run by (auto simp: unalloc_def)
  have st: "0 < st" "st < MAX_FRAMES" using fit(1,2) n by simp_all
  have "n * 4096 \<le> 2 ^ 64" using fit(2) by (simp add: MAX_FRAMES_def)
  then have "\<forall>b<n * 4096. frame_addr st + of_nat b \<in> block (frame_addr st) (n * 4096)"
    by (simp add: block_def unat_of_nat)
  then have "gives s fl (frame_addr st) (n * 4096) ?s'"
    unfolding gives_def using rep' un sub mem st frame_addr_unat [OF st(2)]
    by (intro exI [of _ fl]) (simp add: MAX_FRAMES_def)
  moreover have "alloc_frames n s = (frame_addr st, ?s')" using fit(5) by (metis prod.collapse)
  moreover have "unat (frame_addr st) mod 4096 = 0" by (simp add: frame_addr_unat [OF st(2)])
  ultimately show thesis using st by (intro some) (simp_all add: frame_addr_0_iff)
qed (rule none)

section \<open>Returning a slot\<close>

lemma slot_in_page_iff:
  assumes "slot_ok f sz i" "g < MAX_FRAMES"
  shows "slot_addr f sz i \<ge> frame_addr g \<and> slot_addr f sz i < frame_addr g + of_nat PAGE_SIZE \<longleftrightarrow> f = g"
proof -
  have g: "unat (frame_addr g) = g * 4096" "unat (frame_addr g + 4096) = g * 4096 + 4096"
    using assms(2) frame_addr_unat [OF assms(2)] by (simp_all add: unat_word_ariths MAX_FRAMES_def)
  have "i * sz < 4096" using assms(1) by (simp add: slot_ok_def)
  then show ?thesis
    using g by (auto simp: word_le_nat_alt word_less_nat_alt slot_ok_unat [OF assms(1)])
qed

lemma find_slab_of_slot:
  assumes rep: "heap_rep s fl" and ci: "ci < 8" "j < MAX_SLABS_PER_CLASS" "slab_page (slab_at s ci j) \<noteq> 0"
    and i: "i < 4096 div (SIZE_CLASSES ! ci)"
  defines "a \<equiv> slot_addr (slab_frame (slab_at s ci j)) (SIZE_CLASSES ! ci) i"
  shows "position (\<lambda>h. \<not> is_empty_slot h \<and> a \<ge> slab_page h \<and> a < slab_page h + of_nat PAGE_SIZE)
    (SLABS s ! ci) = Some j"
proof -
  let ?p = "\<lambda>h. \<not> is_empty_slot h \<and> a \<ge> slab_page h \<and> a < slab_page h + of_nat PAGE_SIZE"
  note r = heap_repD(4) [OF rep ci]
  note ok = slab_rep_slot_ok [OF r ci(1) i]
  have iff: "?p (slab_at s ci k) \<longleftrightarrow> k = j" if k: "k < MAX_SLABS_PER_CLASS" for k
  proof (cases "slab_page (slab_at s ci k) = 0")
    case True
    then show ?thesis using ci(3) by (auto simp: is_empty_slot_def)
  next
    case False
    note r' = heap_repD(4) [OF rep ci(1) k False]
    have pg: "slab_page (slab_at s ci k) = frame_addr (slab_frame (slab_at s ci k))"
      "slab_frame (slab_at s ci k) < MAX_FRAMES" using r' by (simp_all add: slab_rep_def)
    have "?p (slab_at s ci k) \<longleftrightarrow> slab_frame (slab_at s ci j) = slab_frame (slab_at s ci k)"
      using False slot_in_page_iff [OF ok pg(2)] unfolding a_def pg(1) by (simp add: is_empty_slot_def pg(1))
    also have "\<dots> \<longleftrightarrow> k = j"
      using heap_repD(5) [OF rep ci(1,2) ci(1) k ci(3)] r r' by (auto simp: slab_rep_def)
    finally show ?thesis .
  qed
  show ?thesis
    unfolding position_Some_iff using heap_repD(3) [OF rep ci(1)] iff ci(2) by auto
qed

text \<open>A full free list holds every slot.\<close>

lemma full_list_set:
  assumes "distinct is" "set is \<subseteq> {..<n}" "length is = n"
  shows "set is = {..<n}"
  using assms by (intro card_subset_eq) (simp_all add: distinct_card)

lemma heap_rep_push:
  assumes rep: "heap_rep s fl" and ci: "ci < 8" "j < MAX_SLABS_PER_CLASS" "slab_page (slab_at s ci j) \<noteq> 0"
    and i: "i < 4096 div (SIZE_CLASSES ! ci)" "i \<notin> set (fl ci j)"
  defines "a \<equiv> slot_addr (slab_frame (slab_at s ci j)) (SIZE_CLASSES ! ci) i"
  defines "s1 \<equiv> s\<lparr>MEM := wr64 (MEM s) a (free_head (slab_at s ci j))\<rparr>"
  defines "h \<equiv> (slab_at s ci j)\<lparr>free_head := p2v a, free_count := free_count (slab_at s ci j) + 1\<rparr>"
  shows "heap_rep (set_slab ci j h s1) (fl(ci := (fl ci)(j := i # fl ci j)))"
proof -
  let ?f = "slab_frame (slab_at s ci j)" and ?sz = "SIZE_CLASSES ! ci"
  note r = heap_repD(4) [OF rep ci]
  note ok = slab_rep_slot_ok [OF r ci(1)]
  have rd: "rd64 (MEM s1) (slot_addr g tz k) = rd64 (MEM s) (slot_addr g tz k)"
    if "slot_ok g tz k" "?f \<noteq> g \<or> ?sz = tz \<and> i \<noteq> k" for g tz k
    unfolding s1_def a_def using that ok [OF i(1)]
    by (simp, intro rd64_wr64_other slots_apart) (auto simp: slot_ok_def)
  have new: "slab_rep (set_slab ci j h s1) ?sz h (i # fl ci j)"
  proof -
    have "chain (MEM s1) ?f ?sz (free_head (slab_at s ci j)) (fl ci j) =
        chain (MEM s) ?f ?sz (free_head (slab_at s ci j)) (fl ci j)"
    proof (rule chain_cong)
      fix k
      assume k: "k \<in> set (fl ci j)"
      then have "k < 4096 div ?sz" using r by (auto simp: slab_rep_def)
      with k i(2) rd [OF ok] show "rd64 (MEM s1) (slot_addr ?f ?sz k) = rd64 (MEM s) (slot_addr ?f ?sz k)"
        by auto
    qed
    then have "chain (MEM s1) ?f ?sz (free_head (slab_at s ci j)) (fl ci j)"
      using r by (simp add: slab_rep_def)
    moreover have "rd64 (MEM s1) a = free_head (slab_at s ci j)" by (simp add: s1_def)
    ultimately show ?thesis
      using r i by (simp add: slab_rep_def h_def slab_frame_def a_def) (simp add: s1_def)
  qed
  show ?thesis
  proof (rule heap_rep_update [OF rep ci(1,2)])
    show "pmm_inv (PMM (set_slab ci j h s1))" using heap_repD(1) [OF rep] by (simp add: s1_def)
    show "SLABS (set_slab ci j h s1) = SLABS (set_slab ci j h s)" by (simp add: s1_def set_slab_def)
    show "slab_rep (set_slab ci j h s1) ?sz h (i # fl ci j)" by (rule new)
    fix ci' j'
    assume o: "ci' < 8" "j' < MAX_SLABS_PER_CLASS" "(ci', j') \<noteq> (ci, j)" "slab_page (slab_at s ci' j') \<noteq> 0"
    note r' = heap_repD(4) [OF rep o(1,2,4)]
    have ne: "slab_page (slab_at s ci j) \<noteq> slab_page (slab_at s ci' j')"
      using heap_repD(5) [OF rep ci(1,2) o(1,2) ci(3)] o(3) by auto
    then have "?f \<noteq> slab_frame (slab_at s ci' j')" using r r' by (auto simp: slab_rep_def)
    then have "slab_rep (set_slab ci j h s1) (SIZE_CLASSES ! ci') (slab_at s ci' j') (fl ci' j')"
      using r' rd slab_rep_slot_ok [OF r' o(1)]
      by (intro slab_rep_other [OF r']) (auto simp: slab_rep_def s1_def)
    with ne show "slab_page h \<noteq> slab_page (slab_at s ci' j') \<and>
        slab_rep (set_slab ci j h s1) (SIZE_CLASSES ! ci') (slab_at s ci' j') (fl ci' j')"
      by (simp add: h_def)
  qed
qed

section \<open>Properties\<close>

lemma size_class_power:
  assumes "ci < 8"
  shows "SIZE_CLASSES ! ci = 2 ^ (ci + 4)"
proof -
  have eq: "SIZE_CLASSES = map (\<lambda>i. 2 ^ (i + 4)) [0..<8]" by (simp add: SIZE_CLASSES_def upt_rec)
  show ?thesis unfolding eq using assms by (simp del: upt_rec_numeral)
qed

lemma power_of_two_mod:
  assumes "k \<le> q" "a mod 2 ^ q = 0"
  shows "a mod 2 ^ k = (0::nat)"
  using assms by (meson dvd_imp_mod_0 dvd_trans le_imp_power_dvd mod_0_imp_dvd)

lemma heap_alloc_class:
  assumes rep: "heap_rep s fl" and ci: "class_for (layout_size lsize (2 ^ k)) = Some ci"
  shows "heap_alloc lsize (2 ^ k) s = (0, s) \<or>
    (\<exists>a s'. heap_alloc lsize (2 ^ k) s = (p2v a, s') \<and> unat a mod 2 ^ k = 0 \<and>
       (\<exists>n\<ge>lsize. gives s fl a n s'))"
proof -
  let ?sz = "SIZE_CLASSES ! ci"
  note c8 = class_for_SomeD [OF ci]
  have ge: "lsize \<le> ?sz" "2 ^ k \<le> ?sz" using c8(2) by (simp_all add: layout_size_def)
  then have "(2::nat) ^ k \<le> 2 ^ (ci + 4)" using size_class_power [OF c8(1)] by simp
  then have k: "k \<le> ci + 4" by simp
  have finish: "\<exists>a s'. take_slot ci j t = (p2v a, s') \<and> unat a mod 2 ^ k = 0 \<and> (\<exists>n\<ge>lsize. gives s fl a n s')"
    if t: "heap_rep t fl1" "unalloc t fl1 = unalloc s fl" "j < MAX_SLABS_PER_CLASS"
      "slab_page (slab_at t ci j) \<noteq> 0" "free_count (slab_at t ci j) > 0" for t fl1 j
  proof (rule take_slot_unalloc [OF t(1) c8(1) t(3-5)])
    fix a s' fl'
    assume o: "take_slot ci j t = (p2v a, s')" "heap_rep s' fl'" "unat a < 2 ^ 47" "unat a mod ?sz = 0"
      "block a ?sz \<subseteq> unalloc t fl1" "unalloc s' fl' = unalloc t fl1 - block a ?sz"
      "\<forall>b < ?sz. MEM s' (a + of_nat b) = 0"
    have "unat a mod 2 ^ k = 0"
      using power_of_two_mod [OF k] o(4) size_class_power [OF c8(1)] by simp
    moreover have "gives s fl a ?sz s'" using o t(2) unfolding gives_def by auto
    ultimately show ?thesis using o(1) ge(1) by auto
  qed
  show ?thesis
  proof (cases "position (\<lambda>h. \<not> is_empty_slot h \<and> free_count h > 0) (SLABS s ! ci)")
    case (Some j)
    then have "j < MAX_SLABS_PER_CLASS" "slab_page (slab_at s ci j) \<noteq> 0" "free_count (slab_at s ci j) > 0"
      using position_SomeD [OF Some] heap_repD(3) [OF rep c8(1)] by (simp_all add: is_empty_slot_def)
    then show ?thesis using finish [OF rep refl] Some ci by (simp add: heap_alloc_def)
  next
    case None
    show ?thesis
    proof (cases rule: new_slab_spec [OF rep c8(1)])
      case 1
      then show ?thesis using None ci by (simp add: heap_alloc_def)
    next
      case (2 j s1 fl1)
      then show ?thesis using finish [OF 2(3,6,2,4,5)] None ci by (simp add: heap_alloc_def)
    qed
  qed
qed

text \<open>C6: the heap never hands out memory twice. A request with a power-of-two alignment of at
  most a page either fails, returning null and changing nothing, or returns a block that is
  large enough, aligned, zeroed and made only of bytes nobody owned; exactly those bytes leave
  the set of unallocated bytes, and the slab free lists stay well formed.\<close>

theorem heap_alloc_correct:
  assumes rep: "heap_rep s fl" and k: "k \<le> 12"
  shows "heap_alloc lsize (2 ^ k) s = (0, s) \<or>
    (\<exists>a s'. heap_alloc lsize (2 ^ k) s = (p2v a, s') \<and> p2v a \<noteq> 0 \<and> unat a mod 2 ^ k = 0 \<and>
       (\<exists>n\<ge>lsize. gives s fl a n s'))"
proof (cases "class_for (layout_size lsize (2 ^ k))")
  case (Some ci)
  then show ?thesis
    using heap_alloc_class [OF rep Some] gives_nonzero by metis
next
  case None
  let ?sz = "layout_size lsize (2 ^ k)"
  define n where "n = (?sz + PAGE_SIZE - 1) div PAGE_SIZE"
  have sz: "8 \<le> ?sz" "lsize \<le> ?sz" by (simp_all add: layout_size_def)
  then have n: "0 < n" "lsize \<le> n * 4096" unfolding n_def PAGE_SIZE_def by linarith+
  show ?thesis
  proof (cases rule: alloc_frames_gives [OF rep n(1)])
    case 1
    then show ?thesis using None by (simp add: heap_alloc_def n_def [unfolded PAGE_SIZE_def])
  next
    case (2 a s')
    then have "heap_alloc lsize (2 ^ k) s = (p2v a, s')"
      using None by (simp add: heap_alloc_def n_def [unfolded PAGE_SIZE_def])
    moreover have "unat a mod 2 ^ k = 0" using power_of_two_mod [of k 12 "unat a"] k 2(4) by simp
    ultimately show ?thesis using 2(3) n(2) gives_nonzero [OF 2(3)] by metis
  qed
qed

lemma push_unalloc:
  assumes rep: "heap_rep s fl" "heap_rep s' (fl(ci := (fl ci)(j := i # fl ci j)))"
    and ci: "ci < 8" "j < MAX_SLABS_PER_CLASS" "slab_page (slab_at s ci j) \<noteq> 0"
    and at: "\<And>ci' j'. ci' < 8 \<Longrightarrow> slab_page (slab_at s' ci' j') = slab_page (slab_at s ci' j')"
    and pmm: "PMM s' = PMM s" and i: "i < 4096 div (SIZE_CLASSES ! ci)"
  shows "unalloc s' (fl(ci := (fl ci)(j := i # fl ci j))) =
    unalloc s fl \<union> slot_bytes (slab_frame (slab_at s ci j)) (SIZE_CLASSES ! ci) i"
proof -
  let ?fl = "fl(ci := (fl ci)(j := i # fl ci j))" and ?sz = "SIZE_CLASSES ! ci"
  let ?f = "slab_frame (slab_at s ci j)"
  note r = heap_repD(4) [OF rep(1) ci]
  note ok = slab_rep_slot_ok [OF r ci(1)]
  have page': "slab_page (slab_at s' ci j) \<noteq> 0" "slab_frame (slab_at s' ci j) = ?f"
    using ci(3) at [OF ci(1)] by (simp_all add: slab_frame_def)
  have "x \<in> unalloc s' ?fl \<longleftrightarrow> x \<in> unalloc s fl \<or> x \<in> slot_bytes ?f ?sz i" for x
  proof (cases "unat x div PAGE_SIZE = ?f")
    case True
    have n: "4096 div ?sz * ?sz = 4096" "0 < ?sz" using size_class [OF ci(1)] by simp_all
    obtain k where k: "k < 4096 div ?sz" "x \<in> slot_bytes ?f ?sz k"
      using slots_cover_frame [OF ok n True] by blast
    have "x \<in> unalloc s fl \<longleftrightarrow> k \<in> set (fl ci j)"
      using unalloc_slot_iff [OF rep(1) ci k] .
    moreover have "x \<in> unalloc s' ?fl \<longleftrightarrow> k \<in> set (i # fl ci j)"
      using unalloc_slot_iff [OF rep(2) ci(1,2) page'(1), of k x] k by (simp add: page'(2))
    moreover have "x \<in> slot_bytes ?f ?sz i \<longleftrightarrow> k = i"
      using k slot_bytes_same [OF ok [OF k(1)] ok [OF i]] by auto
    ultimately show ?thesis by auto
  next
    case False
    have "x \<in> unalloc s' ?fl \<longleftrightarrow> x \<in> unalloc s fl"
      using False at page'(2) by (intro unalloc_other_frame [OF rep ci(1,2), where f = ?f]) (auto simp: pmm)
    moreover have "x \<notin> slot_bytes ?f ?sz i" using slot_bytes_frame [OF ok [OF i], of x] False by auto
    ultimately show ?thesis by simp
  qed
  then show ?thesis by blast
qed

lemma free_frame_frame [simp]:
  "MEM (free_frame a s) = MEM s" "SLABS (free_frame a t) = SLABS t"
  by (simp_all add: free_frame_def Let_def)

text \<open>Giving the page of a slab whose slots are all free back to the frame allocator.\<close>

lemma release_slab:
  assumes rep: "heap_rep s fl" and ci: "ci < 8" "j < MAX_SLABS_PER_CLASS" "slab_page (slab_at s ci j) \<noteq> 0"
    and full: "free_count (slab_at s ci j) = capacity (slab_at s ci j)"
  defines "s' \<equiv> set_slab ci j slab_empty (free_frame (slab_page (slab_at s ci j)) s)"
  shows "heap_rep s' (fl(ci := (fl ci)(j := [])))" and "unalloc s' (fl(ci := (fl ci)(j := []))) = unalloc s fl"
proof -
  let ?f = "slab_frame (slab_at s ci j)" and ?sz = "SIZE_CLASSES ! ci"
  note r = heap_repD(4) [OF rep ci]
  note ok = slab_rep_slot_ok [OF r ci(1)]
  have f: "0 < ?f" "?f < MAX_FRAMES" "slab_page (slab_at s ci j) = frame_addr ?f"
    using r by (simp_all add: slab_rep_def)
  have free': "free_set (PMM s') = insert ?f (free_set (PMM s))"
    unfolding s'_def f(3) using f(1,2) heap_repD(1) [OF rep] by (simp add: pmm.free_returns)
  have slabs: "SLABS s' = SLABS (set_slab ci j slab_empty s)" by (simp add: s'_def set_slab_def)
  have at: "slab_at s' c i = (if c = ci \<and> i = j then slab_empty else slab_at s c i)" if "c < 8" for c i
    unfolding slabs using set_slab_at [OF heap_repD(2) [OF rep] heap_repD(3) [OF rep ci(1)] ci(1,2) that] .
  show rep': "heap_rep s' (fl(ci := (fl ci)(j := [])))"
  proof (rule heap_rep_update [OF rep ci(1,2) _ slabs])
    show "pmm_inv (PMM s')" using heap_repD(1) [OF rep] by (simp add: s'_def free_frame_inv)
    fix ci' j'
    assume o: "ci' < 8" "j' < MAX_SLABS_PER_CLASS" "(ci', j') \<noteq> (ci, j)" "slab_page (slab_at s ci' j') \<noteq> 0"
    note r' = heap_repD(4) [OF rep o(1,2,4)]
    have "slab_page (slab_at s ci j) \<noteq> slab_page (slab_at s ci' j')"
      using heap_repD(5) [OF rep ci(1,2) o(1,2) ci(3)] o(3) by auto
    then have "?f \<noteq> slab_frame (slab_at s ci' j')" using r r' by (auto simp: slab_rep_def)
    then have "slab_rep s' (SIZE_CLASSES ! ci') (slab_at s ci' j') (fl ci' j')"
      using r' by (intro slab_rep_other [OF r']) (auto simp: slab_rep_def free', simp add: s'_def)
    with o(4) show "slab_page slab_empty \<noteq> slab_page (slab_at s ci' j') \<and>
        slab_rep s' (SIZE_CLASSES ! ci') (slab_at s ci' j') (fl ci' j')"
      by (simp add: slab_empty_def)
  qed (simp add: slab_empty_def)
  have all: "set (fl ci j) = {..<4096 div ?sz}"
    using r full by (intro full_list_set) (simp_all add: slab_rep_def)
  have "x \<in> unalloc s' (fl(ci := (fl ci)(j := []))) \<longleftrightarrow> x \<in> unalloc s fl" for x
  proof (cases "unat x div PAGE_SIZE = ?f")
    case True
    have n: "4096 div ?sz * ?sz = 4096" "0 < ?sz" using size_class [OF ci(1)] by simp_all
    obtain k where k: "k < 4096 div ?sz" "x \<in> slot_bytes ?f ?sz k"
      using slots_cover_frame [OF ok n True] by blast
    then have "x \<in> unalloc s fl" using unalloc_slot_iff [OF rep ci k] all by simp
    moreover have "x \<in> unalloc s' (fl(ci := (fl ci)(j := [])))" using True free' by (simp add: unalloc_def)
    ultimately show ?thesis by simp
  next
    case False
    moreover have "slab_page (slab_at s' ci j) = 0" using at [OF ci(1)] by (simp add: slab_empty_def)
    ultimately show ?thesis
      using at by (intro unalloc_other_frame [OF rep rep' ci(1,2), where f = ?f]) (auto simp: free')
  qed
  then show "unalloc s' (fl(ci := (fl ci)(j := []))) = unalloc s fl" by blast
qed

text \<open>C25: freeing gives the memory back. Deallocating a slot that is allocated (with the layout
  it was allocated for) keeps the free lists well formed and makes exactly the bytes of the slot
  unallocated again, also when it was the last slot of its page and the page goes back to the
  frame allocator.\<close>

theorem heap_dealloc_correct:
  assumes rep: "heap_rep s fl" and ci: "class_for (layout_size lsize lalign) = Some ci"
    and j: "j < MAX_SLABS_PER_CLASS" "slab_page (slab_at s ci j) \<noteq> 0"
    and i: "i < 4096 div (SIZE_CLASSES ! ci)" "i \<notin> set (fl ci j)"
  shows "let a = slot_addr (slab_frame (slab_at s ci j)) (SIZE_CLASSES ! ci) i;
      s' = heap_dealloc (p2v a) lsize lalign s
    in \<exists>fl'. heap_rep s' fl' \<and> unalloc s' fl' = unalloc s fl \<union> block a (SIZE_CLASSES ! ci)"
proof -
  let ?h = "slab_at s ci j" and ?sz = "SIZE_CLASSES ! ci"
  let ?a = "slot_addr (slab_frame ?h) ?sz i" and ?fl = "fl(ci := (fl ci)(j := i # fl ci j))"
  note c8 = class_for_SomeD(1) [OF ci]
  note ok = slab_rep_slot_ok [OF heap_repD(4) [OF rep c8 j] c8 i(1)]
  define s1 where "s1 = s\<lparr>MEM := wr64 (MEM s) ?a (free_head ?h)\<rparr>"
  define h where "h = ?h\<lparr>free_head := p2v ?a, free_count := free_count ?h + 1\<rparr>"
  define s2 where "s2 = set_slab ci j h s1"
  have rep2: "heap_rep s2 ?fl"
    using heap_rep_push [OF rep c8 j i] by (simp add: s2_def s1_def h_def)
  have slabs: "SLABS s2 = SLABS (set_slab ci j h s)" by (simp add: s2_def s1_def set_slab_def)
  have at: "slab_at s2 c k = (if c = ci \<and> k = j then h else slab_at s c k)" if "c < 8" for c k
    unfolding slabs using set_slab_at [OF heap_repD(2) [OF rep] heap_repD(3) [OF rep c8] c8 j(1) that] .
  have pages: "slab_page (slab_at s2 c k) = slab_page (slab_at s c k)" if "c < 8" for c k
    using at [OF that] by (simp add: h_def)
  have un2: "unalloc s2 ?fl = unalloc s fl \<union> block ?a ?sz"
    using push_unalloc [OF rep rep2 c8 j pages _ i(1)] by (simp add: s2_def s1_def slot_bytes_block)
  have v: "v2p (p2v ?a) = ?a" "p2v ?a \<noteq> 0" using slot_ok_phys [OF ok] by (simp_all add: v2p_p2v p2v_nonzero)
  have dealloc: "heap_dealloc (p2v ?a) lsize lalign s =
    (if free_count h = capacity h then set_slab ci j slab_empty (free_frame (slab_page h) s1) else s2)"
    using v find_slab_of_slot [OF rep c8 j i(1)] ci
    by (simp add: heap_dealloc_def Let_def s1_def h_def s2_def)
  show ?thesis
  proof (cases "free_count h = capacity h")
    case False
    then show ?thesis using dealloc rep2 un2 unfolding Let_def by auto
  next
    case True
    have h2: "slab_at s2 ci j = h" using at [OF c8] by simp
    have j2: "slab_page (slab_at s2 ci j) \<noteq> 0" using j(2) pages [OF c8] by simp
    have full: "free_count (slab_at s2 ci j) = capacity (slab_at s2 ci j)" using True by (simp add: h2)
    have "set_slab ci j slab_empty (free_frame (slab_page h) s1) =
        set_slab ci j slab_empty (free_frame (slab_page (slab_at s2 ci j)) s2)"
      using heap_repD(2) [OF rep] c8 by (simp add: h2) (simp add: s2_def set_slab_def free_frame_def Let_def s1_def)
    then show ?thesis
      using dealloc True release_slab [OF rep2 c8 j(1) j2 full] un2 unfolding Let_def by auto
  qed
qed

section \<open>An example heap\<close>

lemma heap_new_rep: "pmm_inv (PMM s) \<Longrightarrow> heap_rep (heap_new s) (\<lambda>_ _. [])"
  by (simp add: heap_rep_def heap_new_def slab_empty_def MAX_SLABS_PER_CLASS_def)

lemma heap_example_slab:
  obtains s fl j where "heap_rep s fl" "j < MAX_SLABS_PER_CLASS" "slab_page (slab_at s 1 j) \<noteq> 0"
    "free_count (slab_at s 1 j) > 0"
proof (cases rule: new_slab_spec [OF heap_new_rep [OF pmm_example_inv], of 1])
  case 2
  have "slab_page (slab_at (heap_new pmm_example) 1 0) = 0" "free_set (PMM (heap_new pmm_example)) \<noteq> {}"
    by (simp_all add: heap_new_def pmm_example_free slab_empty_def MAX_SLABS_PER_CLASS_def)
  with 2(2) show ?thesis by (auto simp: MAX_SLABS_PER_CLASS_def)
next
  case (3 j s' fl')
  then show ?thesis by (intro that [of s' fl' j]) auto
qed simp

lemma class_for_example: "class_for (layout_size 24 8) = Some 1"
  by (simp add: class_for_def layout_size_def SIZE_CLASSES_def)

theorem heap_alloc_correct_witness:
  "\<exists>s fl. heap_rep s fl \<and>
    (heap_alloc 24 (2 ^ 3) s = (0, s) \<or>
     (\<exists>a s'. heap_alloc 24 (2 ^ 3) s = (p2v a, s') \<and> p2v a \<noteq> 0 \<and> unat a mod 2 ^ 3 = 0 \<and>
        (\<exists>n\<ge>24. gives s fl a n s')))"
  using heap_alloc_correct [OF heap_new_rep [OF pmm_example_inv], of 3 24]
    heap_new_rep [OF pmm_example_inv] by (intro exI conjI) auto

theorem heap_dealloc_correct_witness:
  "\<exists>s fl a fl'. heap_rep s fl \<and> heap_rep (heap_dealloc (p2v a) 24 8 s) fl' \<and>
     unalloc (heap_dealloc (p2v a) 24 8 s) fl' = unalloc s fl \<union> block a 32"
proof (rule heap_example_slab)
  fix s fl j
  assume o: "heap_rep s fl" "j < MAX_SLABS_PER_CLASS" "slab_page (slab_at s 1 j) \<noteq> 0"
    "free_count (slab_at s 1 j) > 0"
  show ?thesis
  proof (rule take_slot_spec [OF o(1) _ o(2-4)])
    fix i "is" s'
    assume t: "fl 1 j = i # is" "heap_rep s' (fl(1 := (fl 1)(j := is)))" "i \<notin> set is"
      "\<And>ci' j'. ci' < 8 \<Longrightarrow> slab_page (slab_at s' ci' j') = slab_page (slab_at s ci' j')"
    have sz: "SIZE_CLASSES ! 1 = 32" by (simp add: SIZE_CLASSES_def)
    have i: "i < 4096 div (SIZE_CLASSES ! 1)"
      using heap_repD(4) [OF o(1) _ o(2,3)] t(1) by (simp add: slab_rep_def)
    have pg: "slab_page (slab_at s' 1 j) \<noteq> 0" using t(4) [of 1 j] o(3) by simp
    show ?thesis
      using heap_dealloc_correct [OF t(2) class_for_example o(2) pg i] t(2,3)
      unfolding Let_def sz by auto
  qed simp
qed

end
