(* ===== verification/Sync.thy ===== *)
theory Sync
  imports Prelude
begin

text \<open>
  The interrupt-saving spin lock (\<^verbatim>\<open>kernel/src/sync.rs\<close>) as a step relation. Any number of
  processors run \<^verbatim>\<open>lock\<close>, use the protected value and drop the guard; each atomic access of
  the flag and each change of a processor's interrupt flag (\<^verbatim>\<open>arch/amd64/cpu.rs\<close>) is one
  step. \<open>entry\<close> is a history variable: the interrupt flag with which \<^verbatim>\<open>lock\<close> was entered.
\<close>

section \<open>State\<close>

datatype pc =
    Outside
  | Loop
  | ReadFlag bool
  | Disabled bool
  | Failed bool
  | Spinning
  | Critical bool
  | Dropping bool

record cpu =
  pc :: pc
  irq :: bool
  entry :: bool

record 'v spinlock =
  held :: bool
  val :: 'v
  cpus :: "nat \<Rightarrow> cpu"

definition spinlock_new :: "'v \<Rightarrow> (nat \<Rightarrow> bool) \<Rightarrow> 'v spinlock" where
  "spinlock_new v flags =
     \<lparr>held = False, val = v, cpus = (\<lambda>c. \<lparr>pc = Outside, irq = flags c, entry = flags c\<rparr>)\<rparr>"

definition restore_interrupts :: "bool \<Rightarrow> bool" where
  "restore_interrupts enabled = (if enabled then True else False)"

abbreviation set_cpu :: "nat \<Rightarrow> cpu \<Rightarrow> 'v spinlock \<Rightarrow> 'v spinlock" where
  "set_cpu c k s \<equiv> s\<lparr>cpus := (cpus s)(c := k)\<rparr>"

section \<open>Steps\<close>

inductive lock_step :: "'v spinlock \<Rightarrow> 'v spinlock \<Rightarrow> bool" where
  enter: "cpus s c = k \<Longrightarrow> pc k = Outside \<Longrightarrow>
    lock_step s (set_cpu c (k\<lparr>pc := Loop, entry := irq k\<rparr>) s)"
| read_flag: "cpus s c = k \<Longrightarrow> pc k = Loop \<Longrightarrow>
    lock_step s (set_cpu c (k\<lparr>pc := ReadFlag (irq k)\<rparr>) s)"
| cli: "cpus s c = k \<Longrightarrow> pc k = ReadFlag was \<Longrightarrow>
    lock_step s (set_cpu c (k\<lparr>pc := Disabled was, irq := False\<rparr>) s)"
| cas_ok: "cpus s c = k \<Longrightarrow> pc k = Disabled was \<Longrightarrow> \<not> held s \<Longrightarrow>
    lock_step s (set_cpu c (k\<lparr>pc := Critical was\<rparr>) (s\<lparr>held := True\<rparr>))"
| cas_fail: "cpus s c = k \<Longrightarrow> pc k = Disabled was \<Longrightarrow> held s \<Longrightarrow>
    lock_step s (set_cpu c (k\<lparr>pc := Failed was\<rparr>) s)"
| give_up: "cpus s c = k \<Longrightarrow> pc k = Failed was \<Longrightarrow>
    lock_step s (set_cpu c (k\<lparr>pc := Spinning, irq := restore_interrupts was\<rparr>) s)"
| spin: "cpus s c = k \<Longrightarrow> pc k = Spinning \<Longrightarrow> held s \<Longrightarrow> lock_step s s"
| retry: "cpus s c = k \<Longrightarrow> pc k = Spinning \<Longrightarrow> \<not> held s \<Longrightarrow>
    lock_step s (set_cpu c (k\<lparr>pc := Loop\<rparr>) s)"
| access: "cpus s c = k \<Longrightarrow> pc k = Critical was \<Longrightarrow> lock_step s (s\<lparr>val := g (val s)\<rparr>)"
| unlock: "cpus s c = k \<Longrightarrow> pc k = Critical was \<Longrightarrow>
    lock_step s (set_cpu c (k\<lparr>pc := Dropping was\<rparr>) (s\<lparr>held := False\<rparr>))"
| restore: "cpus s c = k \<Longrightarrow> pc k = Dropping was \<Longrightarrow>
    lock_step s (set_cpu c (k\<lparr>pc := Outside, irq := restore_interrupts was\<rparr>) s)"

inductive_cases lock_stepE: "lock_step s t"

section \<open>Invariant\<close>

text \<open>The interrupt flag each point of the code has, given the flag at the entry.\<close>

fun cpu_ok :: "cpu \<Rightarrow> bool" where
  "cpu_ok k =
     (case pc k of
        Outside \<Rightarrow> irq k = entry k
      | Loop \<Rightarrow> irq k = entry k
      | Spinning \<Rightarrow> irq k = entry k
      | ReadFlag was \<Rightarrow> was = entry k \<and> irq k = entry k
      | Disabled was \<Rightarrow> was = entry k \<and> \<not> irq k
      | Failed was \<Rightarrow> was = entry k \<and> \<not> irq k
      | Critical was \<Rightarrow> was = entry k \<and> \<not> irq k
      | Dropping was \<Rightarrow> was = entry k \<and> \<not> irq k)"

definition in_critical :: "'v spinlock \<Rightarrow> nat \<Rightarrow> bool" where
  "in_critical s c \<longleftrightarrow> (\<exists>was. pc (cpus s c) = Critical was)"

definition lock_inv :: "'v spinlock \<Rightarrow> bool" where
  "lock_inv s \<longleftrightarrow> (\<forall>c. cpu_ok (cpus s c)) \<and>
     (\<forall>c d. in_critical s c \<and> in_critical s d \<longrightarrow> c = d) \<and> (held s \<longleftrightarrow> (\<exists>c. in_critical s c))"

lemma lock_inv_new: "lock_inv (spinlock_new v flags)"
  by (simp add: lock_inv_def spinlock_new_def in_critical_def)

lemma lock_inv_cpu: "lock_inv s \<Longrightarrow> cpus s c = k \<Longrightarrow> cpu_ok k"
  by (auto simp: lock_inv_def simp del: cpu_ok.simps)

text \<open>A step of one processor that neither enters nor leaves the critical section.\<close>

lemma lock_inv_local:
  assumes "lock_inv s" "cpu_ok k" "(\<exists>was. pc k = Critical was) \<longleftrightarrow> in_critical s c"
  shows "lock_inv (set_cpu c k s)"
proof -
  have "in_critical (set_cpu c k s) d \<longleftrightarrow> in_critical s d" for d
    using assms(3) by (auto simp: in_critical_def)
  with assms(1,2) show ?thesis by (simp add: lock_inv_def)
qed

lemma lock_inv_step:
  assumes "lock_inv s" "lock_step s t"
  shows "lock_inv t"
  using assms(2)
proof cases
  case (enter c k)
  then show ?thesis using assms(1) by (auto intro!: lock_inv_local simp: in_critical_def)
next
  case (read_flag c k)
  then have "cpu_ok k" by (intro lock_inv_cpu [OF assms(1)])
  with read_flag show ?thesis using assms(1) by (auto intro!: lock_inv_local simp: in_critical_def)
next
  case (cli c k was)
  then have "cpu_ok k" by (intro lock_inv_cpu [OF assms(1)])
  with cli show ?thesis using assms(1) by (auto intro!: lock_inv_local simp: in_critical_def)
next
  case (cas_ok c k was)
  then have "cpu_ok k" by (intro lock_inv_cpu [OF assms(1)])
  have none: "\<forall>d. \<not> in_critical s d" using assms(1) cas_ok by (simp add: lock_inv_def)
  have "in_critical t d \<longleftrightarrow> d = c" for d
    using none cas_ok by (auto simp: in_critical_def)
  with \<open>cpu_ok k\<close> cas_ok assms(1) show ?thesis by (auto simp: lock_inv_def)
next
  case (cas_fail c k was)
  then have "cpu_ok k" by (intro lock_inv_cpu [OF assms(1)])
  with cas_fail show ?thesis using assms(1) by (auto intro!: lock_inv_local simp: in_critical_def)
next
  case (give_up c k was)
  then have "cpu_ok k" by (intro lock_inv_cpu [OF assms(1)])
  with give_up show ?thesis
    using assms(1) by (auto intro!: lock_inv_local simp: in_critical_def restore_interrupts_def)
next
  case (spin c k)
  then show ?thesis using assms(1) by simp
next
  case (retry c k)
  then have "cpu_ok k" by (intro lock_inv_cpu [OF assms(1)])
  with retry show ?thesis using assms(1) by (auto intro!: lock_inv_local simp: in_critical_def)
next
  case (access c k was g)
  then show ?thesis using assms(1) by (simp add: lock_inv_def in_critical_def)
next
  case (unlock c k was)
  then have "cpu_ok k" by (intro lock_inv_cpu [OF assms(1)])
  have "in_critical s c" using unlock by (simp add: in_critical_def)
  then have only: "\<forall>d. in_critical s d \<longrightarrow> d = c" using assms(1) by (simp add: lock_inv_def)
  have "\<not> in_critical t d" for d
    using only unlock by (auto simp: in_critical_def)
  with \<open>cpu_ok k\<close> unlock assms(1) show ?thesis by (auto simp: lock_inv_def)
next
  case (restore c k was)
  then have "cpu_ok k" by (intro lock_inv_cpu [OF assms(1)])
  with restore show ?thesis
    using assms(1) by (auto intro!: lock_inv_local simp: in_critical_def restore_interrupts_def)
qed

section \<open>Properties\<close>

text \<open>C10: mutual exclusion and interrupt safety. In every state reachable from an unlocked lock
  at most one processor is in its critical section, the flag is set exactly when one is, a
  processor inside runs with interrupts off, and a processor outside has the interrupt flag with
  which it entered \<^verbatim>\<open>lock\<close>.\<close>

theorem spinlock_safe:
  assumes "lock_step\<^sup>*\<^sup>* (spinlock_new v flags) s"
  shows "(\<forall>c d. in_critical s c \<and> in_critical s d \<longrightarrow> c = d) \<and>
    (held s \<longleftrightarrow> (\<exists>c. in_critical s c)) \<and>
    (\<forall>c. in_critical s c \<longrightarrow> \<not> irq (cpus s c)) \<and>
    (\<forall>c. pc (cpus s c) = Outside \<longrightarrow> irq (cpus s c) = entry (cpus s c))"
proof -
  have inv: "lock_inv s"
    using assms by induction (auto intro: lock_inv_new lock_inv_step)
  then have "\<not> irq (cpus s c)" if "in_critical s c" for c
    using that by (auto simp: lock_inv_def in_critical_def dest: spec [of _ c])
  moreover have "irq (cpus s c) = entry (cpus s c)" if "pc (cpus s c) = Outside" for c
    using that inv by (auto simp: lock_inv_def dest: spec [of _ c])
  ultimately show ?thesis using inv by (auto simp: lock_inv_def)
qed

theorem spinlock_safe_witness:
  "\<exists>s :: nat spinlock. in_critical s 0 \<and> \<not> irq (cpus s 0) \<and> (\<forall>d. in_critical s d \<longrightarrow> 0 = d)"
proof -
  let ?init = "spinlock_new (7::nat) (\<lambda>_. True)"
  let ?k = "\<lambda>p i. \<lparr>pc = p, irq = i, entry = True\<rparr>"
  let ?s = "set_cpu 0 (?k (Critical True) False) (?init\<lparr>held := True\<rparr>)"
  have "lock_step ?init (set_cpu 0 (?k Loop True) ?init)"
    using enter [of ?init 0 "?k Outside True"] by (simp add: spinlock_new_def)
  moreover have "lock_step (set_cpu 0 (?k Loop True) ?init) (set_cpu 0 (?k (ReadFlag True) True) ?init)"
    using read_flag [of "set_cpu 0 (?k Loop True) ?init" 0 "?k Loop True"] by (simp add: spinlock_new_def)
  moreover have "lock_step (set_cpu 0 (?k (ReadFlag True) True) ?init) (set_cpu 0 (?k (Disabled True) False) ?init)"
    using cli [of "set_cpu 0 (?k (ReadFlag True) True) ?init" 0 "?k (ReadFlag True) True" True]
    by (simp add: spinlock_new_def)
  moreover have "lock_step (set_cpu 0 (?k (Disabled True) False) ?init) ?s"
    using cas_ok [of "set_cpu 0 (?k (Disabled True) False) ?init" 0 "?k (Disabled True) False" True]
    by (simp add: spinlock_new_def)
  ultimately have reach: "lock_step\<^sup>*\<^sup>* ?init ?s" by (meson converse_rtranclp_into_rtranclp rtranclp.rtrancl_refl)
  have "in_critical ?s 0" unfolding in_critical_def by (rule exI [of _ True]) simp
  with spinlock_safe [OF reach] show ?thesis by blast
qed

end
