(* ===== verification/RamFs.thy ===== *)
theory RamFs
  imports Prelude
begin

text \<open>
  The in-memory file system: the flat table of named files (\<^verbatim>\<open>kernel/src/fs.rs\<close>), the
  functions the rest of the kernel uses (\<^verbatim>\<open>vfs.rs\<close>) and the index-based helpers of the
  system-call layer (\<^verbatim>\<open>syscall/fs.rs\<close>). A file name is a sequence of \<^verbatim>\<open>char\<close>s that
  come from single bytes, so it is a \<open>string\<close>. Lengths of files are natural numbers; offsets
  and counts that users supply are 64-bit words, and sums of them wrap. A vector that would
  have to grow beyond \<^verbatim>\<open>isize::MAX\<close> bytes panics; smaller allocations are assumed to
  succeed.
\<close>

section \<open>The table of files\<close>

record ram_file =
  file_name :: string
  file_data :: "u8 list"

type_synonym ramfs = "ram_file list"

definition ramfs_create :: "string \<Rightarrow> ramfs \<Rightarrow> bool \<times> ramfs" where
  "ramfs_create name fs =
     (if name = [] then (False, fs)
      else if \<exists>f\<in>set fs. file_name f = name then (False, fs)
      else (True, fs @ [\<lparr>file_name = name, file_data = []\<rparr>]))"

definition ramfs_find_idx :: "string \<Rightarrow> ramfs \<Rightarrow> nat option" where
  "ramfs_find_idx name fs = position (\<lambda>f. file_name f = name) fs"

definition ramfs_find :: "string \<Rightarrow> ramfs \<Rightarrow> ram_file option" where
  "ramfs_find name fs = find (\<lambda>f. file_name f = name) fs"

definition ramfs_remove :: "string \<Rightarrow> ramfs \<Rightarrow> bool \<times> ramfs" where
  "ramfs_remove name fs =
     (case position (\<lambda>f. file_name f = name) fs of
        Some idx \<Rightarrow> (True, take idx fs @ drop (idx + 1) fs)
      | None \<Rightarrow> (False, fs))"

text \<open>\<^verbatim>\<open>find_mut\<close>: update the first file of that name.\<close>

definition ramfs_modify :: "string \<Rightarrow> (u8 list \<Rightarrow> u8 list) \<Rightarrow> ramfs \<Rightarrow> bool \<times> ramfs" where
  "ramfs_modify name g fs =
     (case ramfs_find_idx name fs of
        Some idx \<Rightarrow> (True, fs[idx := (fs ! idx)\<lparr>file_data := g (file_data (fs ! idx))\<rparr>])
      | None \<Rightarrow> (False, fs))"

section \<open>The global file system\<close>

definition vfs_init :: "ramfs option \<Rightarrow> ramfs option" where
  "vfs_init fs = Some []"

definition with_fs :: "(ramfs \<Rightarrow> 'r) \<Rightarrow> ramfs option \<Rightarrow> 'r option" where
  "with_fs f fs = map_option f fs"

definition with_fs_mut :: "(ramfs \<Rightarrow> 'r \<times> ramfs) \<Rightarrow> ramfs option \<Rightarrow> 'r option \<times> ramfs option" where
  "with_fs_mut f fs =
     (case fs of None \<Rightarrow> (None, None) | Some r \<Rightarrow> (let (x, r') = f r in (Some x, Some r')))"

definition unwrap_or_false :: "bool option \<times> 's \<Rightarrow> bool \<times> 's" where
  "unwrap_or_false p = (case p of (None, s) \<Rightarrow> (False, s) | (Some b, s) \<Rightarrow> (b, s))"

definition vfs_create :: "string \<Rightarrow> ramfs option \<Rightarrow> bool \<times> ramfs option" where
  "vfs_create name fs = unwrap_or_false (with_fs_mut (ramfs_create name) fs)"

definition vfs_find :: "string \<Rightarrow> ramfs option \<Rightarrow> ram_file option" where
  "vfs_find name fs = Option.bind fs (ramfs_find name)"

definition clone_bytes :: "string \<Rightarrow> ramfs option \<Rightarrow> u8 list option" where
  "clone_bytes name fs = Option.bind fs (\<lambda>r. map_option file_data (ramfs_find name r))"

definition read_range :: "nat \<Rightarrow> usize \<Rightarrow> usize \<Rightarrow> ramfs option \<Rightarrow> u8 list option" where
  "read_range file_idx offset len fs =
     Option.bind fs (\<lambda>r.
       if file_idx < length r then
         let d = file_data (r ! file_idx);
             start = min offset (of_nat (length d));
             fin = min (saturating_add start len) (of_nat (length d))
         in Some (take (unat fin - unat start) (drop (unat start) d))
       else None)"

definition append_all :: "string \<Rightarrow> u8 list \<Rightarrow> ramfs option \<Rightarrow> bool \<times> ramfs option" where
  "append_all name bytes fs = unwrap_or_false (with_fs_mut (ramfs_modify name (\<lambda>d. d @ bytes)) fs)"

definition vfs_remove :: "string \<Rightarrow> ramfs option \<Rightarrow> bool \<times> ramfs option" where
  "vfs_remove name fs = unwrap_or_false (with_fs_mut (ramfs_remove name) fs)"

definition replace_all :: "string \<Rightarrow> u8 list \<Rightarrow> ramfs option \<Rightarrow> bool \<times> ramfs option" where
  "replace_all name bytes fs = unwrap_or_false (with_fs_mut (ramfs_modify name (\<lambda>_. bytes)) fs)"

definition vfs_list :: "ramfs option \<Rightarrow> ram_file list option" where
  "vfs_list fs = with_fs (\<lambda>r. r) fs"

section \<open>Access by index\<close>

definition fs_find_idx :: "string \<Rightarrow> ramfs option \<Rightarrow> nat option" where
  "fs_find_idx name fs = Option.bind fs (ramfs_find_idx name)"

definition fs_file_size :: "nat \<Rightarrow> ramfs option \<Rightarrow> nat" where
  "fs_file_size file_idx fs =
     (case fs of
        Some r \<Rightarrow> if file_idx < length r then length (file_data (r ! file_idx)) else 0
      | None \<Rightarrow> 0)"

text \<open>The bytes \<^verbatim>\<open>fs_read\<close> copies to its buffer; their number is its result.\<close>

definition fs_read :: "nat \<Rightarrow> usize \<Rightarrow> usize \<Rightarrow> ramfs option \<Rightarrow> u8 list" where
  "fs_read file_idx offset count fs =
     (case fs of
        None \<Rightarrow> []
      | Some r \<Rightarrow>
          if file_idx \<ge> length r then []
          else let d = file_data (r ! file_idx);
                   available = length d - unat offset;
                   to_read = min (unat count) available
               in if to_read = 0 then [] else take to_read (drop (unat offset) d))"

definition fs_read_to_vec :: "nat \<Rightarrow> usize \<Rightarrow> usize \<Rightarrow> ramfs option \<Rightarrow> (ramfs option, u8 list option) outcome" where
  "fs_read_to_vec file_idx offset count fs =
     (case fs of
        None \<Rightarrow> Done None fs
      | Some r \<Rightarrow>
          if file_idx \<ge> length r then Done None fs
          else let d = file_data (r ! file_idx);
                   available = length d - unat offset;
                   to_read = min (unat count) available
               in if unat offset > length d then Panicked
                  else Done (Some (take to_read (drop (unat offset) d))) fs)"

definition ISIZE_MAX :: nat where
  "ISIZE_MAX = 2 ^ 63 - 1"

text \<open>\<^verbatim>\<open>Vec::resize(n, 0)\<close>\<close>

definition resize :: "nat \<Rightarrow> u8 list \<Rightarrow> u8 list" where
  "resize n d = take n d @ replicate (n - length d) 0"

definition fs_write_at :: "nat \<Rightarrow> usize \<Rightarrow> u8 list \<Rightarrow> ramfs option \<Rightarrow> (ramfs option, bool) outcome" where
  "fs_write_at file_idx offset bytes fs =
     (case fs of
        None \<Rightarrow> Done False fs
      | Some r \<Rightarrow>
          if file_idx \<ge> length r then Done False fs
          else let f = r ! file_idx;
                   fin = offset + of_nat (length bytes);
                   grow = fin > of_nat (length (file_data f));
                   d = (if grow then resize (unat fin) (file_data f) else file_data f)
               in if grow \<and> unat fin > ISIZE_MAX then Panicked
                  else if unat offset > unat fin \<or> unat fin > length d then Panicked
                  else Done True
                    (Some (r[file_idx := f\<lparr>file_data := take (unat offset) d @ bytes @ drop (unat fin) d\<rparr>])))"

definition fs_resize :: "nat \<Rightarrow> usize \<Rightarrow> ramfs option \<Rightarrow> (ramfs option, bool) outcome" where
  "fs_resize file_idx len fs =
     (case fs of
        None \<Rightarrow> Done False fs
      | Some r \<Rightarrow>
          if file_idx \<ge> length r then Done False fs
          else if unat len > ISIZE_MAX then Panicked
          else let f = r ! file_idx
               in Done True (Some (r[file_idx := f\<lparr>file_data := resize (unat len) (file_data f)\<rparr>])))"

section \<open>The file system as a map\<close>

definition fs_map :: "ramfs \<Rightarrow> string \<rightharpoonup> u8 list" where
  "fs_map fs = map_of (map (\<lambda>f. (file_name f, file_data f)) fs)"

text \<open>No two files share a name and no name is empty.\<close>

definition ramfs_inv :: "ramfs \<Rightarrow> bool" where
  "ramfs_inv fs \<longleftrightarrow> distinct (map file_name fs) \<and> [] \<notin> set (map file_name fs)"

lemma fs_map_None_iff: "fs_map fs name = None \<longleftrightarrow> name \<notin> file_name ` set fs"
  by (simp add: fs_map_def map_of_eq_None_iff image_image comp_def)

lemma ramfs_find_map: "map_option file_data (ramfs_find name fs) = fs_map fs name"
  by (induction fs) (simp_all add: ramfs_find_def fs_map_def)

lemma fs_map_nth: "ramfs_inv fs \<Longrightarrow> i < length fs \<Longrightarrow> fs_map fs (file_name (fs ! i)) = Some (file_data (fs ! i))"
  unfolding fs_map_def ramfs_inv_def
  by (rule map_of_is_SomeI) (auto simp: comp_def intro: image_eqI nth_mem)

lemma position_name:
  assumes "ramfs_inv fs"
  shows "position (\<lambda>f. file_name f = name) fs = Some i \<longleftrightarrow> i < length fs \<and> file_name (fs ! i) = name"
proof
  assume a: "i < length fs \<and> file_name (fs ! i) = name"
  have "file_name (fs ! j) \<noteq> name" if "j < i" for j
    using that a assms nth_eq_iff_index_eq [of "map file_name fs" j i] by (simp add: ramfs_inv_def)
  with a show "position (\<lambda>f. file_name f = name) fs = Some i" by (simp add: position_Some_iff)
qed (simp add: position_Some_iff)

lemma fs_map_append: "fs_map (xs @ ys) = fs_map ys ++ fs_map xs"
  by (simp add: fs_map_def)

lemma create_refines:
  assumes "ramfs_inv fs"
  shows "ramfs_inv (snd (ramfs_create name fs))"
    and "fst (ramfs_create name fs) \<longleftrightarrow> name \<noteq> [] \<and> fs_map fs name = None"
    and "fs_map (snd (ramfs_create name fs)) =
      (if fst (ramfs_create name fs) then (fs_map fs)(name \<mapsto> []) else fs_map fs)"
proof -
  have ex: "(\<exists>f\<in>set fs. file_name f = name) \<longleftrightarrow> fs_map fs name \<noteq> None"
    by (auto simp: fs_map_None_iff)
  show "ramfs_inv (snd (ramfs_create name fs))"
    using assms by (auto simp: ramfs_create_def ramfs_inv_def)
  show "fst (ramfs_create name fs) \<longleftrightarrow> name \<noteq> [] \<and> fs_map fs name = None"
    by (auto simp: ramfs_create_def ex simp del: not_None_eq)
  show "fs_map (snd (ramfs_create name fs)) =
      (if fst (ramfs_create name fs) then (fs_map fs)(name \<mapsto> []) else fs_map fs)"
  proof (cases "fst (ramfs_create name fs)")
    case True
    then have "name \<noteq> []" and none: "\<not> (\<exists>f\<in>set fs. file_name f = name)"
      by (auto simp: ramfs_create_def split: if_splits)
    then have "snd (ramfs_create name fs) = fs @ [\<lparr>file_name = name, file_data = []\<rparr>]"
      by (simp add: ramfs_create_def)
    moreover have "fs_map fs name = None" using none ex by simp
    ultimately show ?thesis
      using True by (auto simp: fs_map_append fun_eq_iff map_add_def fs_map_def [of "[_]"] split: option.splits)
  qed (auto simp: ramfs_create_def split: if_splits)
qed

lemma update_data_names: "map file_name (fs[i := (fs ! i)\<lparr>file_data := d\<rparr>]) = map file_name fs"
  by (cases "i < length fs")
    (auto intro!: nth_equalityI simp: nth_list_update list_update_beyond not_less)

lemma update_data_inv:
  "ramfs_inv fs \<Longrightarrow> ramfs_inv (fs[i := (fs ! i)\<lparr>file_data := d\<rparr>])"
  unfolding ramfs_inv_def update_data_names .

lemma update_data_map:
  assumes "ramfs_inv fs" "i < length fs"
  shows "fs_map (fs[i := (fs ! i)\<lparr>file_data := d\<rparr>]) = (fs_map fs)(file_name (fs ! i) \<mapsto> d)"
proof
  fix name
  let ?fs = "fs[i := (fs ! i)\<lparr>file_data := d\<rparr>]"
  note inv' = update_data_inv [OF assms(1), of i d]
  note names = update_data_names [of fs i d]
  show "fs_map ?fs name = ((fs_map fs)(file_name (fs ! i) \<mapsto> d)) name"
  proof (cases "name \<in> file_name ` set fs")
    case False
    then have "name \<notin> file_name ` set ?fs" using arg_cong [OF names, of set] by simp
    with False assms(2) show ?thesis by (auto simp: fs_map_None_iff [THEN iffD2])
  next
    case True
    then obtain k where k: "k < length fs" "name = file_name (fs ! k)" by (auto simp: in_set_conv_nth)
    have "file_name (?fs ! k) = file_name (fs ! k)" using assms(2) by (simp add: nth_list_update)
    then have "fs_map ?fs name = Some (file_data (?fs ! k))"
      using fs_map_nth [OF inv', of k] k by simp
    moreover have "file_name (fs ! k) = file_name (fs ! i) \<longleftrightarrow> k = i"
      using assms k(1) nth_eq_iff_index_eq [of "map file_name fs" k i] by (simp add: ramfs_inv_def)
    ultimately show ?thesis using k assms(2) fs_map_nth [OF assms(1) k(1)] by (auto simp: nth_list_update)
  qed
qed

lemma modify_refines:
  assumes "ramfs_inv fs"
  shows "ramfs_inv (snd (ramfs_modify name g fs)) \<and>
    (case fs_map fs name of
       None \<Rightarrow> ramfs_modify name g fs = (False, fs)
     | Some d \<Rightarrow> fst (ramfs_modify name g fs) \<and> fs_map (snd (ramfs_modify name g fs)) = (fs_map fs)(name \<mapsto> g d))"
proof (cases "ramfs_find_idx name fs")
  case None
  then have "fs_map fs name = None"
    by (auto simp: ramfs_find_idx_def position_None_iff fs_map_None_iff)
  with None assms show ?thesis by (simp add: ramfs_modify_def)
next
  case (Some i)
  then have i: "i < length fs" "file_name (fs ! i) = name"
    using position_name [OF assms] by (simp_all add: ramfs_find_idx_def)
  then show ?thesis
    using Some assms update_data_inv [OF assms] update_data_map [OF assms i(1)] fs_map_nth [OF assms i(1)]
    by (auto simp: ramfs_modify_def)
qed

lemma remove_refines:
  assumes "ramfs_inv fs"
  shows "ramfs_inv (snd (ramfs_remove name fs)) \<and>
    fst (ramfs_remove name fs) = (fs_map fs name \<noteq> None) \<and>
    fs_map (snd (ramfs_remove name fs)) = (fs_map fs)(name := None)"
proof (cases "position (\<lambda>f. file_name f = name) fs")
  case None
  then have "fs_map fs name = None" by (auto simp: position_None_iff fs_map_None_iff)
  moreover have "ramfs_remove name fs = (False, fs)" using None by (simp add: ramfs_remove_def)
  ultimately show ?thesis using assms by (auto simp: fun_eq_iff)
next
  case (Some i)
  then have i: "i < length fs" "file_name (fs ! i) = name" using position_name [OF assms] by simp_all
  obtain pre f post where fs: "fs = pre @ f # post" "pre = take i fs" "post = drop (Suc i) fs" "f = fs ! i"
    using id_take_nth_drop [OF i(1)] by blast
  have rem: "ramfs_remove name fs = (True, pre @ post)"
    using Some by (simp add: ramfs_remove_def fs(2,3))
  have f: "file_name f = name" using i(2) fs(4) by simp
  have "ramfs_inv (pre @ f # post)" using assms fs(1) by simp
  then have nin: "name \<notin> file_name ` set pre" "name \<notin> file_name ` set post" "ramfs_inv (pre @ post)"
    using f by (auto simp: ramfs_inv_def)
  then have none: "fs_map pre name = None" "fs_map post name = None" by (simp_all add: fs_map_None_iff)
  have "fs_map (pre @ f # post) = (fs_map (pre @ post))(name \<mapsto> file_data f)"
    using none f
    by (auto simp: fs_map_append fun_eq_iff map_add_def fs_map_def [of "f # post"] fs_map_def [of post, symmetric]
        split: option.splits)
  then have "fs_map fs = (fs_map (pre @ post))(name \<mapsto> file_data f)" by (simp flip: fs(1))
  moreover have "fs_map (pre @ post) name = None" using none by (simp add: fs_map_append map_add_def)
  ultimately show ?thesis using rem nin(3) by (auto simp: fun_eq_iff)
qed

section \<open>Reading and writing at an offset\<close>

lemma length_resize [simp]: "length (resize n d) = n"
  by (simp add: resize_def)

lemma resize_grow: "length d \<le> n \<Longrightarrow> resize n d = d @ replicate (n - length d) 0"
  by (simp add: resize_def)

text \<open>Writing inside the range of a vector: no sum wraps and nothing panics.\<close>

lemma fs_write_at_ok:
  assumes "i < length r" "unat offset + length bytes \<le> ISIZE_MAX" "length (file_data (r ! i)) \<le> ISIZE_MAX"
  defines "old \<equiv> file_data (r ! i)"
  defines "d \<equiv> resize (max (length old) (unat offset + length bytes)) old"
  shows "fs_write_at i offset bytes (Some r) =
    Done True (Some (r[i := (r ! i)\<lparr>file_data :=
      take (unat offset) d @ bytes @ drop (unat offset + length bytes) d\<rparr>]))"
proof -
  have lim: "n < 2 ^ 64" if "n \<le> ISIZE_MAX" for n :: nat using that by (simp add: ISIZE_MAX_def)
  have fin: "unat (offset + of_nat (length bytes)) = unat offset + length bytes"
    using lim [OF assms(2)] by (simp add: unat_word_ariths unat_of_nat)
  have old: "unat (of_nat (length old) :: u64) = length old"
    using lim assms(3) by (simp add: unat_of_nat old_def)
  have grow: "offset + of_nat (length bytes) > of_nat (length old) \<longleftrightarrow> length old < unat offset + length bytes"
    unfolding word_less_nat_alt fin old ..
  have d: "d = (if length old < unat offset + length bytes then resize (unat offset + length bytes) old else old)"
    by (auto simp: d_def max_def resize_def)
  show ?thesis
    using assms(1,2) by (simp add: fs_write_at_def Let_def fin grow flip: old_def) (simp add: d)
qed

lemma written_nth:
  assumes "length d = max n (o1 + length bytes)" "k < length d"
  shows "(take o1 d @ bytes @ drop (o1 + length bytes) d) ! k =
    (if o1 \<le> k \<and> k < o1 + length bytes then bytes ! (k - o1) else d ! k)"
  using assms by (auto simp: nth_append min_def max_def split: if_splits)

section \<open>Properties\<close>

text \<open>C26: the file system is a map from names to contents. From a table without duplicate or
  empty names every operation of \<^verbatim>\<open>vfs.rs\<close> keeps that invariant and does to the map what its
  name says: create adds an empty file for a new nonempty name, remove deletes, append and
  replace update exactly that file, and reading returns the contents; the result tells whether
  it happened.\<close>

theorem vfs_refines_map:
  assumes "ramfs_inv r"
  shows "(let (b, fs) = vfs_create name (Some r)
      in \<exists>r'. fs = Some r' \<and> ramfs_inv r' \<and> b = (name \<noteq> [] \<and> name \<notin> dom (fs_map r)) \<and>
           fs_map r' = (if b then (fs_map r)(name \<mapsto> []) else fs_map r)) \<and>
    (let (b, fs) = vfs_remove name (Some r)
      in \<exists>r'. fs = Some r' \<and> ramfs_inv r' \<and> b = (name \<in> dom (fs_map r)) \<and> fs_map r' = (fs_map r)(name := None)) \<and>
    (let (b, fs) = append_all name bytes (Some r)
      in \<exists>r'. fs = Some r' \<and> ramfs_inv r' \<and> b = (name \<in> dom (fs_map r)) \<and>
           fs_map r' = (if b then (fs_map r)(name \<mapsto> the (fs_map r name) @ bytes) else fs_map r)) \<and>
    (let (b, fs) = replace_all name bytes (Some r)
      in \<exists>r'. fs = Some r' \<and> ramfs_inv r' \<and> b = (name \<in> dom (fs_map r)) \<and>
           fs_map r' = (if b then (fs_map r)(name \<mapsto> bytes) else fs_map r)) \<and>
    clone_bytes name (Some r) = fs_map r name"
proof -
  note c = create_refines [OF assms, of name] and d = remove_refines [OF assms, of name]
  note m = modify_refines [OF assms, of name]
  have "clone_bytes name (Some r) = fs_map r name" by (simp add: clone_bytes_def ramfs_find_map)
  moreover have "let (b, fs) = vfs_create name (Some r)
      in \<exists>r'. fs = Some r' \<and> ramfs_inv r' \<and> b = (name \<noteq> [] \<and> name \<notin> dom (fs_map r)) \<and>
           fs_map r' = (if b then (fs_map r)(name \<mapsto> []) else fs_map r)"
    using c by (auto simp: vfs_create_def with_fs_mut_def unwrap_or_false_def split_beta Let_def)
  moreover have "let (b, fs) = vfs_remove name (Some r)
      in \<exists>r'. fs = Some r' \<and> ramfs_inv r' \<and> b = (name \<in> dom (fs_map r)) \<and> fs_map r' = (fs_map r)(name := None)"
    using d by (auto simp: vfs_remove_def with_fs_mut_def unwrap_or_false_def split_beta Let_def)
  moreover have "let (b, fs) = append_all name bytes (Some r)
      in \<exists>r'. fs = Some r' \<and> ramfs_inv r' \<and> b = (name \<in> dom (fs_map r)) \<and>
           fs_map r' = (if b then (fs_map r)(name \<mapsto> the (fs_map r name) @ bytes) else fs_map r)"
    using m [of "\<lambda>d. d @ bytes"]
    by (auto simp: append_all_def with_fs_mut_def unwrap_or_false_def split_beta Let_def dom_def split: option.splits)
  moreover have "let (b, fs) = replace_all name bytes (Some r)
      in \<exists>r'. fs = Some r' \<and> ramfs_inv r' \<and> b = (name \<in> dom (fs_map r)) \<and>
           fs_map r' = (if b then (fs_map r)(name \<mapsto> bytes) else fs_map r)"
    using m [of "\<lambda>_. bytes"]
    by (auto simp: replace_all_def with_fs_mut_def unwrap_or_false_def split_beta Let_def dom_def split: option.splits)
  ultimately show ?thesis by blast
qed

theorem vfs_refines_map_witness:
  "ramfs_inv [\<lparr>file_name = ''a'', file_data = [1, 2]\<rparr>] \<and>
   clone_bytes ''a'' (Some [\<lparr>file_name = ''a'', file_data = [1, 2]\<rparr>]) = Some [1, 2]"
proof -
  have inv: "ramfs_inv [\<lparr>file_name = ''a'', file_data = [1, 2]\<rparr>]" by (simp add: ramfs_inv_def)
  have "clone_bytes ''a'' (Some [\<lparr>file_name = ''a'', file_data = [1, 2]\<rparr>]) =
      fs_map [\<lparr>file_name = ''a'', file_data = [1, 2]\<rparr>] ''a''"
    using vfs_refines_map [OF inv, of "''a''" "[]"] by blast
  with inv show ?thesis by (simp add: fs_map_def)
qed

text \<open>C27: what is written is what is read. A write at an offset within the size limit succeeds;
  the file's new length is the larger of the old one and the end of the write, the written range
  holds the bytes, the rest is unchanged and a gap is filled with zeros; reading the range back
  returns the bytes; no other file changes.\<close>

theorem fs_write_at_read:
  assumes "i < length r" "unat offset + length bytes \<le> ISIZE_MAX" "length (file_data (r ! i)) \<le> ISIZE_MAX"
  shows "\<exists>r'. fs_write_at i offset bytes (Some r) = Done True (Some r') \<and> length r' = length r \<and>
    (\<forall>j<length r. j \<noteq> i \<longrightarrow> r' ! j = r ! j) \<and> file_name (r' ! i) = file_name (r ! i) \<and>
    fs_file_size i (Some r') = max (length (file_data (r ! i))) (unat offset + length bytes) \<and>
    (\<forall>k<fs_file_size i (Some r'). file_data (r' ! i) ! k =
       (if unat offset \<le> k \<and> k < unat offset + length bytes then bytes ! (k - unat offset)
        else if k < length (file_data (r ! i)) then file_data (r ! i) ! k else 0)) \<and>
    fs_read i offset (of_nat (length bytes)) (Some r') = bytes"
proof -
  let ?old = "file_data (r ! i)"
  define d where "d = resize (max (length ?old) (unat offset + length bytes)) ?old"
  define new where "new = take (unat offset) d @ bytes @ drop (unat offset + length bytes) d"
  let ?r = "r[i := (r ! i)\<lparr>file_data := new\<rparr>]"
  have w: "fs_write_at i offset bytes (Some r) = Done True (Some ?r)"
    unfolding new_def d_def by (rule fs_write_at_ok [OF assms])
  have len: "length d = max (length ?old) (unat offset + length bytes)" by (simp add: d_def)
  then have lnew: "length new = length d" by (auto simp: new_def)
  have nth: "new ! k = (if unat offset \<le> k \<and> k < unat offset + length bytes then bytes ! (k - unat offset)
      else if k < length ?old then ?old ! k else 0)" if "k < length new" for k
  proof -
    have "d ! k = (if k < length ?old then ?old ! k else 0)"
      using that lnew len by (auto simp: d_def resize_def nth_append)
    then show ?thesis using written_nth [OF len] that lnew by (simp add: new_def)
  qed
  have cnt: "unat (of_nat (length bytes) :: u64) = length bytes"
    using assms(2) by (simp add: unat_of_nat ISIZE_MAX_def)
  have "fs_read i offset (of_nat (length bytes)) (Some ?r) = bytes"
  proof -
    have "length new - unat offset \<ge> length bytes" using lnew len by simp
    moreover have "take (length bytes) (drop (unat offset) new) = bytes"
      using len by (simp add: new_def)
    ultimately show ?thesis using assms(1) by (simp add: fs_read_def cnt Let_def min_def)
  qed
  then show ?thesis
    using w nth lnew len assms(1) by (intro exI [of _ ?r]) (simp add: fs_file_size_def nth_list_update)
qed

theorem fs_write_at_read_witness:
  "\<exists>r'. fs_write_at 0 2 [5, 6] (Some [\<lparr>file_name = ''a'', file_data = [1]\<rparr>]) = Done True (Some r') \<and>
     fs_read 0 2 (of_nat (length [5::u8, 6])) (Some r') = [5, 6]"
  using fs_write_at_read [of 0 "[\<lparr>file_name = ''a'', file_data = [1]\<rparr>]" 2 "[5, 6]"]
  by (auto simp: ISIZE_MAX_def)

end
