(* ===== verification/Fifo.thy ===== *)
theory Fifo
  imports Prelude
begin

text \<open>
  Bounded first-in first-out queues. The kernel has three of them, each written as a ring
  over a fixed array: the key buffer (\<^verbatim>\<open>hw/kbd_buffer.rs\<close>), the cooked buffer of the
  terminal (\<^verbatim>\<open>hw/tty.rs\<close>) and the pipe buffer (\<^verbatim>\<open>proc/fd_pipe.rs\<close>). The locale states
  what their users rely on; the ring lemmas are what the three interpretations share.
\<close>

section \<open>Rings\<close>

definition ring_list :: "'a list \<Rightarrow> nat \<Rightarrow> nat \<Rightarrow> 'a list" where
  "ring_list buf start n = map (\<lambda>i. buf ! ((start + i) mod length buf)) [0..<n]"

lemma length_ring_list [simp]: "length (ring_list buf start n) = n"
  by (simp add: ring_list_def)

lemma ring_list_0 [simp]: "ring_list buf start 0 = []"
  by (simp add: ring_list_def)

lemma ring_list_cong:
  assumes "length buf = length buf'"
    and "\<And>i. i < n \<Longrightarrow> buf ! ((start + i) mod length buf) = buf' ! ((start + i) mod length buf)"
  shows "ring_list buf start n = ring_list buf' start n"
  using assms by (simp add: ring_list_def)

lemma mod_window_distinct:
  fixes c :: nat
  assumes "i < n" "n < c"
  shows "(st + i) mod c \<noteq> (st + n) mod c"
proof
  assume "(st + i) mod c = (st + n) mod c"
  then have "c dvd (st + n) - (st + i)" by (metis mod_eq_dvd_iff_nat add_le_cancel_left assms(1) less_imp_le)
  then have "c dvd n - i" by simp
  with assms show False by (auto dest: dvd_imp_le)
qed

lemma ring_list_push:
  assumes "n < length buf"
  shows "ring_list (buf[(start + n) mod length buf := x]) start (Suc n) =
    ring_list buf start n @ [x]"
proof -
  let ?b = "buf[(start + n) mod length buf := x]"
  have "ring_list ?b start n = ring_list buf start n"
    using assms mod_window_distinct [of _ n "length buf" start]
    by (intro ring_list_cong) (simp, metis length_list_update nth_list_update_neq)
  moreover have "(start + n) mod length buf < length buf"
    using assms by (intro mod_less_divisor) (rule le_less_trans [of 0 n], simp_all)
  ultimately show ?thesis by (simp add: ring_list_def)
qed

lemma ring_list_pop:
  assumes "start < length buf"
  shows "ring_list buf start (Suc n) = buf ! start # ring_list buf (Suc start mod length buf) n"
proof -
  have "(start + Suc i) mod length buf = (Suc start mod length buf + i) mod length buf" for i
    by (simp add: mod_add_left_eq)
  moreover have "[0..<Suc n] = 0 # map Suc [0..<n]" by (simp add: upt_conv_Cons map_Suc_upt)
  ultimately show ?thesis using assms by (simp add: ring_list_def comp_def del: upt_Suc)
qed

text \<open>A ring with a head and a tail index holds \<open>(head - tail) mod capacity\<close> elements.\<close>

definition ring_count :: "nat \<Rightarrow> nat \<Rightarrow> nat \<Rightarrow> nat" where
  "ring_count cap head tail = (if tail \<le> head then head - tail else head + cap - tail)"

lemma ring_count_less: "head < cap \<Longrightarrow> tail < cap \<Longrightarrow> ring_count cap head tail < cap"
  by (auto simp: ring_count_def)

lemma ring_count_0_iff:
  "head < cap \<Longrightarrow> tail < cap \<Longrightarrow> ring_count cap head tail = 0 \<longleftrightarrow> head = tail"
  by (auto simp: ring_count_def)

lemma ring_count_head:
  "head < cap \<Longrightarrow> tail < cap \<Longrightarrow> (tail + ring_count cap head tail) mod cap = head"
  by (auto simp: ring_count_def)

lemma Suc_mod_cases:
  "i < (cap::nat) \<Longrightarrow> Suc i mod cap = (if Suc i = cap then 0 else Suc i)"
  by auto

lemma ring_count_full_iff:
  "head < cap \<Longrightarrow> tail < cap \<Longrightarrow>
   Suc head mod cap = tail \<longleftrightarrow> ring_count cap head tail = cap - 1"
  by (auto simp: ring_count_def Suc_mod_cases)

lemma ring_count_push:
  "head < cap \<Longrightarrow> tail < cap \<Longrightarrow> Suc head mod cap \<noteq> tail \<Longrightarrow>
   ring_count cap (Suc head mod cap) tail = Suc (ring_count cap head tail)"
  by (auto simp: ring_count_def Suc_mod_cases)

lemma ring_count_pop:
  "head < cap \<Longrightarrow> tail < cap \<Longrightarrow> head \<noteq> tail \<Longrightarrow>
   ring_count cap head tail = Suc (ring_count cap head (Suc tail mod cap))"
  by (auto simp: ring_count_def Suc_mod_cases)

section \<open>The queue interface\<close>

locale bounded_fifo =
  fixes push :: "'a \<Rightarrow> 's \<Rightarrow> 's"
    and pop :: "'s \<Rightarrow> 'a option \<times> 's"
    and contents :: "'s \<Rightarrow> 'a list"
    and finv :: "'s \<Rightarrow> bool"
    and cap :: nat
  assumes contents_bound: "finv s \<Longrightarrow> length (contents s) \<le> cap"
    and push_contents: "finv s \<Longrightarrow>
      contents (push x s) = (if length (contents s) < cap then contents s @ [x] else contents s)"
    and push_finv: "finv s \<Longrightarrow> finv (push x s)"
    and pop_empty: "finv s \<Longrightarrow> contents s = [] \<Longrightarrow> pop s = (None, s)"
    and pop_Cons: "finv s \<Longrightarrow> contents s = x # xs \<Longrightarrow>
      fst (pop s) = Some x \<and> contents (snd (pop s)) = xs"
    and pop_finv: "finv s \<Longrightarrow> finv (snd (pop s))"
begin

text \<open>Pushing a sequence keeps the oldest elements and drops what does not fit.\<close>

lemma fold_push:
  assumes "finv s"
  shows "finv (fold push xs s) \<and> contents (fold push xs s) = take cap (contents s @ xs)"
  using assms
proof (induction xs arbitrary: s)
  case Nil
  then show ?case by (simp add: contents_bound)
next
  case (Cons x xs)
  have "take cap (contents (push x s) @ xs) = take cap (contents s @ x # xs)"
    using contents_bound [OF Cons.prems] by (simp add: push_contents Cons.prems take_Cons')
  with Cons.IH [OF push_finv [OF Cons.prems]] show ?case by simp
qed

lemma collect_pop:
  assumes "finv s"
  shows "finv (snd (collect pop n s)) \<and>
    fst (collect pop n s) = map Some (take n (contents s)) @ replicate (n - length (contents s)) None \<and>
    contents (snd (collect pop n s)) = drop n (contents s)"
  using assms
proof (induction n arbitrary: s)
  case 0
  then show ?case by simp
next
  case (Suc n)
  show ?case
  proof (cases "contents s")
    case Nil
    then show ?thesis using Suc.IH [of s] Suc.prems
      by (simp add: pop_empty split_beta Let_def)
  next
    case (Cons x xs)
    with pop_Cons [OF Suc.prems Cons] show ?thesis
      using Suc.IH [OF pop_finv [OF Suc.prems]]
      by (simp add: split_beta Let_def Cons)
  qed
qed

text \<open>What goes in comes out, in order, when it fits.\<close>

lemma push_pop_round_trip:
  assumes "finv s" "contents s = []" "length xs \<le> cap"
  shows "fst (collect pop (length xs) (fold push xs s)) = map Some xs"
  using assms fold_push [OF assms(1), of xs] collect_pop [of "fold push xs s" "length xs"]
  by simp

end

end
