(* ===== verification/Keyboard.thy ===== *)
theory Keyboard
  imports Fifo
begin

text \<open>
  The keyboard: the key buffer \<^verbatim>\<open>KEYBUF\<close> (\<^verbatim>\<open>hw/kbd_buffer.rs\<close>) and the PS/2 decoder
  with its modifier state (\<^verbatim>\<open>hw/ps2.rs\<close>). \<^verbatim>\<open>with_lock\<close> runs its closure with interrupts
  off, so each operation is one atomic step on the state. The interrupt handler that feeds the
  decoded character to the terminal is in theory \<open>Tty\<close>.
\<close>

unbundle bit_operations_syntax

section \<open>The key buffer\<close>

definition BUF_SIZE :: nat where
  "BUF_SIZE = 128"

text \<open>A Rust \<^verbatim>\<open>char\<close> is a 32-bit value.\<close>

record kbd_inner =
  kbd_buf :: "u32 list"
  kbd_head :: nat
  kbd_tail :: nat

definition kbd_new :: kbd_inner where
  "kbd_new = \<lparr>kbd_buf = replicate BUF_SIZE 0, kbd_head = 0, kbd_tail = 0\<rparr>"

definition kbd_is_empty :: "kbd_inner \<Rightarrow> bool" where
  "kbd_is_empty b \<longleftrightarrow> kbd_head b = kbd_tail b"

definition kbd_is_full :: "kbd_inner \<Rightarrow> bool" where
  "kbd_is_full b \<longleftrightarrow> (kbd_head b + 1) mod BUF_SIZE = kbd_tail b"

definition kbd_push :: "u32 \<Rightarrow> kbd_inner \<Rightarrow> kbd_inner" where
  "kbd_push c b =
     (if kbd_is_full b then b
      else b\<lparr>kbd_buf := (kbd_buf b)[kbd_head b := c], kbd_head := (kbd_head b + 1) mod BUF_SIZE\<rparr>)"

definition kbd_pop :: "kbd_inner \<Rightarrow> u32 option \<times> kbd_inner" where
  "kbd_pop b =
     (if kbd_is_empty b then (None, b)
      else (Some (kbd_buf b ! kbd_tail b), b\<lparr>kbd_tail := (kbd_tail b + 1) mod BUF_SIZE\<rparr>))"

definition kbd_inv :: "kbd_inner \<Rightarrow> bool" where
  "kbd_inv b \<longleftrightarrow> length (kbd_buf b) = BUF_SIZE \<and> kbd_head b < BUF_SIZE \<and> kbd_tail b < BUF_SIZE"

definition kbd_contents :: "kbd_inner \<Rightarrow> u32 list" where
  "kbd_contents b =
     ring_list (kbd_buf b) (kbd_tail b) (ring_count BUF_SIZE (kbd_head b) (kbd_tail b))"

lemma BUF_SIZE_pos [simp]: "0 < BUF_SIZE"
  by (simp add: BUF_SIZE_def)

lemma kbd_contents_push:
  assumes "kbd_inv b"
  shows "kbd_contents (kbd_push c b) =
    (if length (kbd_contents b) < BUF_SIZE - 1 then kbd_contents b @ [c] else kbd_contents b)"
proof -
  let ?n = "ring_count BUF_SIZE (kbd_head b) (kbd_tail b)"
  from assms have h: "kbd_head b < BUF_SIZE" "kbd_tail b < BUF_SIZE" "length (kbd_buf b) = BUF_SIZE"
    by (simp_all add: kbd_inv_def)
  have n: "?n < BUF_SIZE" using h by (simp add: ring_count_less)
  have "(kbd_tail b + ?n) mod length (kbd_buf b) = kbd_head b"
    using h by (simp add: ring_count_head)
  with ring_list_push [of ?n "kbd_buf b" "kbd_tail b" c] n h show ?thesis
    by (auto simp: kbd_contents_def kbd_push_def kbd_is_full_def ring_count_push ring_count_full_iff)
qed

lemma kbd_contents_pop:
  assumes "kbd_inv b" "kbd_contents b = x # xs"
  shows "fst (kbd_pop b) = Some x \<and> kbd_contents (snd (kbd_pop b)) = xs"
proof -
  from assms(1) have h: "kbd_head b < BUF_SIZE" "kbd_tail b < BUF_SIZE" "length (kbd_buf b) = BUF_SIZE"
    by (simp_all add: kbd_inv_def)
  have ne: "kbd_head b \<noteq> kbd_tail b"
    using assms(2) h ring_count_0_iff by (metis kbd_contents_def list.distinct(1) ring_list_0)
  then show ?thesis
    using assms(2) h ring_list_pop [of "kbd_tail b" "kbd_buf b"]
    by (simp add: kbd_contents_def kbd_pop_def kbd_is_empty_def ring_count_pop)
qed

interpretation keybuf: bounded_fifo kbd_push kbd_pop kbd_contents kbd_inv "BUF_SIZE - 1"
proof (unfold_locales, goal_cases)
  case (1 b)
  then show ?case
    using ring_count_less [of "kbd_head b" BUF_SIZE "kbd_tail b"] by (simp add: kbd_inv_def kbd_contents_def)
next
  case (2 b c)
  then show ?case by (rule kbd_contents_push)
next
  case (3 b c)
  then show ?case by (simp add: kbd_inv_def kbd_push_def)
next
  case (4 b)
  then have "kbd_head b = kbd_tail b"
    by (metis kbd_inv_def kbd_contents_def length_ring_list list.size(3) ring_count_0_iff)
  then show ?case by (simp add: kbd_pop_def kbd_is_empty_def)
next
  case (5 b x xs)
  then show ?case by (rule kbd_contents_pop)
next
  case (6 b)
  then show ?case by (simp add: kbd_inv_def kbd_pop_def)
qed

section \<open>Decoding scancodes\<close>

datatype key_code = Printable (normal: char) (shifted: char)
  | Enter | Backspace | Space | Shift | CapsLock | Unknown

datatype key_event = Press key_code | Release key_code

record keyboard_state =
  shift :: bool
  caps_lock :: bool

definition KBD_STATE_init :: keyboard_state where
  "KBD_STATE_init = \<lparr>shift = False, caps_lock = False\<rparr>"

definition set_shift :: "bool \<Rightarrow> keyboard_state \<Rightarrow> keyboard_state" where
  "set_shift v k = k\<lparr>shift := v\<rparr>"

definition toggle_caps :: "keyboard_state \<Rightarrow> keyboard_state" where
  "toggle_caps k = k\<lparr>caps_lock := \<not> caps_lock k\<rparr>"

text \<open>The arms of \<^verbatim>\<open>map_alpha\<close>; the fallback arm gives the character \<^verbatim>\<open>'\0'\<close>.\<close>

definition alpha_arms :: "(u8 \<times> char) list" where
  "alpha_arms =
     [(0x1E, CHR ''a''), (0x30, CHR ''b''), (0x2E, CHR ''c''), (0x20, CHR ''d''),
      (0x12, CHR ''e''), (0x21, CHR ''f''), (0x22, CHR ''g''), (0x23, CHR ''h''),
      (0x17, CHR ''i''), (0x24, CHR ''j''), (0x25, CHR ''k''), (0x26, CHR ''l''),
      (0x32, CHR ''m''), (0x31, CHR ''n''), (0x18, CHR ''o''), (0x19, CHR ''p''),
      (0x10, CHR ''q''), (0x13, CHR ''r''), (0x1F, CHR ''s''), (0x14, CHR ''t''),
      (0x16, CHR ''u''), (0x2F, CHR ''v''), (0x11, CHR ''w''), (0x2D, CHR ''x''),
      (0x15, CHR ''y''), (0x2C, CHR ''z'')]"

definition map_alpha :: "u8 \<Rightarrow> char" where
  "map_alpha sc = (case map_of alpha_arms sc of Some c \<Rightarrow> c | None \<Rightarrow> CHR 0x00)"

text \<open>\<^verbatim>\<open>char::to_ascii_uppercase\<close> and \<^verbatim>\<open>char::is_ascii_alphabetic\<close>.\<close>

definition is_ascii_lowercase :: "char \<Rightarrow> bool" where
  "is_ascii_lowercase c \<longleftrightarrow> 97 \<le> (of_char c :: nat) \<and> (of_char c :: nat) \<le> 122"

definition is_ascii_alphabetic :: "char \<Rightarrow> bool" where
  "is_ascii_alphabetic c \<longleftrightarrow>
     is_ascii_lowercase c \<or> 65 \<le> (of_char c :: nat) \<and> (of_char c :: nat) \<le> 90"

definition to_ascii_uppercase :: "char \<Rightarrow> char" where
  "to_ascii_uppercase c = (if is_ascii_lowercase c then char_of ((of_char c :: nat) - 32) else c)"

text \<open>The arms of \<^verbatim>\<open>decode_scancode\<close> that are literal codes, in source order.\<close>

definition scancode_arms :: "(u8 \<times> key_code) list" where
  "scancode_arms =
     [(0x2A, Shift), (0x36, Shift), (0x3A, CapsLock),
      (0x1C, Enter), (0x0E, Backspace), (0x39, Space),
      (0x02, Printable CHR ''1'' CHR ''!''), (0x03, Printable CHR ''2'' CHR ''@''),
      (0x04, Printable CHR ''3'' CHR ''#''), (0x05, Printable CHR ''4'' CHR ''$''),
      (0x06, Printable CHR ''5'' CHR ''%''), (0x07, Printable CHR ''6'' CHR ''^''),
      (0x08, Printable CHR ''7'' CHR ''&''), (0x09, Printable CHR ''8'' CHR ''*''),
      (0x0A, Printable CHR ''9'' CHR ''(''), (0x0B, Printable CHR ''0'' CHR '')''),
      (0x0C, Printable CHR ''-'' CHR ''_''), (0x0D, Printable CHR ''='' CHR ''+''),
      (0x1A, Printable CHR ''['' CHR ''{''), (0x1B, Printable CHR '']'' CHR ''}''),
      (0x27, Printable CHR '';'' CHR '':''), (0x28, Printable CHR 0x27 CHR 0x22),
      (0x29, Printable CHR 0x60 CHR ''~''), (0x2B, Printable CHR 0x5C CHR ''|''),
      (0x33, Printable CHR '','' CHR ''<''), (0x34, Printable CHR ''.'' CHR ''>''),
      (0x35, Printable CHR ''/'' CHR ''?'')]"

definition key_of_code :: "u8 \<Rightarrow> key_code" where
  "key_of_code code =
     (case map_of scancode_arms code of
        Some k \<Rightarrow> k
      | None \<Rightarrow>
          if 0x10 \<le> code \<and> code \<le> 0x32 then
            let c = map_alpha code
            in if c \<noteq> CHR 0x00 then Printable c (to_ascii_uppercase c) else Unknown
          else Unknown)"

fun apply_state :: "key_event \<Rightarrow> keyboard_state \<Rightarrow> keyboard_state" where
  "apply_state (Press Shift) k = set_shift True k"
| "apply_state (Release Shift) k = set_shift False k"
| "apply_state (Press CapsLock) k = toggle_caps k"
| "apply_state _ k = k"

definition decode_scancode :: "u8 \<Rightarrow> keyboard_state \<Rightarrow> key_event \<times> keyboard_state" where
  "decode_scancode scancode k =
     (let release = scancode AND 0x80 \<noteq> 0;
          code = scancode AND 0x7F;
          key = key_of_code code;
          event = (if release then Release key else Press key)
      in (event, apply_state event k))"

fun keyevent_to_char :: "key_event \<Rightarrow> keyboard_state \<Rightarrow> char option" where
  "keyevent_to_char (Release key) k = None"
| "keyevent_to_char (Press (Printable norm shif)) k =
     (if is_ascii_alphabetic norm
      then Some (if shift k \<noteq> caps_lock k then shif else norm)
      else Some (if shift k then shif else norm))"
| "keyevent_to_char (Press Enter) k = Some CHR 0x0A"
| "keyevent_to_char (Press Backspace) k = Some CHR 0x08"
| "keyevent_to_char (Press Space) k = Some CHR '' ''"
| "keyevent_to_char (Press key) k = None"

section \<open>What the decoder produces\<close>

definition printable :: "char \<Rightarrow> bool" where
  "printable c \<longleftrightarrow> 0x20 \<le> (of_char c :: nat) \<and> (of_char c :: nat) \<le> 0x7E"

lemma scancode_arms_printable:
  "(code, Printable a b) \<in> set scancode_arms \<Longrightarrow>
   printable a \<and> printable b \<and> \<not> is_ascii_alphabetic a"
  unfolding scancode_arms_def
  by (auto simp: printable_def is_ascii_alphabetic_def is_ascii_lowercase_def)

lemma alpha_arms_lowercase: "(sc, c) \<in> set alpha_arms \<Longrightarrow> is_ascii_lowercase c"
  unfolding alpha_arms_def by (auto simp: is_ascii_lowercase_def)

lemma map_alpha_lowercase: "map_alpha sc \<noteq> CHR 0x00 \<Longrightarrow> is_ascii_lowercase (map_alpha sc)"
  by (auto simp: map_alpha_def split: option.splits dest!: map_of_SomeD intro: alpha_arms_lowercase)

lemma to_ascii_uppercase_code:
  assumes "is_ascii_lowercase c"
  shows "(of_char (to_ascii_uppercase c) :: nat) = of_char c - 32"
proof -
  have "(of_char c :: nat) - 32 < 256" using assms unfolding is_ascii_lowercase_def by linarith
  with assms show ?thesis by (simp add: to_ascii_uppercase_def)
qed

lemma key_of_code_Printable:
  assumes "key_of_code code = Printable a b"
  shows "printable a \<and> printable b \<and>
    (is_ascii_alphabetic a \<longrightarrow> is_ascii_lowercase a \<and> b = to_ascii_uppercase a)"
proof (cases "map_of scancode_arms code")
  case None
  with assms have a: "a = map_alpha code" "a \<noteq> CHR 0x00" "b = to_ascii_uppercase a"
    by (auto simp: key_of_code_def Let_def split: if_splits)
  then have "is_ascii_lowercase a" using map_alpha_lowercase by simp
  with to_ascii_uppercase_code [OF this] a show ?thesis
    by (auto simp: printable_def is_ascii_lowercase_def)
next
  case (Some k)
  with assms show ?thesis
    using scancode_arms_printable [of code a b] by (auto simp: key_of_code_def dest: map_of_SomeD)
qed

lemma keyevent_to_char_range:
  assumes "keyevent_to_char (fst (decode_scancode sc k)) k' = Some c"
  shows "c = CHR 0x0A \<or> c = CHR 0x08 \<or> printable c"
proof (cases "key_of_code (sc AND 0x7F)")
  case (Printable a b)
  with key_of_code_Printable [OF this] assms show ?thesis
    by (auto simp: decode_scancode_def Let_def split: if_splits)
qed (use assms in \<open>auto simp: decode_scancode_def Let_def printable_def split: if_splits\<close>)


lemma uppercase_a: "to_ascii_uppercase CHR ''a'' = CHR ''A''"
  by code_simp


text \<open>C21: the key buffer is a first-in first-out queue of 127 characters that drops what does
  not fit: after any sequence of pushes on an empty buffer, popping returns the first 127 of
  them in order and then nothing.\<close>

theorem key_buffer_fifo:
  "fst (collect kbd_pop n (fold kbd_push cs kbd_new)) =
   map Some (take n (take 127 cs)) @ replicate (n - min 127 (length cs)) None"
proof -
  have "kbd_inv kbd_new" "kbd_contents kbd_new = []"
    by (simp_all add: kbd_inv_def kbd_new_def kbd_contents_def ring_count_def)
  with keybuf.fold_push [of kbd_new cs] keybuf.collect_pop [of "fold kbd_push cs kbd_new" n]
  show ?thesis by (simp add: BUF_SIZE_def min.commute)
qed

end
