(* ===== verification/Tty.thy ===== *)
theory Tty
  imports Keyboard
begin

text \<open>
  The terminal \<^verbatim>\<open>TTY0\<close> (\<^verbatim>\<open>hw/tty.rs\<close>): a line editor that collects a line, commits it to
  the cooked buffer on newline and echoes what is typed, and the interrupt path that feeds it
  (\<^verbatim>\<open>hw/keyboard.rs\<close>). What is echoed or written goes to the serial port and the console;
  the state keeps it as the list of bytes sent. \<^verbatim>\<open>read\<close> is a blocking loop: one turn of it
  is \<open>tty_read\<close>, which waits when the turn copied nothing.
\<close>

section \<open>State and operations\<close>

definition COOKED_CAPACITY :: nat where
  "COOKED_CAPACITY = 1024"

definition LINE_CAPACITY :: nat where
  "LINE_CAPACITY = 256"

record tty =
  cooked :: "u8 list"
  cooked_head :: nat
  cooked_tail :: nat
  line :: "u8 list"
  line_len :: nat
  tty_out :: "u8 list"

definition tty_new :: tty where
  "tty_new = \<lparr>cooked = replicate COOKED_CAPACITY 0, cooked_head = 0, cooked_tail = 0,
              line = replicate LINE_CAPACITY 0, line_len = 0, tty_out = []\<rparr>"

definition cooked_is_empty :: "tty \<Rightarrow> bool" where
  "cooked_is_empty t \<longleftrightarrow> cooked_head t = cooked_tail t"

definition cooked_is_full :: "tty \<Rightarrow> bool" where
  "cooked_is_full t \<longleftrightarrow> (cooked_head t + 1) mod COOKED_CAPACITY = cooked_tail t"

definition cooked_push :: "u8 \<Rightarrow> tty \<Rightarrow> tty" where
  "cooked_push byte t =
     (if cooked_is_full t then t
      else t\<lparr>cooked := (cooked t)[cooked_head t := byte],
             cooked_head := (cooked_head t + 1) mod COOKED_CAPACITY\<rparr>)"

definition cooked_pop :: "tty \<Rightarrow> u8 option \<times> tty" where
  "cooked_pop t =
     (if cooked_is_empty t then (None, t)
      else (Some (cooked t ! cooked_tail t), t\<lparr>cooked_tail := (cooked_tail t + 1) mod COOKED_CAPACITY\<rparr>))"

definition commit_line :: "tty \<Rightarrow> tty" where
  "commit_line t =
     (let t1 = fold (\<lambda>i. cooked_push (line t ! i)) [0..<line_len t] t
      in (cooked_push 0x0A t1)\<lparr>line_len := 0\<rparr>)"

datatype echo = NoEcho | Byte u8 | EchoBackspace | Newline

definition write_bytes :: "u8 list \<Rightarrow> tty \<Rightarrow> tty" where
  "write_bytes bytes t = t\<lparr>tty_out := tty_out t @ bytes\<rparr>"

definition input_edit :: "u8 \<Rightarrow> tty \<Rightarrow> echo \<times> tty" where
  "input_edit byte t =
     (if byte = 0x0D \<or> byte = 0x0A then (Newline, commit_line t)
      else if byte = 0x08 \<or> byte = 0x7F then
        if line_len t = 0 then (NoEcho, t)
        else (EchoBackspace, t\<lparr>line_len := line_len t - 1\<rparr>)
      else if 0x20 \<le> byte \<and> byte \<le> 0x7E then
        if line_len t \<ge> LINE_CAPACITY then (NoEcho, t)
        else (Byte byte, t\<lparr>line := (line t)[line_len t := byte], line_len := line_len t + 1\<rparr>)
      else (NoEcho, t))"

primrec echo_bytes :: "echo \<Rightarrow> u8 list" where
  "echo_bytes NoEcho = []"
| "echo_bytes (Byte b) = [b]"
| "echo_bytes EchoBackspace = [0x08, 0x20, 0x08]"
| "echo_bytes Newline = [0x0A]"

definition input_char :: "u8 \<Rightarrow> tty \<Rightarrow> tty" where
  "input_char byte t = (let (e, t1) = input_edit byte t in write_bytes (echo_bytes e) t1)"

text \<open>The copy loop of \<^verbatim>\<open>read\<close>; the bytes copied are returned in order.\<close>

primrec tty_drain :: "nat \<Rightarrow> tty \<Rightarrow> u8 list \<times> tty" where
  "tty_drain 0 t = ([], t)"
| "tty_drain (Suc n) t =
     (case cooked_pop t of
        (None, t1) \<Rightarrow> ([], t1)
      | (Some byte, t1) \<Rightarrow>
          if byte = 0x0A then ([byte], t1)
          else let (bs, t2) = tty_drain n t1 in (byte # bs, t2))"

definition tty_read :: "nat \<Rightarrow> tty \<Rightarrow> (tty, u8 list) outcome" where
  "tty_read count t =
     (if count = 0 then Done [] t
      else let (bs, t1) = tty_drain count t in if bs \<noteq> [] then Done bs t1 else Waiting t1)"

definition tty_write :: "u8 list \<Rightarrow> tty \<Rightarrow> nat \<times> tty" where
  "tty_write bytes t = (if bytes = [] then (0, t) else (length bytes, write_bytes bytes t))"

text \<open>The keyboard interrupt: decode the scancode, update the modifiers, feed the terminal.\<close>

definition handle_scancode :: "u8 \<Rightarrow> keyboard_state \<times> tty \<Rightarrow> keyboard_state \<times> tty" where
  "handle_scancode scancode kt =
     (let (event, k) = decode_scancode scancode (fst kt)
      in case keyevent_to_char event k of
           Some c \<Rightarrow> (k, input_char (of_char c) (snd kt))
         | None \<Rightarrow> (k, snd kt))"

section \<open>The cooked buffer is a queue\<close>

definition tty_inv :: "tty \<Rightarrow> bool" where
  "tty_inv t \<longleftrightarrow> length (cooked t) = COOKED_CAPACITY \<and> cooked_head t < COOKED_CAPACITY \<and>
     cooked_tail t < COOKED_CAPACITY \<and> length (line t) = LINE_CAPACITY \<and> line_len t \<le> LINE_CAPACITY"

definition cooked_list :: "tty \<Rightarrow> u8 list" where
  "cooked_list t =
     ring_list (cooked t) (cooked_tail t) (ring_count COOKED_CAPACITY (cooked_head t) (cooked_tail t))"

definition line_list :: "tty \<Rightarrow> u8 list" where
  "line_list t = take (line_len t) (line t)"

lemma cooked_list_push:
  assumes "tty_inv t"
  shows "cooked_list (cooked_push c t) =
    (if length (cooked_list t) < COOKED_CAPACITY - 1 then cooked_list t @ [c] else cooked_list t)"
proof -
  let ?n = "ring_count COOKED_CAPACITY (cooked_head t) (cooked_tail t)"
  from assms have h: "cooked_head t < COOKED_CAPACITY" "cooked_tail t < COOKED_CAPACITY"
    "length (cooked t) = COOKED_CAPACITY"
    by (simp_all add: tty_inv_def)
  have n: "?n < COOKED_CAPACITY" using h by (simp add: ring_count_less)
  have "(cooked_tail t + ?n) mod length (cooked t) = cooked_head t"
    using h by (simp add: ring_count_head)
  with ring_list_push [of ?n "cooked t" "cooked_tail t" c] n h show ?thesis
    by (auto simp: cooked_list_def cooked_push_def cooked_is_full_def ring_count_push ring_count_full_iff)
qed

lemma cooked_list_pop:
  assumes "tty_inv t" "cooked_list t = x # xs"
  shows "fst (cooked_pop t) = Some x \<and> cooked_list (snd (cooked_pop t)) = xs"
proof -
  from assms(1) have h: "cooked_head t < COOKED_CAPACITY" "cooked_tail t < COOKED_CAPACITY"
    "length (cooked t) = COOKED_CAPACITY"
    by (simp_all add: tty_inv_def)
  have ne: "cooked_head t \<noteq> cooked_tail t"
    using assms(2) h ring_count_0_iff by (metis cooked_list_def list.distinct(1) ring_list_0)
  then show ?thesis
    using assms(2) h ring_list_pop [of "cooked_tail t" "cooked t"]
    by (simp add: cooked_list_def cooked_pop_def cooked_is_empty_def ring_count_pop)
qed

lemma COOKED_CAPACITY_pos [simp]: "0 < COOKED_CAPACITY"
  by (simp add: COOKED_CAPACITY_def)

interpretation cookedq: bounded_fifo cooked_push cooked_pop cooked_list tty_inv "COOKED_CAPACITY - 1"
proof (unfold_locales, goal_cases)
  case (1 t)
  then show ?case
    using ring_count_less [of "cooked_head t" COOKED_CAPACITY "cooked_tail t"]
    by (simp add: tty_inv_def cooked_list_def)
next
  case (2 t c)
  then show ?case by (rule cooked_list_push)
next
  case (3 t c)
  then show ?case by (simp add: tty_inv_def cooked_push_def)
next
  case (4 t)
  then have "cooked_head t = cooked_tail t"
    by (metis tty_inv_def cooked_list_def length_ring_list list.size(3) ring_count_0_iff)
  then show ?case by (simp add: cooked_pop_def cooked_is_empty_def)
next
  case (5 t x xs)
  then show ?case by (rule cooked_list_pop)
next
  case (6 t)
  then show ?case by (simp add: tty_inv_def cooked_pop_def)
qed

section \<open>The abstract terminal\<close>

text \<open>
  What the terminal promises, without rings and indices: the committed bytes, the line being
  edited and the bytes sent to the screen, as three lists.
\<close>

type_synonym tty_spec = "u8 list \<times> u8 list \<times> u8 list"

definition tty_abs :: "tty \<Rightarrow> tty_spec" where
  "tty_abs t = (cooked_list t, line_list t, tty_out t)"

fun spec_input :: "u8 \<Rightarrow> tty_spec \<Rightarrow> tty_spec" where
  "spec_input byte (c, l, out) =
     (if byte \<in> {0x0D, 0x0A} then (take 1023 (c @ l @ [0x0A]), [], out @ [0x0A])
      else if byte \<in> {0x08, 0x7F} then
        if l = [] then (c, l, out) else (c, butlast l, out @ [0x08, 0x20, 0x08])
      else if 0x20 \<le> byte \<and> byte \<le> 0x7E \<and> length l < 256 then (c, l @ [byte], out @ [byte])
      else (c, l, out))"

text \<open>The bytes a read of at most \<open>n\<close> bytes returns: up to and including the first newline.\<close>

fun line_prefix :: "nat \<Rightarrow> u8 list \<Rightarrow> u8 list" where
  "line_prefix 0 bs = []"
| "line_prefix (Suc n) [] = []"
| "line_prefix (Suc n) (b # bs) = (if b = 0x0A then [b] else b # line_prefix n bs)"

lemma cooked_push_frame [simp]:
  "line (cooked_push b t) = line t" "line_len (cooked_push b t) = line_len t"
  "tty_out (cooked_push b t) = tty_out t"
  by (simp_all add: cooked_push_def)

lemma fold_cooked_push_frame [simp]:
  "line (fold cooked_push bs t) = line t" "line_len (fold cooked_push bs t) = line_len t"
  "tty_out (fold cooked_push bs t) = tty_out t"
  by (induction bs arbitrary: t) simp_all

lemma cooked_pop_frame [simp]:
  "line (snd (cooked_pop t)) = line t" "line_len (snd (cooked_pop t)) = line_len t"
  "tty_out (snd (cooked_pop t)) = tty_out t"
  by (simp_all add: cooked_pop_def)

lemma commit_line_fold:
  assumes "tty_inv t"
  shows "commit_line t = (fold cooked_push (line_list t @ [0x0A]) t)\<lparr>line_len := 0\<rparr>"
proof -
  have "map ((!) (line t)) [0..<line_len t] = line_list t"
    using assms by (intro nth_equalityI) (simp_all add: line_list_def tty_inv_def)
  then have "fold (\<lambda>i. cooked_push (line t ! i)) [0..<line_len t] t = fold cooked_push (line_list t) t"
    by (simp add: fold_map comp_def flip: \<open>map ((!) (line t)) [0..<line_len t] = line_list t\<close>)
  then show ?thesis by (simp add: commit_line_def)
qed

lemma commit_line_spec:
  assumes "tty_inv t"
  shows "tty_inv (commit_line t) \<and>
    cooked_list (commit_line t) = take 1023 (cooked_list t @ line_list t @ [0x0A]) \<and>
    line_list (commit_line t) = [] \<and> tty_out (commit_line t) = tty_out t"
  using cookedq.fold_push [OF assms, of "line_list t @ [0x0A]"]
  by (simp add: commit_line_fold [OF assms] tty_inv_def cooked_list_def line_list_def
      COOKED_CAPACITY_def)

lemma write_bytes_frame [simp]:
  "tty_inv (write_bytes bs t) = tty_inv t" "cooked_list (write_bytes bs t) = cooked_list t"
  "line_list (write_bytes bs t) = line_list t" "tty_out (write_bytes bs t) = tty_out t @ bs"
  by (simp_all add: write_bytes_def tty_inv_def cooked_list_def line_list_def)

lemma length_line_list: "tty_inv t \<Longrightarrow> length (line_list t) = line_len t"
  by (simp add: line_list_def tty_inv_def)

lemma line_list_Nil_iff: "tty_inv t \<Longrightarrow> line_list t = [] \<longleftrightarrow> line_len t = 0"
  using length_line_list [of t] by auto

lemma line_list_erase:
  "tty_inv t \<Longrightarrow> line_len t \<noteq> 0 \<Longrightarrow>
   line_list (t\<lparr>line_len := line_len t - 1\<rparr>) = butlast (line_list t)"
  by (simp add: line_list_def tty_inv_def butlast_take)

lemma line_list_insert:
  "tty_inv t \<Longrightarrow> line_len t < LINE_CAPACITY \<Longrightarrow>
   line_list (t\<lparr>line := (line t)[line_len t := b], line_len := line_len t + 1\<rparr>) = line_list t @ [b]"
  by (simp add: line_list_def tty_inv_def take_Suc_conv_app_nth)

lemma line_update_frame [simp]:
  "cooked_list (t\<lparr>line_len := n\<rparr>) = cooked_list t"
  "cooked_list (t\<lparr>line := l\<rparr>) = cooked_list t"
  by (simp_all add: cooked_list_def)

lemma input_edit_spec:
  assumes "tty_inv t"
  shows "let (e, t') = input_edit b t
    in tty_inv t' \<and> tty_out t' = tty_out t \<and>
       (cooked_list t', line_list t', tty_out t @ echo_bytes e) = spec_input b (tty_abs t)"
proof -
  consider (nl) "b = 0x0D \<or> b = 0x0A"
    | (bs) "\<not> (b = 0x0D \<or> b = 0x0A)" "b = 0x08 \<or> b = 0x7F"
    | (ins) "\<not> (b = 0x0D \<or> b = 0x0A)" "\<not> (b = 0x08 \<or> b = 0x7F)" "0x20 \<le> b \<and> b \<le> 0x7E"
        "line_len t < LINE_CAPACITY"
    | (ign) "\<not> (b = 0x0D \<or> b = 0x0A)" "\<not> (b = 0x08 \<or> b = 0x7F)"
        "\<not> (0x20 \<le> b \<and> b \<le> 0x7E) \<or> \<not> line_len t < LINE_CAPACITY"
    by blast
  then show ?thesis
  proof cases
    case nl
    with commit_line_spec [OF assms] show ?thesis
      by (auto simp: input_edit_def tty_abs_def)
  next
    case bs
    then show ?thesis
      using assms line_list_erase [OF assms] line_list_Nil_iff [OF assms]
      by (auto simp: input_edit_def tty_abs_def tty_inv_def)
  next
    case ins
    then show ?thesis
      using assms line_list_insert [OF assms] length_line_list [OF assms]
      by (auto simp: input_edit_def tty_abs_def tty_inv_def LINE_CAPACITY_def)
  next
    case ign
    then show ?thesis
      using assms length_line_list [OF assms]
      by (auto simp: input_edit_def tty_abs_def LINE_CAPACITY_def)
  qed
qed

lemma input_char_spec:
  assumes "tty_inv t"
  shows "tty_abs (input_char b t) = spec_input b (tty_abs t)" and "tty_inv (input_char b t)"
  using input_edit_spec [OF assms, of b]
  by (simp_all add: input_char_def tty_abs_def split_beta Let_def)

lemma fold_input_char_spec:
  "tty_inv t \<Longrightarrow> tty_inv (fold input_char bs t) \<and>
   tty_abs (fold input_char bs t) = fold spec_input bs (tty_abs t)"
  by (induction bs arbitrary: t) (simp_all add: input_char_spec)

lemma tty_drain_spec:
  assumes "tty_inv t"
  shows "tty_inv (snd (tty_drain n t)) \<and>
    fst (tty_drain n t) = line_prefix n (cooked_list t) \<and>
    cooked_list (snd (tty_drain n t)) = drop (length (line_prefix n (cooked_list t))) (cooked_list t) \<and>
    line_list (snd (tty_drain n t)) = line_list t \<and> tty_out (snd (tty_drain n t)) = tty_out t"
  using assms
proof (induction n arbitrary: t)
  case 0
  then show ?case by simp
next
  case (Suc n)
  show ?case
  proof (cases "cooked_list t")
    case Nil
    then show ?thesis using Suc.prems by (simp add: cookedq.pop_empty)
  next
    case (Cons b bs)
    then have p: "fst (cooked_pop t) = Some b" "cooked_list (snd (cooked_pop t)) = bs"
      using cookedq.pop_Cons [OF Suc.prems Cons] by simp_all
    moreover have "line_list (snd (cooked_pop t)) = line_list t" by (simp add: line_list_def)
    ultimately show ?thesis
      using Suc.IH [OF cookedq.pop_finv [OF Suc.prems]] cookedq.pop_finv [OF Suc.prems]
      by (simp add: Cons split_beta Let_def)
  qed
qed

lemma unat_of_char: "unat (of_char c :: u8) = of_char c"
proof -
  have "unat (of_nat (of_char c) :: u8) = of_char c"
    by (simp only: unat_of_nat) (simp add: take_bit_eq_mod)
  then show ?thesis by (simp only: of_nat_of_char)
qed

lemma spec_input_line:
  "\<forall>b \<in> set l. 0x20 \<le> b \<and> b \<le> 0x7E \<Longrightarrow> length k + length l \<le> 256 \<Longrightarrow>
   fold spec_input l (c, k, out) = (c, k @ l, out @ l)"
proof (induction l arbitrary: k out)
  case (Cons b l)
  have "b \<noteq> 0x0D" "b \<noteq> 0x0A" "b \<noteq> 0x08" "b \<noteq> 0x7F"
    using Cons.prems(1) by auto
  with Cons show ?case by simp
qed simp

lemma line_prefix_line:
  "0x0A \<notin> set l \<Longrightarrow> length l < n \<Longrightarrow> line_prefix n (l @ 0x0A # bs) = l @ [0x0A]"
  by (induction n "l @ 0x0A # bs" arbitrary: l rule: line_prefix.induct) (auto simp: Cons_eq_append_conv)

section \<open>Properties\<close>

text \<open>C11: the terminal refines the three-list specification. On every input byte the ring
  buffers, indices and echo of \<^verbatim>\<open>input_char\<close> do what the specification says of lists, and
  the array bounds are kept.\<close>

theorem input_char_refines:
  "tty_inv t \<Longrightarrow>
   tty_abs (input_char b t) = spec_input b (tty_abs t) \<and> tty_inv (input_char b t)"
  by (simp add: input_char_spec)

lemma tty_new_inv: "tty_inv tty_new" "tty_abs tty_new = ([], [], [])"
  by (simp_all add: tty_new_def tty_inv_def tty_abs_def cooked_list_def line_list_def
      LINE_CAPACITY_def ring_count_def)

theorem input_char_refines_witness:
  "tty_abs (input_char 0x41 tty_new) = ([], [0x41], [0x41])"
  using input_char_refines [OF tty_new_inv(1), of "0x41"] by (simp add: tty_new_inv)

text \<open>C19: what is typed is what is read. On a terminal with nothing pending, typing up to 256
  printable characters and Enter and then reading with room for them returns exactly the
  characters and the newline, and leaves the terminal with nothing pending.\<close>

theorem typed_line_is_read:
  assumes "tty_inv t" "cooked_list t = []" "line_list t = []"
    and "\<forall>b \<in> set l. 0x20 \<le> b \<and> b \<le> 0x7E" "length l \<le> 256" "length l < count"
  shows "\<exists>t'. tty_read count (fold input_char (l @ [0x0A]) t) = Done (l @ [0x0A]) t' \<and>
    cooked_list t' = [] \<and> line_list t' = [] \<and> tty_inv t'"
proof -
  let ?t = "fold input_char (l @ [0x0A]) t"
  have abs: "tty_abs ?t = (l @ [0x0A], [], tty_out t @ l @ [0x0A])" and inv: "tty_inv ?t"
    using fold_input_char_spec [OF assms(1), of "l @ [0x0A]"] spec_input_line [of l "[]"] assms(2-5)
    by (simp_all add: tty_abs_def)
  have "0x0A \<notin> set l" using assms(4) by auto
  then have "line_prefix count (l @ [0x0A]) = l @ [0x0A]"
    using assms(6) line_prefix_line by simp
  with tty_drain_spec [OF inv, of count] abs assms(6) show ?thesis
    by (simp add: tty_read_def tty_abs_def split_beta Let_def)
qed

theorem typed_line_is_read_witness:
  "\<exists>t'. tty_read 16 (fold input_char ([0x68, 0x69] @ [0x0A]) tty_new) = Done ([0x68, 0x69] @ [0x0A]) t' \<and>
    cooked_list t' = [] \<and> line_list t' = [] \<and> tty_inv t'"
proof (rule typed_line_is_read)
  show "cooked_list tty_new = []" "line_list tty_new = []"
    using tty_new_inv(2) by (simp_all add: tty_abs_def)
qed (simp_all add: tty_new_inv(1))

text \<open>C20: no key is lost between the keyboard and the terminal: every character the decoder
  produces is one the line editor acts on, so a key press either edits or commits the line, or
  the line is full, or it is a backspace on an empty line.\<close>

theorem handle_scancode_acts:
  assumes "tty_inv t" and "keyevent_to_char (fst (decode_scancode sc k)) (snd (decode_scancode sc k)) = Some c"
  shows "let t' = snd (handle_scancode sc (k, t))
    in if c = CHR 0x0A then line_list t' = []
       else if c = CHR 0x08 then line_list t' = butlast (line_list t)
       else line_list t' = (if length (line_list t) < 256 then line_list t @ [of_char c] else line_list t)"
proof -
  let ?b = "of_char c :: u8"
  have abs: "tty_abs (input_char ?b t) = spec_input ?b (tty_abs t)"
    using assms(1) by (rule input_char_spec)
  have eq: "snd (handle_scancode sc (k, t)) = input_char ?b t"
    using assms(2) by (simp add: handle_scancode_def split_beta Let_def)
  show ?thesis
  proof (cases "c = CHR 0x0A \<or> c = CHR 0x08")
    case True
    with abs eq show ?thesis by (auto simp: tty_abs_def split: if_splits)
  next
    case False
    with keyevent_to_char_range [OF assms(2)] have p: "printable c" by simp
    have u: "unat ?b = of_char c" by (rule unat_of_char)
    have "0x20 \<le> ?b" "?b \<le> 0x7E"
      using p by (simp_all add: word_le_nat_alt u printable_def)
    then have "?b \<notin> {0x0D, 0x0A, 0x08, 0x7F}" by auto
    with \<open>0x20 \<le> ?b\<close> \<open>?b \<le> 0x7E\<close> False abs eq show ?thesis
      by (auto simp: tty_abs_def Let_def split: if_splits)
  qed
qed

theorem handle_scancode_acts_witness:
  "line_list (snd (handle_scancode 0x1E (KBD_STATE_init, tty_new))) = [0x61]"
proof -
  have "keyevent_to_char (fst (decode_scancode 0x1E KBD_STATE_init))
      (snd (decode_scancode 0x1E KBD_STATE_init)) = Some CHR ''a''"
    by (simp add: decode_scancode_def key_of_code_def scancode_arms_def alpha_arms_def map_alpha_def
        Let_def is_ascii_alphabetic_def is_ascii_lowercase_def KBD_STATE_init_def)
  moreover have "line_list tty_new = []" using tty_new_inv(2) by (simp add: tty_abs_def)
  ultimately show ?thesis
    using handle_scancode_acts [OF tty_new_inv(1), of "0x1E" KBD_STATE_init "CHR ''a''"]
    by (simp add: Let_def)
qed

end
