(* ===== verification/ProcState.thy ===== *)
theory ProcState
  imports Paging RamFs Tty
begin

text \<open>
  The kernel's global state: the records of \<^verbatim>\<open>proc/state.rs\<close>, the signal and stack
  structures of \<^verbatim>\<open>syscall/types.rs\<close> they contain, the task table of \<^verbatim>\<open>proc/task.rs\<close>,
  and the record \<open>kernel\<close> of all global variables the modelled code reads or writes. Slot and
  table indices, process identifiers and reference counts are natural numbers; addresses,
  offsets, lengths and flag words are machine words; \<^verbatim>\<open>i64\<close> and \<^verbatim>\<open>i32\<close> values are words
  read with \<open>sint\<close>.
\<close>

section \<open>Constants\<close>

type_synonym i64 = "64 word"
type_synonym i32 = "32 word"

definition MAX_FDS :: nat where "MAX_FDS = 16"
definition MAX_OPEN_FILES :: nat where "MAX_OPEN_FILES = 32"
definition MAX_PIPES :: nat where "MAX_PIPES = 16"
definition MAX_VMAS :: nat where "MAX_VMAS = 32"
definition MAX_TASKS :: nat where "MAX_TASKS = 8"
definition EXE_PATH_MAX :: nat where "EXE_PATH_MAX = 64"
definition PIPE_CAPACITY :: nat where "PIPE_CAPACITY = 1024"
definition MMAP_BASE :: usize where "MMAP_BASE = 0x0000000100000000"
definition FD_CLOEXEC :: u32 where "FD_CLOEXEC = 1"
definition O_ACCMODE :: u32 where "O_ACCMODE = 3"
definition O_RDONLY :: u32 where "O_RDONLY = 0"
definition O_WRONLY :: u32 where "O_WRONLY = 1"
definition O_RDWR :: u32 where "O_RDWR = 2"
definition O_CREAT :: u32 where "O_CREAT = 0x40"
definition O_EXCL :: u32 where "O_EXCL = 0x80"
definition O_TRUNC :: u32 where "O_TRUNC = 0x200"
definition O_APPEND :: u32 where "O_APPEND = 0x400"
definition O_NONBLOCK :: u32 where "O_NONBLOCK = 0x800"

lemmas table_sizes = MAX_FDS_def MAX_OPEN_FILES_def MAX_PIPES_def MAX_VMAS_def MAX_TASKS_def
lemmas open_flags = O_ACCMODE_def O_RDONLY_def O_WRONLY_def O_RDWR_def O_CREAT_def O_EXCL_def
  O_TRUNC_def O_APPEND_def O_NONBLOCK_def

section \<open>Signal structures\<close>

type_synonym sig_set = "u64 list"

definition sigset_empty :: sig_set where
  "sigset_empty = replicate 16 0"

record sig_action =
  sa_handler :: u64
  sa_flags :: u64
  sa_restorer :: u64
  sa_mask :: sig_set

definition sigaction_empty :: sig_action where
  "sigaction_empty = \<lparr>sa_handler = 0, sa_flags = 0, sa_restorer = 0, sa_mask = sigset_empty\<rparr>"

record stack_t =
  ss_sp :: u64
  ss_flags :: i32
  ss_size :: usize

definition stack_disabled :: stack_t where
  "stack_disabled = \<lparr>ss_sp = 0, ss_flags = 2, ss_size = 0\<rparr>"

section \<open>Open files, pipes, descriptors and memory regions\<close>

record open_file =
  of_file_idx :: nat
  of_offset :: usize
  of_status_flags :: u32
  of_refs :: nat
  of_in_use :: bool

definition open_file_empty :: open_file where
  "open_file_empty =
     \<lparr>of_file_idx = 0, of_offset = 0, of_status_flags = 0, of_refs = 0, of_in_use = False\<rparr>"

definition open_file_new :: "nat \<Rightarrow> u32 \<Rightarrow> open_file" where
  "open_file_new idx flags =
     \<lparr>of_file_idx = idx, of_offset = 0, of_status_flags = flags, of_refs = 1, of_in_use = True\<rparr>"

datatype fd_target =
    Empty | Stdio u8 | Tty | Null | Zero | Open nat | PipeRead nat | PipeWrite nat

datatype descriptor_info =
    DStdio u8 | DCharDevice | DFile nat nat | DPipe

record pipe =
  pipe_buf :: "u8 list"
  read_pos :: nat
  write_pos :: nat
  pipe_len :: nat
  read_refs :: nat
  write_refs :: nat
  read_flags :: u32
  write_flags :: u32
  pipe_in_use :: bool

definition pipe_empty :: pipe where
  "pipe_empty =
     \<lparr>pipe_buf = replicate PIPE_CAPACITY 0, read_pos = 0, write_pos = 0, pipe_len = 0,
      read_refs = 0, write_refs = 0, read_flags = 0, write_flags = 0, pipe_in_use = False\<rparr>"

definition pipe_new :: pipe where
  "pipe_new =
     \<lparr>pipe_buf = replicate PIPE_CAPACITY 0, read_pos = 0, write_pos = 0, pipe_len = 0,
      read_refs = 1, write_refs = 1, read_flags = 0, write_flags = 0, pipe_in_use = True\<rparr>"

record vm_region =
  vma_start :: usize
  vma_len :: usize
  vma_prot :: u32
  vma_flags :: u32
  vma_in_use :: bool

definition vm_region_empty :: vm_region where
  "vm_region_empty =
     \<lparr>vma_start = 0, vma_len = 0, vma_prot = 0, vma_flags = 0, vma_in_use = False\<rparr>"

definition vm_region_new :: "usize \<Rightarrow> usize \<Rightarrow> u32 \<Rightarrow> u32 \<Rightarrow> vm_region" where
  "vm_region_new st len prot flags =
     \<lparr>vma_start = st, vma_len = len, vma_prot = prot, vma_flags = flags, vma_in_use = True\<rparr>"

section \<open>Threads and processes\<close>

datatype process_state = PRunning | PZombie
datatype thread_state = TRunning | TZombie

record thread =
  tid :: nat
  parent_tid :: nat
  group_slot :: nat
  task_slot :: nat
  thread_st :: thread_state
  clear_child_tid :: u64
  fs_base :: u64
  thr_sig_pending :: sig_set
  sig_mask :: sig_set
  saved_sig_mask :: sig_set
  sig_altstack :: stack_t
  in_signal_handler :: bool
  on_altstack :: bool
  robust_list_head :: u64
  robust_list_len :: usize

definition thread_new_leader :: "nat \<Rightarrow> nat \<Rightarrow> nat \<Rightarrow> nat \<Rightarrow> thread" where
  "thread_new_leader t parent grp slot =
     \<lparr>tid = t, parent_tid = parent, group_slot = grp, task_slot = slot, thread_st = TRunning,
      clear_child_tid = 0, fs_base = 0, thr_sig_pending = sigset_empty, sig_mask = sigset_empty,
      saved_sig_mask = sigset_empty, sig_altstack = stack_disabled, in_signal_handler = False,
      on_altstack = False, robust_list_head = 0, robust_list_len = 0\<rparr>"

definition thread_new_group_member ::
  "nat \<Rightarrow> nat \<Rightarrow> nat \<Rightarrow> nat \<Rightarrow> u64 \<Rightarrow> u64 \<Rightarrow> sig_set \<Rightarrow> thread" where
  "thread_new_group_member t parent grp slot cct fsb msk =
     \<lparr>tid = t, parent_tid = parent, group_slot = grp, task_slot = slot, thread_st = TRunning,
      clear_child_tid = cct, fs_base = fsb, thr_sig_pending = sigset_empty, sig_mask = msk,
      saved_sig_mask = sigset_empty, sig_altstack = stack_disabled, in_signal_handler = False,
      on_altstack = False, robust_list_head = 0, robust_list_len = 0\<rparr>"

lemma thread_new_fields [simp]:
  "tid (thread_new_leader t p g sl) = t" "group_slot (thread_new_leader t p g sl) = g"
  "task_slot (thread_new_leader t p g sl) = sl" "thread_st (thread_new_leader t p g sl) = TRunning"
  "tid (thread_new_group_member t p g sl c f m) = t"
  "group_slot (thread_new_group_member t p g sl c f m) = g"
  "task_slot (thread_new_group_member t p g sl c f m) = sl"
  "thread_st (thread_new_group_member t p g sl c f m) = TRunning"
  by (simp_all add: thread_new_leader_def thread_new_group_member_def)

record process =
  pid :: nat
  parent_pid :: nat
  pgid :: nat
  sid :: nat
  proc_state :: process_state
  thread_count :: nat
  exit_code :: i64
  uid :: u32
  euid :: u32
  gid :: u32
  egid :: u32
  umask :: u32
  exe_path :: "u8 list"
  exe_path_len :: nat
  program_break :: usize
  next_mmap_base :: usize
  sig_handlers :: "sig_action list"
  sig_pending :: sig_set
  fds :: "fd_target list"
  fd_flags :: "u32 list"
  vmas :: "vm_region list"

definition default_fds :: "fd_target list" where
  "default_fds = [Stdio 0, Stdio 1, Stdio 2] @ replicate (MAX_FDS - 3) Empty"

definition default_fd_flags :: "u32 list" where
  "default_fd_flags = replicate MAX_FDS 0"

definition process_new_leader :: "nat \<Rightarrow> nat \<Rightarrow> string \<Rightarrow> process" where
  "process_new_leader p parent name =
     (let n = min (length name) EXE_PATH_MAX
      in \<lparr>pid = p, parent_pid = parent, pgid = p, sid = p, proc_state = PRunning, thread_count = 1,
          exit_code = 0, uid = 0, euid = 0, gid = 0, egid = 0, umask = 0x12,
          exe_path = map of_char (take n name) @ replicate (EXE_PATH_MAX - n) 0, exe_path_len = n,
          program_break = 0x40000000, next_mmap_base = MMAP_BASE,
          sig_handlers = replicate 65 sigaction_empty, sig_pending = sigset_empty,
          fds = default_fds, fd_flags = default_fd_flags, vmas = replicate MAX_VMAS vm_region_empty\<rparr>)"

definition process_fork_from :: "process \<Rightarrow> nat \<Rightarrow> process" where
  "process_fork_from parent p =
     parent\<lparr>pid := p, parent_pid := pid parent, proc_state := PRunning, thread_count := 1,
            exit_code := 0, sig_pending := sigset_empty\<rparr>"

lemma process_new_fields [simp]:
  "pid (process_new_leader p pp n) = p" "proc_state (process_new_leader p pp n) = PRunning"
  "thread_count (process_new_leader p pp n) = 1" "fds (process_new_leader p pp n) = default_fds"
  "fd_flags (process_new_leader p pp n) = default_fd_flags"
  "vmas (process_new_leader p pp n) = replicate MAX_VMAS vm_region_empty"
  "next_mmap_base (process_new_leader p pp n) = MMAP_BASE"
  by (simp_all add: process_new_leader_def Let_def)

section \<open>Tasks\<close>

datatype task_state = Ready | Running | Dead

record task =
  task_rsp :: u64
  stack_base :: u64
  task_st :: task_state
  task_id :: nat
  rsp_valid :: bool
  task_pml4 :: u64

section \<open>The kernel\<close>

record futex_waiter =
  fw_in_use :: bool
  fw_addr :: u64

definition futex_waiter_empty :: futex_waiter where
  "futex_waiter_empty = \<lparr>fw_in_use = False, fw_addr = 0\<rparr>"

text \<open>
  \<open>CR3\<close> and \<open>FS_BASE\<close> are the processor registers that select the address space and the base of
  thread-local storage; \<open>CR0_WP\<close> says whether the processor enforces read-only pages in kernel
  mode, which is left as the boot firmware set it; \<open>TSS_RSP0\<close> is the stack pointer loaded on entry to the kernel (the code
  keeps it twice, in the TSS and beside it); \<open>USER_TRAMPOLINE\<close> and \<open>FORK_TRAMPOLINE\<close> are the
  addresses the linker gives to the two assembly trampolines of \<^verbatim>\<open>task.rs\<close>; \<open>DEAD_RSP\<close> is the
  cell that receives the stack pointer of a task that will not run again.
\<close>

record kernel = phys +
  KERNEL_PML4 :: u64
  CR3 :: u64
  FS_BASE :: u64
  CR0_WP :: bool
  PROCESSES :: "process option list"
  THREADS :: "thread option list"
  NEXT_PID :: nat
  OPEN_FILES :: "open_file list"
  PIPES :: "pipe list"
  TASKS :: "task option list"
  CURRENT :: nat
  NEXT_ID :: nat
  DEAD_RSP :: u64
  TSS_RSP0 :: u64
  USER_TRAMPOLINE :: u64
  FORK_TRAMPOLINE :: u64
  IN_SYSCALL :: bool
  FILESYSTEM :: "ramfs option"
  TTY0 :: tty
  TICKS :: u64
  RNG_STATE :: u64
  FUTEX_WAITERS :: "futex_waiter list"

text \<open>The kernel before it has done anything: the initial values of the static variables.\<close>

definition kernel_statics :: "pmm_state \<Rightarrow> memory \<Rightarrow> kernel" where
  "kernel_statics p m =
     \<lparr>PMM = p, MEM = m, KERNEL_PML4 = 0, CR3 = 0, FS_BASE = 0, CR0_WP = True,
      PROCESSES = replicate 8 None, THREADS = replicate 8 None, NEXT_PID = 1,
      OPEN_FILES = replicate MAX_OPEN_FILES open_file_empty,
      PIPES = replicate MAX_PIPES pipe_empty,
      TASKS = replicate MAX_TASKS None, CURRENT = 0, NEXT_ID = 1, DEAD_RSP = 0, TSS_RSP0 = 0,
      USER_TRAMPOLINE = 0, FORK_TRAMPOLINE = 0, IN_SYSCALL = False, FILESYSTEM = None,
      TTY0 = tty_new, TICKS = 0, RNG_STATE = 0,
      FUTEX_WAITERS = replicate 16 futex_waiter_empty\<rparr>"

lemma kernel_statics_fields [simp]:
  "PMM (kernel_statics p m) = p" "MEM (kernel_statics p m) = m"
  "KERNEL_PML4 (kernel_statics p m) = 0" "CR3 (kernel_statics p m) = 0"
  "PROCESSES (kernel_statics p m) = replicate 8 None"
  "THREADS (kernel_statics p m) = replicate 8 None" "NEXT_PID (kernel_statics p m) = 1"
  "OPEN_FILES (kernel_statics p m) = replicate MAX_OPEN_FILES open_file_empty"
  "PIPES (kernel_statics p m) = replicate MAX_PIPES pipe_empty"
  "TASKS (kernel_statics p m) = replicate MAX_TASKS None" "CURRENT (kernel_statics p m) = 0"
  "FILESYSTEM (kernel_statics p m) = None" "TTY0 (kernel_statics p m) = tty_new"
  "TICKS (kernel_statics p m) = 0" "IN_SYSCALL (kernel_statics p m) = False"
  "FUTEX_WAITERS (kernel_statics p m) = replicate 16 futex_waiter_empty"
  by (simp_all add: kernel_statics_def)

type_synonym 'a kernel_step = "kernel \<Rightarrow> 'a \<times> kernel"

end
