(* ===== verification/Tasks.thy ===== *)
theory Tasks
  imports ProcState
begin

text \<open>
  Tasks, threads and processes: \<^verbatim>\<open>proc/task.rs\<close>, \<^verbatim>\<open>proc/process.rs\<close> and
  \<^verbatim>\<open>proc/scheduler.rs\<close>. The task table is searched round robin; \<open>next_task_switch\<close> is the
  decision the scheduler takes, \<open>switch_to\<close> its effect on the saved stack pointer and on the
  registers that select the address space. Kernel stacks are frames of the direct map, so the
  initial frames of new tasks are written to physical memory. The lemmas show that one task runs
  at a time, that a ready task is reached after at most as many switches as there are slots, and
  that the thread counts of processes count the running threads.
\<close>

section \<open>Looking up the current thread and process\<close>

definition current_task_slot :: "kernel \<Rightarrow> nat option" where
  "current_task_slot s = Some (CURRENT s)"

definition current_pml4 :: "kernel \<Rightarrow> u64" where
  "current_pml4 s = (case TASKS s ! CURRENT s of Some t \<Rightarrow> task_pml4 t | None \<Rightarrow> KERNEL_PML4 s)"

definition current_thread :: "kernel \<Rightarrow> thread option" where
  "current_thread s =
     (case current_task_slot s of Some slot \<Rightarrow> THREADS s ! slot | None \<Rightarrow> None)"

definition current_process :: "kernel \<Rightarrow> process option" where
  "current_process s =
     (case current_thread s of Some th \<Rightarrow> PROCESSES s ! group_slot th | None \<Rightarrow> None)"

text \<open>Updates through \<^verbatim>\<open>current_thread_mut\<close> and \<^verbatim>\<open>current_process_mut\<close>.\<close>

definition current_thread_mut :: "(thread \<Rightarrow> thread) \<Rightarrow> kernel \<Rightarrow> kernel" where
  "current_thread_mut f s =
     (case current_thread s of
        Some th \<Rightarrow> s\<lparr>THREADS := (THREADS s)[CURRENT s := Some (f th)]\<rparr>
      | None \<Rightarrow> s)"

definition current_process_mut :: "(process \<Rightarrow> process) \<Rightarrow> kernel \<Rightarrow> kernel" where
  "current_process_mut f s =
     (case current_thread s of
        Some th \<Rightarrow>
          (case PROCESSES s ! group_slot th of
             Some p \<Rightarrow> s\<lparr>PROCESSES := (PROCESSES s)[group_slot th := Some (f p)]\<rparr>
           | None \<Rightarrow> s)
      | None \<Rightarrow> s)"

definition current_brk :: "kernel \<Rightarrow> usize" where
  "current_brk s = (case current_process s of Some p \<Rightarrow> program_break p | None \<Rightarrow> 0)"

definition current_pid :: "kernel \<Rightarrow> nat" where
  "current_pid s = (case current_process s of Some p \<Rightarrow> pid p | None \<Rightarrow> 0)"

definition current_tid :: "kernel \<Rightarrow> nat" where
  "current_tid s = (case current_thread s of Some th \<Rightarrow> tid th | None \<Rightarrow> 0)"

definition current_ppid :: "kernel \<Rightarrow> nat" where
  "current_ppid s = (case current_process s of Some p \<Rightarrow> parent_pid p | None \<Rightarrow> 0)"

definition active_process_count :: "kernel \<Rightarrow> nat" where
  "active_process_count s = length (filter (\<lambda>p. p \<noteq> None) (PROCESSES s))"

definition set_brk :: "usize \<Rightarrow> kernel \<Rightarrow> kernel" where
  "set_brk new_brk s = current_process_mut (program_break_update (\<lambda>_. new_brk)) s"

definition current_fs_base :: "kernel \<Rightarrow> u64" where
  "current_fs_base s = (case current_thread s of Some th \<Rightarrow> fs_base th | None \<Rightarrow> 0)"

definition current_exe_path :: "kernel \<Rightarrow> u8 list \<times> nat" where
  "current_exe_path s =
     (case current_process s of
        Some p \<Rightarrow> (exe_path p, exe_path_len p)
      | None \<Rightarrow> (replicate EXE_PATH_MAX 0, 0))"

definition is_running_in_slot :: "nat \<Rightarrow> kernel \<Rightarrow> bool" where
  "is_running_in_slot slot s =
     (case PROCESSES s ! slot of Some p \<Rightarrow> proc_state p = PRunning | None \<Rightarrow> False)"

definition find_slot_by_pid :: "nat \<Rightarrow> kernel \<Rightarrow> nat option" where
  "find_slot_by_pid n s =
     position (\<lambda>pr. case pr of Some p \<Rightarrow> pid p = n | None \<Rightarrow> False) (PROCESSES s)"

definition find_thread_slot_by_tid :: "nat \<Rightarrow> kernel \<Rightarrow> nat option" where
  "find_thread_slot_by_tid n s =
     position (\<lambda>tr. case tr of Some th \<Rightarrow> tid th = n | None \<Rightarrow> False) (THREADS s)"

section \<open>Creating tasks\<close>

text \<open>
  The common part of \<^verbatim>\<open>add_task\<close>, \<^verbatim>\<open>spawn_user_task\<close> and \<^verbatim>\<open>spawn_forked_task\<close>: a free
  slot, four frames of kernel stack, the initial frame, a zero \<^verbatim>\<open>Context\<close> below it, and the
  table entry. \<open>frm\<close> writes the initial frame below the stack top it is given and returns the
  stack pointer under it.
\<close>

definition CONTEXT_SIZE :: u64 where "CONTEXT_SIZE = 48"
definition SYSCALL_FRAME_SIZE :: nat where "SYSCALL_FRAME_SIZE = 128"
definition STACK_PAGES :: nat where "STACK_PAGES = 4"

definition stack_top :: "u64 \<Rightarrow> u64" where
  "stack_top base = base + of_nat (STACK_PAGES * PAGE_SIZE)"

definition push64 :: "u64 \<Rightarrow> u64 \<times> memory \<Rightarrow> u64 \<times> memory" where
  "push64 v = (\<lambda>(sp, m). (sp - 8, wr64 m (v2p (sp - 8)) v))"

definition push_context :: "u64 \<times> memory \<Rightarrow> u64 \<times> memory" where
  "push_context = (\<lambda>(sp, m). (sp - CONTEXT_SIZE, zero_bytes m (v2p (sp - CONTEXT_SIZE)) 48))"

definition new_task ::
  "(u64 \<times> memory \<Rightarrow> u64 \<times> memory) \<Rightarrow> u64 \<Rightarrow> kernel \<Rightarrow> nat option \<times> kernel" where
  "new_task frm pml4 s =
     (case position (\<lambda>t. t = None) (TASKS s) of
        None \<Rightarrow> (None, s)
      | Some slot \<Rightarrow>
          (let (stack_phys, s1) = alloc_frames STACK_PAGES s
           in if stack_phys = 0 then (None, s1)
              else
                let base = p2v stack_phys;
                    (sp, m) = push_context (frm (stack_top base, MEM s1));
                    t = \<lparr>task_rsp = sp, stack_base = base, task_st = Ready, task_id = NEXT_ID s1,
                         rsp_valid = True, task_pml4 = pml4\<rparr>
                in (Some slot,
                    s1\<lparr>MEM := m, NEXT_ID := NEXT_ID s1 + 1,
                       TASKS := (TASKS s1)[slot := Some t]\<rparr>)))"

definition add_task :: "u64 \<Rightarrow> kernel \<Rightarrow> bool \<times> kernel" where
  "add_task entry_pt s =
     (case new_task (push64 entry_pt) (KERNEL_PML4 s) s of (r, t) \<Rightarrow> (r \<noteq> None, t))"

definition spawn_user_task :: "u64 \<Rightarrow> u64 \<Rightarrow> u64 \<Rightarrow> kernel \<Rightarrow> nat option \<times> kernel" where
  "spawn_user_task entry_pt user_sp pml4 s =
     new_task (push64 (USER_TRAMPOLINE s) \<circ> push64 entry_pt \<circ> push64 user_sp \<circ> push64 pml4) pml4 s"

definition fork_frame :: "u8 list \<Rightarrow> u64 \<times> memory \<Rightarrow> u64 \<times> memory" where
  "fork_frame frame = (\<lambda>(sp, m).
     let start = sp - of_nat SYSCALL_FRAME_SIZE
     in (start, wr64 (wr_bytes m (v2p start) frame) (v2p (start + 88)) 0))"

definition spawn_forked_task :: "u64 \<Rightarrow> u64 \<Rightarrow> kernel \<Rightarrow> nat option \<times> kernel" where
  "spawn_forked_task syscall_frame pml4 s =
     new_task
       (\<lambda>(sp, m). push64 (FORK_TRAMPOLINE s)
          (fork_frame (rd_bytes m (v2p syscall_frame) SYSCALL_FRAME_SIZE) (sp, m)))
       pml4 s"

text \<open>The address of the frame that a forked task will return with.\<close>

definition task_frame_mut :: "nat \<Rightarrow> kernel \<Rightarrow> u64 option" where
  "task_frame_mut slot s =
     (if slot < length (TASKS s)
      then map_option (\<lambda>t. task_rsp t + CONTEXT_SIZE + 8) (TASKS s ! slot) else None)"

definition init_main_task :: "u64 \<Rightarrow> kernel \<Rightarrow> kernel" where
  "init_main_task base s =
     s\<lparr>TASKS := (TASKS s)[0 := Some \<lparr>task_rsp = 0, stack_base = base, task_st = Running,
                                      task_id = 0, rsp_valid = True, task_pml4 = KERNEL_PML4 s\<rparr>],
       CURRENT := 0\<rparr>"

definition kill_task :: "nat \<Rightarrow> kernel \<Rightarrow> kernel" where
  "kill_task slot s =
     (case TASKS s ! slot of
        Some t \<Rightarrow> s\<lparr>TASKS := (TASKS s)[slot := Some (t\<lparr>task_st := Dead\<rparr>)]\<rparr>
      | None \<Rightarrow> s)"

section \<open>Creating and ending threads and processes\<close>

definition spawn_named :: "nat \<Rightarrow> string \<Rightarrow> kernel \<Rightarrow> nat \<times> kernel" where
  "spawn_named slot name s =
     (let p = NEXT_PID s; parent = current_pid s
      in (p, s\<lparr>NEXT_PID := p + 1,
               PROCESSES := (PROCESSES s)[slot := Some (process_new_leader p parent name)],
               THREADS := (THREADS s)[slot := Some (thread_new_leader p parent slot slot)]\<rparr>))"

definition spawn :: "nat \<Rightarrow> kernel \<Rightarrow> nat \<times> kernel" where
  "spawn slot s = spawn_named slot [] s"

definition spawn_thread_in_group ::
  "nat \<Rightarrow> u64 \<Rightarrow> u64 \<Rightarrow> kernel \<Rightarrow> (kernel, nat) outcome" where
  "spawn_thread_in_group slot cct fsb s =
     (let t = NEXT_PID s
      in case current_thread s of
           None \<Rightarrow> Panicked
         | Some cur \<Rightarrow>
             (case PROCESSES s ! group_slot cur of
                None \<Rightarrow> Panicked
              | Some p \<Rightarrow>
                  Done t
                    (s\<lparr>NEXT_PID := t + 1,
                       PROCESSES := (PROCESSES s)
                         [group_slot cur := Some (p\<lparr>thread_count := thread_count p + 1\<rparr>)],
                       THREADS := (THREADS s)
                         [slot := Some (thread_new_group_member t (tid cur) (group_slot cur) slot
                                          cct fsb (sig_mask cur))]\<rparr>)))"

text \<open>One iteration of the loop over \<^verbatim>\<open>THREADS\<close> in \<^verbatim>\<open>exit_thread\<close>.\<close>

definition end_group_thread :: "nat \<Rightarrow> nat \<Rightarrow> nat \<Rightarrow> kernel \<Rightarrow> kernel" where
  "end_group_thread g own slot s =
     (case THREADS s ! slot of
        None \<Rightarrow> s
      | Some th \<Rightarrow>
          if group_slot th \<noteq> g then s
          else let s1 = s\<lparr>THREADS := (THREADS s)[slot := Some (th\<lparr>thread_st := TZombie\<rparr>)]\<rparr>
               in if slot \<noteq> own then kill_task slot s1 else s1)"

definition exit_thread :: "i64 \<Rightarrow> bool \<Rightarrow> kernel \<Rightarrow> bool \<times> kernel" where
  "exit_thread code whole_group s =
     (case current_thread s of
        None \<Rightarrow> (False, s)
      | Some th \<Rightarrow>
          (let own = task_slot th; g = group_slot th;
               s1 = current_thread_mut (thread_st_update (\<lambda>_. TZombie)) s
           in case PROCESSES s1 ! g of
                None \<Rightarrow> (False, s1)
              | Some p \<Rightarrow>
                  if whole_group then
                    let p' = p\<lparr>proc_state := PZombie, exit_code := code, thread_count := 0\<rparr>;
                        s2 = s1\<lparr>PROCESSES := (PROCESSES s1)[g := Some p']\<rparr>
                    in (True, fold (end_group_thread g own) [0..<length (THREADS s2)] s2)
                  else
                    let p1 = (if thread_count p > 0
                              then p\<lparr>thread_count := thread_count p - 1\<rparr> else p)
                    in if thread_count p1 = 0
                       then (True, s1\<lparr>PROCESSES := (PROCESSES s1)
                                       [g := Some (p1\<lparr>proc_state := PZombie, exit_code := code\<rparr>)]\<rparr>)
                       else (False, s1\<lparr>PROCESSES := (PROCESSES s1)[g := Some p1]\<rparr>)))"

definition process_exit :: "i64 \<Rightarrow> kernel \<Rightarrow> kernel" where
  "process_exit code s = snd (exit_thread code False s)"

definition task_slot_reaped :: "nat \<Rightarrow> kernel \<Rightarrow> kernel" where
  "task_slot_reaped slot s =
     (case THREADS s ! slot of
        None \<Rightarrow> s
      | Some th \<Rightarrow>
          if group_slot th \<noteq> slot then s\<lparr>THREADS := (THREADS s)[slot := None]\<rparr> else s)"

section \<open>Scheduling\<close>

definition runnable :: "task option \<Rightarrow> bool" where
  "runnable t = (case t of Some t \<Rightarrow> task_st t = Ready \<and> rsp_valid t | None \<Rightarrow> False)"

definition next_idx :: "kernel \<Rightarrow> nat option" where
  "next_idx s =
     map_option (\<lambda>i. (CURRENT s + i) mod MAX_TASKS)
       (first_such (\<lambda>i. runnable (TASKS s ! ((CURRENT s + i) mod MAX_TASKS))) 1 (MAX_TASKS + 1))"

datatype rsp_ptr = TaskRsp nat | DeadRsp

definition retire_current :: "kernel \<Rightarrow> rsp_ptr \<times> kernel" where
  "retire_current s =
     (let cur = CURRENT s
      in case TASKS s ! cur of
           None \<Rightarrow> (DeadRsp, s)
         | Some t \<Rightarrow>
             let t1 = (if task_st t = Running then t\<lparr>task_st := Ready\<rparr> else t)
             in if task_st t1 = Dead then
                  let s1 = task_slot_reaped cur s
                  in (DeadRsp, s1\<lparr>TASKS := (TASKS s1)[cur := None]\<rparr>)
                else (TaskRsp cur,
                      s\<lparr>TASKS := (TASKS s)[cur := Some (t1\<lparr>rsp_valid := True\<rparr>)]\<rparr>))"

definition next_task_switch ::
  "kernel \<Rightarrow> (kernel, (rsp_ptr \<times> u64 \<times> u64 \<times> u64) option) outcome" where
  "next_task_switch s =
     (case next_idx s of
        None \<Rightarrow> Done None s
      | Some nxt \<Rightarrow>
          (let (old, s1) = retire_current s
           in case TASKS s1 ! nxt of
                None \<Rightarrow> Panicked
              | Some t \<Rightarrow>
                  let s2 = s1\<lparr>TASKS := (TASKS s1)[nxt := Some (t\<lparr>task_st := Running\<rparr>)],
                              CURRENT := nxt, TSS_RSP0 := stack_top (stack_base t)\<rparr>;
                      fsb = (case THREADS s2 ! nxt of Some th \<Rightarrow> fs_base th | None \<Rightarrow> 0)
                  in Done (Some (old, task_rsp t, task_pml4 t, fsb)) s2))"

text \<open>
  \<^verbatim>\<open>switch_to\<close>: \<open>rsp\<close> is the stack pointer after the pushes, which is what the code saves. The
  pushes and pops themselves, and the jump to the new task, are the assembly's.
\<close>

definition switch_to :: "rsp_ptr \<Rightarrow> u64 \<Rightarrow> u64 \<Rightarrow> u64 \<Rightarrow> kernel \<Rightarrow> kernel" where
  "switch_to old rsp new_pml4 new_fs_base s =
     (let s1 = (case old of
                  DeadRsp \<Rightarrow> s\<lparr>DEAD_RSP := rsp\<rparr>
                | TaskRsp i \<Rightarrow>
                    s\<lparr>TASKS := (TASKS s)[i := map_option (task_rsp_update (\<lambda>_. rsp)) (TASKS s ! i)]\<rparr>)
      in s1\<lparr>CR3 := new_pml4, FS_BASE := new_fs_base\<rparr>)"

definition try_switch :: "u64 \<Rightarrow> kernel \<Rightarrow> (kernel, unit) outcome" where
  "try_switch rsp s =
     (if IN_SYSCALL s then Done () s
      else obind (next_task_switch s) (\<lambda>r t.
        case r of
          None \<Rightarrow> Done () t
        | Some (old, new_rsp, new_pml4, new_fs_base) \<Rightarrow>
            Done () (switch_to old rsp new_pml4 new_fs_base t)))"

definition tick :: "u64 \<Rightarrow> kernel \<Rightarrow> (kernel, unit) outcome" where
  "tick rsp s = (if TICKS s mod 10 = 0 then try_switch rsp s else Done () s)"

definition pit_handler :: "u64 \<Rightarrow> kernel \<Rightarrow> (kernel, unit) outcome" where
  "pit_handler rsp s = tick rsp (s\<lparr>TICKS := TICKS s + 1\<rparr>)"

text \<open>
  The handler of processor exceptions: the thread exits with the vector as its code and its task
  is marked dead. The handler then halts until the next timer interrupt.
\<close>

definition default_exception :: "u64 \<Rightarrow> kernel \<Rightarrow> kernel" where
  "default_exception vector s =
     (let s1 = process_exit vector s
      in case current_task_slot s1 of Some slot \<Rightarrow> kill_task slot s1 | None \<Rightarrow> s1)"

section \<open>One task runs at a time\<close>

definition sched_inv :: "kernel \<Rightarrow> bool" where
  "sched_inv s \<longleftrightarrow>
     length (TASKS s) = MAX_TASKS \<and> CURRENT s < MAX_TASKS \<and>
     (\<forall>i < MAX_TASKS. \<forall>t. TASKS s ! i = Some t \<and> task_st t = Running \<longrightarrow> i = CURRENT s)"

text \<open>How many slots after the current one a slot is searched.\<close>

definition ahead :: "kernel \<Rightarrow> nat \<Rightarrow> nat" where
  "ahead s j = (if CURRENT s < j then j - CURRENT s else j + MAX_TASKS - CURRENT s)"

lemma ahead_bounds:
  "CURRENT s < MAX_TASKS \<Longrightarrow> j < MAX_TASKS \<Longrightarrow> 1 \<le> ahead s j \<and> ahead s j < MAX_TASKS + 1"
  by (auto simp: ahead_def)

lemma ahead_mod:
  "CURRENT s < MAX_TASKS \<Longrightarrow> j < MAX_TASKS \<Longrightarrow> (CURRENT s + ahead s j) mod MAX_TASKS = j"
  by (auto simp: ahead_def)

lemma ahead_of_mod:
  assumes "CURRENT s < MAX_TASKS" "1 \<le> i" "i < MAX_TASKS + 1"
  shows "ahead s ((CURRENT s + i) mod MAX_TASKS) = i"
proof (cases "CURRENT s + i < MAX_TASKS")
  case True
  with assms show ?thesis by (simp add: ahead_def)
next
  case False
  with assms have "(CURRENT s + i) mod MAX_TASKS = CURRENT s + i - MAX_TASKS"
    by (simp add: le_mod_geq)
  with assms False show ?thesis by (auto simp: ahead_def)
qed

lemma next_idx_SomeD:
  assumes "next_idx s = Some n" "CURRENT s < MAX_TASKS"
  shows "n < MAX_TASKS" "runnable (TASKS s ! n)"
    and "\<And>j. j < MAX_TASKS \<Longrightarrow> runnable (TASKS s ! j) \<Longrightarrow> ahead s n \<le> ahead s j"
proof -
  obtain i where i: "first_such (\<lambda>i. runnable (TASKS s ! ((CURRENT s + i) mod MAX_TASKS))) 1
      (MAX_TASKS + 1) = Some i" and n: "n = (CURRENT s + i) mod MAX_TASKS"
    using assms(1) by (auto simp: next_idx_def)
  from i [unfolded first_such_Some_iff] have i':
      "1 \<le> i" "i < MAX_TASKS + 1" "runnable (TASKS s ! ((CURRENT s + i) mod MAX_TASKS))"
      "\<forall>k. 1 \<le> k \<and> k < i \<longrightarrow> \<not> runnable (TASKS s ! ((CURRENT s + k) mod MAX_TASKS))"
    by blast+
  show "n < MAX_TASKS" by (simp add: n MAX_TASKS_def)
  show "runnable (TASKS s ! n)" using i'(3) n by simp
  fix j
  assume j: "j < MAX_TASKS" "runnable (TASKS s ! j)"
  have "\<not> ahead s j < i"
    using i'(4) ahead_bounds [OF assms(2) j(1)] ahead_mod [OF assms(2) j(1)] j(2) by auto
  moreover have "ahead s n = i"
    using ahead_of_mod [OF assms(2) i'(1,2)] n by simp
  ultimately show "ahead s n \<le> ahead s j" by simp
qed

lemma next_idx_NoneD:
  assumes "next_idx s = None" "CURRENT s < MAX_TASKS" "j < MAX_TASKS"
  shows "\<not> runnable (TASKS s ! j)"
proof -
  have "\<not> runnable (TASKS s ! ((CURRENT s + ahead s j) mod MAX_TASKS))"
    using assms(1) ahead_bounds [OF assms(2,3)]
    by (auto simp: next_idx_def first_such_None_iff)
  then show ?thesis by (simp add: ahead_mod [OF assms(2,3)])
qed

text \<open>What leaving the processor does to the task table.\<close>

lemma task_slot_reaped_same [simp]:
  "TASKS (task_slot_reaped i s) = TASKS s" "CURRENT (task_slot_reaped i s) = CURRENT s"
  by (simp_all add: task_slot_reaped_def split: option.split)

definition switched_out :: "task option \<Rightarrow> task option" where
  "switched_out t =
     (case t of
        None \<Rightarrow> None
      | Some t \<Rightarrow>
          if task_st t = Dead then None
          else Some (t\<lparr>task_st := Ready, rsp_valid := True\<rparr>))"

lemma retire_current_tasks:
  assumes "CURRENT s < length (TASKS s)"
  shows "TASKS (snd (retire_current s)) = (TASKS s)[CURRENT s := switched_out (TASKS s ! CURRENT s)]"
    and "CURRENT (snd (retire_current s)) = CURRENT s"
    and "fst (retire_current s) =
           (if switched_out (TASKS s ! CURRENT s) = None then DeadRsp else TaskRsp (CURRENT s))"
proof -
  have st: "t\<lparr>task_st := Ready\<rparr> = t" if "task_st t \<noteq> Running" "task_st t \<noteq> Dead" for t :: task
    using that by (cases "task_st t") simp_all
  show "TASKS (snd (retire_current s)) = (TASKS s)[CURRENT s := switched_out (TASKS s ! CURRENT s)]"
  proof (cases "TASKS s ! CURRENT s")
    case None
    then have "(TASKS s)[CURRENT s := None] = TASKS s"
      by (metis list_update_id)
    with None show ?thesis by (simp add: retire_current_def switched_out_def)
  qed (auto simp: retire_current_def switched_out_def st Let_def)
  show "CURRENT (snd (retire_current s)) = CURRENT s"
    by (simp add: retire_current_def Let_def split: option.split)
  show "fst (retire_current s) =
           (if switched_out (TASKS s ! CURRENT s) = None then DeadRsp else TaskRsp (CURRENT s))"
    by (simp add: retire_current_def switched_out_def Let_def split: option.split)
qed

lemma next_task_switch_cases:
  assumes "sched_inv s"
  obtains (idle) "next_idx s = None" "next_task_switch s = Done None s"
  | (switch) n t s' where "next_idx s = Some n" "n < MAX_TASKS"
      "(TASKS s)[CURRENT s := switched_out (TASKS s ! CURRENT s)] ! n = Some t" "runnable (TASKS s ! n)"
      "next_task_switch s =
         Done (Some (fst (retire_current s), task_rsp t, task_pml4 t,
                     case THREADS s' ! n of Some th \<Rightarrow> fs_base th | None \<Rightarrow> 0)) s'"
      "TASKS s' = (TASKS s)[CURRENT s := switched_out (TASKS s ! CURRENT s),
                            n := Some (t\<lparr>task_st := Running\<rparr>)]"
      "CURRENT s' = n" "TSS_RSP0 s' = stack_top (stack_base t)"
proof (cases "next_idx s")
  case None
  then show ?thesis using idle by (simp add: next_task_switch_def)
next
  case (Some n)
  have wf: "CURRENT s < MAX_TASKS" "length (TASKS s) = MAX_TASKS"
    using assms by (simp_all add: sched_inv_def)
  note n = next_idx_SomeD(1,2) [OF Some wf(1)]
  obtain old s1 where r: "retire_current s = (old, s1)" by (cases "retire_current s")
  note rc = retire_current_tasks [of s, unfolded r wf, simplified, OF wf(1)]
  obtain t0 where t0: "TASKS s ! n = Some t0" "task_st t0 = Ready" "rsp_valid t0"
    using n(2) by (auto simp: runnable_def split: option.splits)
  then obtain t where t: "TASKS s1 ! n = Some t"
    using wf n by (cases "n = CURRENT s") (auto simp: rc switched_out_def)
  show ?thesis
    by (rule switch [OF Some n(1) _ n(2), of t "s1\<lparr>TASKS := (TASKS s1)[n := Some (t\<lparr>task_st := Running\<rparr>)],
          CURRENT := n, TSS_RSP0 := stack_top (stack_base t)\<rparr>"])
      (use t in \<open>simp_all add: next_task_switch_def Some r Let_def rc(1)\<close>)
qed

lemma next_task_switch_sched_inv:
  assumes "sched_inv s" "next_task_switch s = Done r t"
  shows "sched_inv t"
proof (rule next_task_switch_cases [OF assms(1)])
  fix n u s'
  assume n: "n < MAX_TASKS" and sw: "next_task_switch s = Done (Some (fst (retire_current s),
      task_rsp u, task_pml4 u, case THREADS s' ! n of Some th \<Rightarrow> fs_base th | None \<Rightarrow> 0)) s'"
    and s': "TASKS s' = (TASKS s)[CURRENT s := switched_out (TASKS s ! CURRENT s),
               n := Some (u\<lparr>task_st := Running\<rparr>)]" "CURRENT s' = n"
  have out: "task_st v = Ready" if "switched_out x = Some v" for x v
    using that by (auto simp: switched_out_def split: option.splits if_splits)
  have "sched_inv s'"
    using assms(1) n out by (auto simp: sched_inv_def s' nth_list_update split: if_splits)
  then show ?thesis using assms(2) sw by simp
qed (use assms in simp)

text \<open>C7: whenever at most the current task is marked running, the scheduler either changes
  nothing because no task is ready, or hands the processor to the first ready task after the
  current one in cyclic order. It then returns that task's saved stack pointer and address
  space, the kernel entry stack is that task's own, the task that left is ready again (its slot
  is freed if it was dead), every other slot is untouched, and again only the current task is
  marked running. It never panics.
\<close>

theorem next_task_switch_correct:
  assumes "sched_inv s"
  shows "case next_task_switch s of
           Done None s' \<Rightarrow> s' = s \<and> (\<forall>j < MAX_TASKS. \<not> runnable (TASKS s ! j))
         | Done (Some (old, rsp, pml4, fsb)) s' \<Rightarrow>
             sched_inv s' \<and> runnable (TASKS s ! CURRENT s') \<and>
             (\<forall>j < MAX_TASKS. runnable (TASKS s ! j) \<longrightarrow> ahead s (CURRENT s') \<le> ahead s j) \<and>
             (\<exists>t. TASKS s' ! CURRENT s' = Some t \<and> task_st t = Running \<and> rsp = task_rsp t \<and>
                  pml4 = task_pml4 t \<and> TSS_RSP0 s' = stack_top (stack_base t)) \<and>
             (CURRENT s' \<noteq> CURRENT s \<longrightarrow>
                TASKS s' ! CURRENT s = switched_out (TASKS s ! CURRENT s)) \<and>
             (\<forall>j < MAX_TASKS. j \<noteq> CURRENT s \<and> j \<noteq> CURRENT s' \<longrightarrow> TASKS s' ! j = TASKS s ! j) \<and>
             old = (if switched_out (TASKS s ! CURRENT s) = None then DeadRsp
                    else TaskRsp (CURRENT s))
         | _ \<Rightarrow> False"
proof (rule next_task_switch_cases [OF assms])
  assume "next_idx s = None" "next_task_switch s = Done None s"
  then show ?thesis using assms next_idx_NoneD by (auto simp: sched_inv_def)
next
  fix n t s'
  assume n: "next_idx s = Some n" "n < MAX_TASKS"
    and t: "(TASKS s)[CURRENT s := switched_out (TASKS s ! CURRENT s)] ! n = Some t"
    and run: "runnable (TASKS s ! n)"
    and sw: "next_task_switch s =
         Done (Some (fst (retire_current s), task_rsp t, task_pml4 t,
                     case THREADS s' ! n of Some th \<Rightarrow> fs_base th | None \<Rightarrow> 0)) s'"
    and s': "TASKS s' = (TASKS s)[CURRENT s := switched_out (TASKS s ! CURRENT s),
                            n := Some (t\<lparr>task_st := Running\<rparr>)]"
      "CURRENT s' = n" "TSS_RSP0 s' = stack_top (stack_base t)"
  have wf: "CURRENT s < MAX_TASKS" "length (TASKS s) = MAX_TASKS"
    using assms by (simp_all add: sched_inv_def)
  have inv: "sched_inv s'"
    by (rule next_task_switch_sched_inv [OF assms sw])
  show ?thesis
    using n wf run inv next_idx_SomeD(3) [OF n(1) wf(1)] retire_current_tasks(3) [of s]
    by (simp add: sw s' nth_list_update)
qed

definition task_example :: "task_state \<Rightarrow> nat \<Rightarrow> task" where
  "task_example st n =
     \<lparr>task_rsp = of_nat (n * 0x1000), stack_base = of_nat (n * 0x4000), task_st = st, task_id = n,
      rsp_valid = True, task_pml4 = of_nat (n * 0x100000)\<rparr>"

definition tasks_example :: kernel where
  "tasks_example =
     (kernel_statics pmm_new (\<lambda>_. 0))\<lparr>CURRENT := 1,
        TASKS := [Some (task_example Ready 0), Some (task_example Running 1), None,
                  Some (task_example Dead 3), Some (task_example Ready 4), None, None, None]\<rparr>"

lemma all_slots:
  "(\<forall>i < MAX_TASKS. P i) \<longleftrightarrow> P 0 \<and> P 1 \<and> P 2 \<and> P 3 \<and> P 4 \<and> P 5 \<and> P 6 \<and> P 7"
  by (simp add: MAX_TASKS_def eval_nat_numeral All_less_Suc conj_ac)

lemma tasks_example_inv: "sched_inv tasks_example"
  unfolding sched_inv_def all_slots
  by (simp add: tasks_example_def task_example_def) (simp add: MAX_TASKS_def)

theorem next_task_switch_correct_witness:
  "sched_inv tasks_example \<and>
   (case next_task_switch tasks_example of
      Done (Some (old, rsp, pml4, fsb)) s' \<Rightarrow>
        sched_inv s' \<and> CURRENT s' = 4 \<and> old = TaskRsp 1 \<and> rsp = 0x4000 \<and> pml4 = 0x400000
    | _ \<Rightarrow> False)"
proof -
  have "next_idx tasks_example = Some 4"
    by (simp add: next_idx_def tasks_example_def task_example_def runnable_def MAX_TASKS_def
        first_such.simps)
  then have "\<exists>old rsp pml4 fsb s'.
      next_task_switch tasks_example = Done (Some (old, rsp, pml4, fsb)) s' \<and>
      CURRENT s' = 4 \<and> old = TaskRsp 1 \<and> rsp = 0x4000 \<and> pml4 = 0x400000"
    by (simp add: next_task_switch_def retire_current_def tasks_example_def task_example_def)
  then show ?thesis
    using next_task_switch_correct [OF tasks_example_inv] tasks_example_inv by auto
qed

subsection \<open>No ready task is passed over for ever\<close>

definition switch_step :: "kernel \<Rightarrow> kernel" where
  "switch_step s = (case next_task_switch s of Done _ s' \<Rightarrow> s' | _ \<Rightarrow> s)"

lemma ahead_less:
  assumes "CURRENT s < MAX_TASKS" "n < MAX_TASKS" "j < MAX_TASKS" "n \<noteq> j" "ahead s n \<le> ahead s j"
    "CURRENT s' = n"
  shows "ahead s' j < ahead s j"
  using assms by (auto simp: ahead_def split: if_splits)

lemma switch_step_progress:
  assumes "sched_inv s" "j < MAX_TASKS" "runnable (TASKS s ! j)"
  shows "sched_inv (switch_step s)"
    and "CURRENT (switch_step s) = j \<or>
         runnable (TASKS (switch_step s) ! j) \<and> ahead (switch_step s) j < ahead s j"
proof -
  have wf: "CURRENT s < MAX_TASKS" "length (TASKS s) = MAX_TASKS"
    using assms(1) by (simp_all add: sched_inv_def)
  have "sched_inv (switch_step s) \<and> (CURRENT (switch_step s) = j \<or>
         runnable (TASKS (switch_step s) ! j) \<and> ahead (switch_step s) j < ahead s j)"
  proof (rule next_task_switch_cases [OF assms(1)])
    assume "next_idx s = None"
    then have False using next_idx_NoneD wf assms(2,3) by blast
    then show ?thesis ..
  next
    fix n t s'
    assume n: "next_idx s = Some n" "n < MAX_TASKS"
      and sw: "next_task_switch s =
         Done (Some (fst (retire_current s), task_rsp t, task_pml4 t,
                     case THREADS s' ! n of Some th \<Rightarrow> fs_base th | None \<Rightarrow> 0)) s'"
      and s': "TASKS s' = (TASKS s)[CURRENT s := switched_out (TASKS s ! CURRENT s),
                            n := Some (t\<lparr>task_st := Running\<rparr>)]" "CURRENT s' = n"
    have step: "switch_step s = s'" by (simp add: switch_step_def sw)
    have "sched_inv s'"
      by (rule next_task_switch_sched_inv [OF assms(1) sw])
    moreover have "runnable (TASKS s' ! j)" if "n \<noteq> j"
      using that assms wf
      by (cases "j = CURRENT s") (auto simp: s' runnable_def switched_out_def split: option.splits)
    moreover have "ahead s' j < ahead s j" if "n \<noteq> j"
      using ahead_less [OF wf(1) n(2) assms(2) that _ s'(2)] next_idx_SomeD(3) [OF n(1) wf(1)]
        assms(2,3) by blast
    ultimately show ?thesis by (auto simp: step s'(2))
  qed
  then show "sched_inv (switch_step s)"
    and "CURRENT (switch_step s) = j \<or>
         runnable (TASKS (switch_step s) ! j) \<and> ahead (switch_step s) j < ahead s j"
    by blast+
qed

text \<open>C28: round-robin scheduling is fair. A task that is ready is given the processor by the next
  eight scheduling decisions at the latest, whatever the other slots hold.
\<close>

theorem ready_task_runs:
  assumes "sched_inv s" "j < MAX_TASKS" "runnable (TASKS s ! j)"
  shows "\<exists>n. 1 \<le> n \<and> n \<le> MAX_TASKS \<and> CURRENT ((switch_step ^^ n) s) = j"
proof -
  have "\<exists>n. 1 \<le> n \<and> n \<le> ahead s j \<and> CURRENT ((switch_step ^^ n) s) = j"
    using assms
  proof (induction "ahead s j" arbitrary: s rule: less_induct)
    case less
    note p = switch_step_progress [OF less.prems]
    have a: "1 \<le> ahead s j"
      using less.prems ahead_bounds by (simp add: sched_inv_def)
    from p(2) show ?case
    proof
      assume "CURRENT (switch_step s) = j"
      with a show ?thesis by (intro exI [of _ 1]) simp
    next
      assume q: "runnable (TASKS (switch_step s) ! j) \<and> ahead (switch_step s) j < ahead s j"
      then obtain n where "1 \<le> n" "n \<le> ahead (switch_step s) j"
          "CURRENT ((switch_step ^^ n) (switch_step s)) = j"
        using less.hyps p(1) less.prems(2) by blast
      with q show ?thesis
        by (intro exI [of _ "Suc n"]) (simp only: funpow_Suc_right o_def, simp)
    qed
  qed
  then obtain n where n: "1 \<le> n" "n \<le> ahead s j" "CURRENT ((switch_step ^^ n) s) = j"
    by blast
  have "ahead s j \<le> MAX_TASKS"
    using assms ahead_bounds [of s j] by (simp add: sched_inv_def)
  with n show ?thesis by (intro exI [of _ n]) simp
qed

theorem ready_task_runs_witness:
  "sched_inv tasks_example \<and> runnable (TASKS tasks_example ! 0) \<and>
   (\<exists>n. 1 \<le> n \<and> n \<le> MAX_TASKS \<and> CURRENT ((switch_step ^^ n) tasks_example) = 0)"
proof -
  have "runnable (TASKS tasks_example ! 0)" "0 < MAX_TASKS"
    by (simp_all add: tasks_example_def runnable_def task_example_def MAX_TASKS_def)
  then show ?thesis using ready_task_runs [OF tasks_example_inv] tasks_example_inv by blast
qed

section \<open>Thread groups\<close>

definition in_group :: "nat \<Rightarrow> thread option \<Rightarrow> bool" where
  "in_group g th = (case th of Some th \<Rightarrow> group_slot th = g | None \<Rightarrow> False)"

definition ended :: "thread option \<Rightarrow> thread option" where
  "ended th = map_option (thread_st_update (\<lambda>_. TZombie)) th"

definition killed :: "task option \<Rightarrow> task option" where
  "killed t = map_option (task_st_update (\<lambda>_. Dead)) t"

lemma kill_task_fields [simp]:
  "THREADS (kill_task i s) = THREADS s" "PROCESSES (kill_task i s) = PROCESSES s"
  "CURRENT (kill_task i s) = CURRENT s" "length (TASKS (kill_task i s)) = length (TASKS s)"
  "NEXT_PID (kill_task i s) = NEXT_PID s"
  by (simp_all add: kill_task_def split: option.split)

lemma kill_task_TASKS: "i < length (TASKS s) \<Longrightarrow> TASKS (kill_task i s) = (TASKS s)[i := killed (TASKS s ! i)]"
  by (cases "TASKS s ! i") (simp_all add: kill_task_def killed_def, metis list_update_id)

lemma end_group_thread_fields [simp]:
  "PROCESSES (end_group_thread g own i s) = PROCESSES s"
  "CURRENT (end_group_thread g own i s) = CURRENT s"
  "length (THREADS (end_group_thread g own i s)) = length (THREADS s)"
  "length (TASKS (end_group_thread g own i s)) = length (TASKS s)"
  by (simp_all add: end_group_thread_def Let_def split: option.split)

lemma end_group_thread_tables:
  assumes "i < length (THREADS s)" "i < length (TASKS s)"
  shows "THREADS (end_group_thread g own i s) =
           (THREADS s)[i := if in_group g (THREADS s ! i) then ended (THREADS s ! i) else THREADS s ! i]"
    and "TASKS (end_group_thread g own i s) =
           (TASKS s)[i := if in_group g (THREADS s ! i) \<and> i \<noteq> own then killed (TASKS s ! i) else TASKS s ! i]"
  using assms
  by (auto simp: end_group_thread_def in_group_def ended_def kill_task_TASKS Let_def split: option.split)

lemma end_group_fold:
  fixes g own :: nat and s :: kernel
  assumes "n \<le> length (THREADS s)" "n \<le> length (TASKS s)"
    and t_def: "t = fold (end_group_thread g own) [0..<n] s"
  shows "PROCESSES t = PROCESSES s \<and> CURRENT t = CURRENT s \<and>
    length (THREADS t) = length (THREADS s) \<and> length (TASKS t) = length (TASKS s) \<and>
    (\<forall>i < length (THREADS s). THREADS t ! i =
       (if i < n \<and> in_group g (THREADS s ! i) then ended (THREADS s ! i) else THREADS s ! i)) \<and>
    (\<forall>i < length (TASKS s). TASKS t ! i =
       (if i < n \<and> in_group g (THREADS s ! i) \<and> i \<noteq> own then killed (TASKS s ! i) else TASKS s ! i))"
  using assms(1,2) unfolding t_def
proof (induction n)
  case (Suc n)
  let ?u = "fold (end_group_thread g own) [0..<n] s"
  have IH: "PROCESSES ?u = PROCESSES s" "CURRENT ?u = CURRENT s"
    "length (THREADS ?u) = length (THREADS s)" "length (TASKS ?u) = length (TASKS s)"
    "\<forall>i < length (THREADS s). THREADS ?u ! i =
       (if i < n \<and> in_group g (THREADS s ! i) then ended (THREADS s ! i) else THREADS s ! i)"
    "\<forall>i < length (TASKS s). TASKS ?u ! i =
       (if i < n \<and> in_group g (THREADS s ! i) \<and> i \<noteq> own then killed (TASKS s ! i) else TASKS s ! i)"
    using Suc by auto
  have n: "n < length (THREADS ?u)" "n < length (TASKS ?u)"
    using Suc.prems IH by simp_all
  show ?case
    using Suc.prems IH end_group_thread_tables [OF n, of g own]
    by (auto simp: nth_list_update less_Suc_eq)
qed simp

lemma exit_group_tables:
  assumes "current_thread s = Some th" "task_slot th = CURRENT s" "CURRENT s < length (THREADS s)"
    and "PROCESSES s ! group_slot th = Some p" "group_slot th < length (PROCESSES s)"
    and "length (TASKS s) = length (THREADS s)"
  obtains t where "exit_thread code True s = (True, t)"
    "PROCESSES t = (PROCESSES s)[group_slot th :=
      Some (p\<lparr>proc_state := PZombie, exit_code := code, thread_count := 0\<rparr>)]"
    "CURRENT t = CURRENT s"
    "length (THREADS t) = length (THREADS s)" "length (TASKS t) = length (TASKS s)"
    "\<And>i. i < length (THREADS s) \<Longrightarrow> THREADS t ! i =
       (if in_group (group_slot th) (THREADS s ! i) then ended (THREADS s ! i) else THREADS s ! i)"
    "\<And>i. i < length (THREADS s) \<Longrightarrow> TASKS t ! i =
       (if in_group (group_slot th) (THREADS s ! i) \<and> i \<noteq> CURRENT s
        then killed (TASKS s ! i) else TASKS s ! i)"
proof -
  let ?g = "group_slot th" and ?p = "p\<lparr>proc_state := PZombie, exit_code := code, thread_count := 0\<rparr>"
  let ?s = "s\<lparr>THREADS := (THREADS s)[CURRENT s := ended (Some th)],
              PROCESSES := (PROCESSES s)[?g := Some ?p]\<rparr>"
  let ?t = "fold (end_group_thread ?g (CURRENT s)) [0..<length (THREADS s)] ?s"
  have cur: "THREADS s ! CURRENT s = Some th"
    using assms(1) by (simp add: current_thread_def current_task_slot_def)
  have t: "exit_thread code True s = (True, ?t)"
    using assms by (simp add: exit_thread_def current_thread_mut_def ended_def Let_def)
  have grp: "in_group ?g ((THREADS s)[CURRENT s := ended (Some th)] ! i) = in_group ?g (THREADS s ! i)"
    if "i < length (THREADS s)" for i
    using that cur by (cases "i = CURRENT s") (simp_all add: in_group_def ended_def)
  have fin: "ended ((THREADS s)[CURRENT s := ended (Some th)] ! i) = ended (THREADS s ! i)"
    if "i < length (THREADS s)" for i
    using that cur by (cases "i = CURRENT s") (simp_all add: ended_def)
  have other: "(THREADS s)[CURRENT s := ended (Some th)] ! i = THREADS s ! i"
    if "\<not> in_group ?g (THREADS s ! i)" for i
    using that cur by (cases "i = CURRENT s") (simp_all add: in_group_def)
  show thesis
    using end_group_fold [of "length (THREADS s)" ?s ?t ?g "CURRENT s"] assms(6)
    by (intro that [OF t]) (simp_all add: grp fin other)
qed


definition group_example :: kernel where
  "group_example = tasks_example\<lparr>
     THREADS := [None, Some (thread_new_leader 7 0 1 1), None,
                 Some (thread_new_group_member 8 7 1 3 0 0 sigset_empty),
                 Some (thread_new_leader 9 0 4 4), None, None, None],
     PROCESSES := [None, Some ((process_new_leader 7 0 ''sh'')\<lparr>thread_count := 2\<rparr>), None, None,
                   Some (process_new_leader 9 0 ''ls''), None, None, None]\<rparr>"

lemma group_example_current:
  "current_thread group_example = Some (thread_new_leader 7 0 1 1)" "CURRENT group_example = 1"
  "length (THREADS group_example) = 8" "length (PROCESSES group_example) = 8"
  "length (TASKS group_example) = 8"
  "PROCESSES group_example ! 1 = Some ((process_new_leader 7 0 ''sh'')\<lparr>thread_count := 2\<rparr>)"
  by (simp_all add: group_example_def tasks_example_def current_thread_def current_task_slot_def)


definition live_in :: "nat \<Rightarrow> thread option \<Rightarrow> bool" where
  "live_in g th = (case th of Some th \<Rightarrow> group_slot th = g \<and> thread_st th = TRunning | None \<Rightarrow> False)"

definition threads_inv :: "kernel \<Rightarrow> bool" where
  "threads_inv s \<longleftrightarrow>
     length (PROCESSES s) = MAX_TASKS \<and> length (THREADS s) = MAX_TASKS \<and>
     length (TASKS s) = MAX_TASKS \<and> CURRENT s < MAX_TASKS \<and>
     (\<forall>i < MAX_TASKS. \<forall>th. THREADS s ! i = Some th \<longrightarrow>
        task_slot th = i \<and> group_slot th < MAX_TASKS \<and>
        (thread_st th = TRunning \<longrightarrow> PROCESSES s ! group_slot th \<noteq> None)) \<and>
     (\<forall>g < MAX_TASKS. \<forall>p. PROCESSES s ! g = Some p \<longrightarrow>
        thread_count p = count_if (live_in g) (THREADS s) \<and>
        (proc_state p = PRunning \<longleftrightarrow> 0 < thread_count p))"

lemma threads_invD:
  assumes "threads_inv s"
  shows "length (PROCESSES s) = MAX_TASKS" "length (THREADS s) = MAX_TASKS"
    "length (TASKS s) = MAX_TASKS" "CURRENT s < MAX_TASKS"
    and "\<And>i th. i < MAX_TASKS \<Longrightarrow> THREADS s ! i = Some th \<Longrightarrow> task_slot th = i"
    and "\<And>i th. i < MAX_TASKS \<Longrightarrow> THREADS s ! i = Some th \<Longrightarrow> group_slot th < MAX_TASKS"
    and "\<And>i th. i < MAX_TASKS \<Longrightarrow> THREADS s ! i = Some th \<Longrightarrow> thread_st th = TRunning \<Longrightarrow>
           PROCESSES s ! group_slot th \<noteq> None"
    and "\<And>g p. g < MAX_TASKS \<Longrightarrow> PROCESSES s ! g = Some p \<Longrightarrow>
           thread_count p = count_if (live_in g) (THREADS s)"
    and "\<And>g p. g < MAX_TASKS \<Longrightarrow> PROCESSES s ! g = Some p \<Longrightarrow>
           proc_state p = PRunning \<longleftrightarrow> 0 < thread_count p"
  using assms unfolding threads_inv_def by blast+

lemma live_in_thread_new [simp]:
  "live_in g (Some (thread_new_leader t p g' sl)) \<longleftrightarrow> g = g'"
  "live_in g (Some (thread_new_group_member t p g' sl c f m)) \<longleftrightarrow> g = g'"
  "live_in g None = False"
  by (auto simp: live_in_def thread_new_leader_def thread_new_group_member_def)

lemma no_live_threads:
  assumes "threads_inv s" "PROCESSES s ! g = None"
  shows "count_if (live_in g) (THREADS s) = 0"
proof -
  have "\<not> live_in g (THREADS s ! i)" if "i < MAX_TASKS" for i
    using threads_invD(7) [OF assms(1) that] assms(2)
    by (auto simp: live_in_def split: option.splits)
  then show ?thesis
    unfolding count_if_0_iff using threads_invD(2) [OF assms(1)] by (metis in_set_conv_nth)
qed

text \<open>One thread slot and the process it belongs to change together.\<close>

lemma threads_inv_update:
  assumes inv: "threads_inv s" and slot: "slot < MAX_TASKS" "g < MAX_TASKS"
    and upd: "PROCESSES t = (PROCESSES s)[g := Some p]" "THREADS t = (THREADS s)[slot := th]"
      "length (TASKS t) = length (TASKS s)" "CURRENT t = CURRENT s"
    and new: "\<And>x. th = Some x \<Longrightarrow> task_slot x = slot \<and> group_slot x = g"
    and old: "\<And>g'. live_in g' (THREADS s ! slot) \<Longrightarrow> g' = g"
    and cnt: "thread_count p + of_bool (live_in g (THREADS s ! slot)) =
                count_if (live_in g) (THREADS s) + of_bool (live_in g th)"
      "proc_state p = PRunning \<longleftrightarrow> 0 < thread_count p"
  shows "threads_inv t"
proof -
  note D = threads_invD [OF inv]
  have live: "live_in g' th \<Longrightarrow> g' = g" for g'
    using new by (auto simp: live_in_def split: option.splits)
  have c: "count_if (live_in g') (THREADS t) + of_bool (live_in g' (THREADS s ! slot)) =
      count_if (live_in g') (THREADS s) + of_bool (live_in g' th)" for g'
    using count_if_update [of slot "THREADS s" "live_in g'" th] slot D(2) by (simp add: upd)
  have "count_if (live_in g') (THREADS t) =
      (if g' = g then thread_count p else count_if (live_in g') (THREADS s))" for g'
  proof (cases "g' = g")
    case True
    with c [of g] cnt(1) show ?thesis by simp
  next
    case False
    then have "\<not> live_in g' (THREADS s ! slot)" "\<not> live_in g' th"
      using old live by blast+
    with c [of g'] False show ?thesis by simp
  qed
  then show ?thesis
    using D slot new cnt(2) unfolding threads_inv_def
    by (auto simp: upd nth_list_update split: if_splits)
qed

lemma spawn_named_threads_inv:
  assumes "threads_inv s" "slot < MAX_TASKS" "PROCESSES s ! slot = None" "THREADS s ! slot = None"
  shows "threads_inv (snd (spawn_named slot name s))"
  by (rule threads_inv_update [OF assms(1,2,2)])
    (use no_live_threads [OF assms(1,3)] assms(4) in \<open>auto simp: spawn_named_def Let_def\<close>)

lemma spawn_thread_in_group_threads_inv:
  assumes inv: "threads_inv s" and slot: "slot < MAX_TASKS" "THREADS s ! slot = None"
    and ok: "spawn_thread_in_group slot cct fsb s = Done t s'"
    and run: "current_thread s = Some cur" "thread_st cur = TRunning"
  shows "threads_inv s'"
proof -
  note D = threads_invD [OF inv]
  have cur: "THREADS s ! CURRENT s = Some cur"
    using run(1) by (simp add: current_thread_def current_task_slot_def)
  obtain p where p: "PROCESSES s ! group_slot cur = Some p"
    using ok run by (auto simp: spawn_thread_in_group_def Let_def split: option.splits)
  have "proc_state p = PRunning" "thread_count p = count_if (live_in (group_slot cur)) (THREADS s)"
    using D(8,9) [OF D(6) [OF D(4) cur] p]
      count_if_pos [of "CURRENT s" "THREADS s" "live_in (group_slot cur)"] D(2,4) run(2) cur
    by (auto simp: live_in_def)
  then show ?thesis
    using ok run p slot(2)
    by (intro threads_inv_update [OF inv slot(1) D(6) [OF D(4) cur], of s'
          "p\<lparr>thread_count := thread_count p + 1\<rparr>"])
      (auto simp: spawn_thread_in_group_def Let_def)
qed

lemma live_in_ended [simp]: "\<not> live_in g (ended th)"
  by (simp add: live_in_def ended_def split: option.split)

lemma exit_thread_threads_inv:
  assumes inv: "threads_inv s" and run: "current_thread s = Some cur" "thread_st cur = TRunning"
  shows "threads_inv (snd (exit_thread code whole s))"
proof -
  note D = threads_invD [OF inv]
  let ?g = "group_slot cur"
  have cur: "THREADS s ! CURRENT s = Some cur"
    using run(1) by (simp add: current_thread_def current_task_slot_def)
  have g: "?g < MAX_TASKS" by (rule D(6) [OF D(4) cur])
  obtain p where p: "PROCESSES s ! ?g = Some p"
    using D(7) [OF D(4) cur run(2)] by blast
  have cnt: "0 < count_if (live_in ?g) (THREADS s)"
    using count_if_pos [of "CURRENT s" "THREADS s"] D(2,4) run(2) cur by (simp add: live_in_def)
  show ?thesis
  proof (cases whole)
    case False
    let ?p = "p\<lparr>thread_count := thread_count p - 1\<rparr>"
    from False show ?thesis
      using run p cnt D(8,9) [OF g p] D(5) [OF D(4) cur] cur
      by (intro threads_inv_update [OF inv D(4) g, of _
            "if thread_count p = 1 then ?p\<lparr>proc_state := PZombie, exit_code := code\<rparr> else ?p"
            "ended (Some cur)"])
        (auto simp: exit_thread_def current_thread_mut_def ended_def Let_def live_in_def)
  next
    case True
    show ?thesis
    proof (rule exit_group_tables [OF run(1) D(5) [OF D(4) cur] _ p, of code])
      fix t
      assume t: "exit_thread code True s = (True, t)"
          "PROCESSES t = (PROCESSES s)[?g := Some (p\<lparr>proc_state := PZombie, exit_code := code, thread_count := 0\<rparr>)]"
          "CURRENT t = CURRENT s"
          "length (THREADS t) = length (THREADS s)" "length (TASKS t) = length (TASKS s)"
        and th: "\<And>i. i < length (THREADS s) \<Longrightarrow> THREADS t ! i =
            (if in_group ?g (THREADS s ! i) then ended (THREADS s ! i) else THREADS s ! i)"
      have live: "live_in g (THREADS t ! i) \<longleftrightarrow> g \<noteq> ?g \<and> live_in g (THREADS s ! i)"
        if "i < MAX_TASKS" for g i
        using th [of i] that D(2) by (auto simp: in_group_def live_in_def ended_def split: option.splits)
      have "count_if (live_in g) (THREADS t) = (if g = ?g then 0 else count_if (live_in g) (THREADS s))"
        for g
      proof (cases "g = ?g")
        case True
        then show ?thesis using live t(4) D(2) by (auto simp: count_if_0_iff in_set_conv_nth)
      next
        case False
        have "count_if (live_in g) (THREADS t) = count_if (live_in g) (THREADS s)"
          by (rule count_if_nth_cong) (use live False t(4) D(2) in simp_all)
        with False show ?thesis by simp
      qed
      moreover have "\<exists>y. THREADS s ! i = Some y \<and> task_slot x = task_slot y \<and>
          group_slot x = group_slot y \<and> (thread_st x = TRunning \<longrightarrow> y = x \<and> group_slot y \<noteq> ?g)"
        if "i < MAX_TASKS" "THREADS t ! i = Some x" for i x
        using th [of i] that D(2)
        by (cases "THREADS s ! i") (auto simp: ended_def in_group_def split: if_splits)
      ultimately have "threads_inv t"
        using D(1-4) g D(5,6,7) D(8,9) unfolding threads_inv_def t
        by (simp add: nth_list_update) metis
      then show ?thesis using True t(1) by simp
    qed (use D(1-4) g in simp_all)
  qed
qed

text \<open>A thread that no longer runs, and a process without running threads, can be dropped.\<close>

lemma threads_inv_drop:
  assumes inv: "threads_inv s" and slot: "slot < MAX_TASKS" "\<And>g. \<not> live_in g (THREADS s ! slot)"
    and upd: "THREADS t = (THREADS s)[slot := None]"
      "PROCESSES t = PROCESSES s \<or>
       PROCESSES t = (PROCESSES s)[slot := None] \<and> count_if (live_in slot) (THREADS s) = 0"
      "length (TASKS t) = MAX_TASKS" "CURRENT t < MAX_TASKS"
  shows "threads_inv t"
proof -
  note D = threads_invD [OF inv]
  have cnt: "count_if (live_in g) (THREADS t) = count_if (live_in g) (THREADS s)" for g
    using count_if_update [of slot "THREADS s" "live_in g" None] slot D(2) by (simp add: upd)
  have thr: "i \<noteq> slot \<and> THREADS s ! i = Some th" if "THREADS t ! i = Some th" "i < MAX_TASKS" for i th
    using that D(2) slot(1) by (cases "i = slot") (simp_all add: upd)
  have zero: "group_slot th \<noteq> slot"
    if "count_if (live_in slot) (THREADS s) = 0" "i < MAX_TASKS" "THREADS s ! i = Some th"
      "thread_st th = TRunning" for i th
    using count_if_pos [of i "THREADS s" "live_in slot"] that D(2) by (auto simp: live_in_def)
  have old: "PROCESSES t ! g = Some p \<Longrightarrow> PROCESSES s ! g = Some p" if "g < MAX_TASKS" for g p
    using upd(2) that slot(1) D(1) by (auto simp: nth_list_update split: if_splits)
  have keep: "PROCESSES t ! group_slot th \<noteq> None"
    if "i < MAX_TASKS" "THREADS s ! i = Some th" "thread_st th = TRunning" for i th
    using upd(2) D(7) [OF that] zero [OF _ that] by auto
  have len: "length (PROCESSES t) = MAX_TASKS"
    using upd(2) D(1) by auto
  have "\<forall>i < MAX_TASKS. \<forall>th. THREADS t ! i = Some th \<longrightarrow>
      task_slot th = i \<and> group_slot th < MAX_TASKS \<and>
      (thread_st th = TRunning \<longrightarrow> PROCESSES t ! group_slot th \<noteq> None)"
    using thr D(5,6) keep by blast
  moreover have "\<forall>g < MAX_TASKS. \<forall>p. PROCESSES t ! g = Some p \<longrightarrow>
      thread_count p = count_if (live_in g) (THREADS t) \<and>
      (proc_state p = PRunning \<longleftrightarrow> 0 < thread_count p)"
    unfolding cnt using old D(8,9) by blast
  moreover have "length (THREADS t) = MAX_TASKS" using upd(1) D(2) by simp
  ultimately show ?thesis
    using len upd(3,4) unfolding threads_inv_def by blast
qed

lemma next_task_switch_threads:
  assumes "next_task_switch s = Done r t"
  shows "PROCESSES t = PROCESSES s \<and> NEXT_PID t = NEXT_PID s \<and>
    (THREADS t = THREADS s \<or>
     THREADS t = (THREADS s)[CURRENT s := None] \<and>
       (\<exists>u. TASKS s ! CURRENT s = Some u \<and> task_st u = Dead))"
  using assms
  by (auto simp: next_task_switch_def retire_current_def task_slot_reaped_def Let_def
      split: option.splits if_splits)

lemma switch_threads_inv:
  assumes "sched_inv s" "threads_inv s" "next_task_switch s = Done r t"
    and dead: "\<And>u g. TASKS s ! CURRENT s = Some u \<Longrightarrow> task_st u = Dead \<Longrightarrow>
      \<not> live_in g (THREADS s ! CURRENT s)"
  shows "threads_inv t"
proof -
  note D = threads_invD [OF assms(2)]
  have t: "length (TASKS t) = MAX_TASKS" "CURRENT t < MAX_TASKS"
    using next_task_switch_sched_inv [OF assms(1,3)] by (simp_all add: sched_inv_def)
  from next_task_switch_threads [OF assms(3)] show ?thesis
  proof (elim conjE disjE exE)
    assume "PROCESSES t = PROCESSES s" "THREADS t = THREADS s"
    with assms(2) t show ?thesis by (simp add: threads_inv_def)
  next
    fix u
    assume "PROCESSES t = PROCESSES s" "THREADS t = (THREADS s)[CURRENT s := None]"
      "TASKS s ! CURRENT s = Some u" "task_st u = Dead"
    with dead t show ?thesis by (intro threads_inv_drop [OF assms(2) D(4)]) auto
  qed
qed

section \<open>A fault inside a system call\<close>

lemma IN_SYSCALL_current_thread_mut [simp]: "IN_SYSCALL (current_thread_mut f s) = IN_SYSCALL s"
  by (simp add: current_thread_mut_def split: option.split)

lemma IN_SYSCALL_kill_task [simp]: "IN_SYSCALL (kill_task i s) = IN_SYSCALL s"
  by (simp add: kill_task_def split: option.split)

lemma IN_SYSCALL_process_exit [simp]: "IN_SYSCALL (process_exit code s) = IN_SYSCALL s"
  by (simp add: process_exit_def exit_thread_def Let_def split: option.split)

lemma ticks_in_syscall:
  "IN_SYSCALL s \<Longrightarrow>
     for_each pit_handler rsps s = Done () (s\<lparr>TICKS := TICKS s + of_nat (length rsps)\<rparr>)"
  by (induction rsps arbitrary: s)
    (simp_all add: pit_handler_def tick_def try_switch_def algebra_simps)

text \<open>C30: a processor fault inside a system call stops the machine. The exception handler
  ends the faulting thread and marks its task dead, but leaves the flag of the system call set,
  so each of the timer interrupts that follow, however many, only counts a tick: the dead task
  stays current and no ready task is ever scheduled.
\<close>

theorem fault_in_syscall_stalls:
  assumes "IN_SYSCALL s" "CURRENT s < length (TASKS s)" "TASKS s ! CURRENT s = Some t"
  shows "\<exists>s'. for_each pit_handler rsps (default_exception vector s) = Done () s' \<and>
    CURRENT s' = CURRENT s \<and> TASKS s' = (TASKS s)[CURRENT s := Some (t\<lparr>task_st := Dead\<rparr>)]"
proof -
  have "CURRENT (process_exit vector s) = CURRENT s" "TASKS (process_exit vector s) = TASKS s"
    by (simp_all add: process_exit_def exit_thread_def current_thread_mut_def Let_def split: option.split)
  then have d: "IN_SYSCALL (default_exception vector s)" "CURRENT (default_exception vector s) = CURRENT s"
    "TASKS (default_exception vector s) = (TASKS s)[CURRENT s := Some (t\<lparr>task_st := Dead\<rparr>)]"
    using assms by (simp_all add: default_exception_def current_task_slot_def kill_task_TASKS killed_def Let_def)
  then show ?thesis using ticks_in_syscall [OF d(1), of rsps] by simp
qed

theorem fault_in_syscall_stalls_witness:
  "\<exists>s'. for_each pit_handler (replicate 1000 0) (default_exception 14 (group_example\<lparr>IN_SYSCALL := True\<rparr>)) = Done () s' \<and>
    CURRENT s' = 1 \<and> TASKS s' ! 1 = Some (task_example Dead 1)"
proof -
  have "TASKS group_example ! 1 = Some (task_example Running 1)"
    by (simp add: group_example_def tasks_example_def)
  then show ?thesis
    using fault_in_syscall_stalls [of "group_example\<lparr>IN_SYSCALL := True\<rparr>" "task_example Running 1"
        "replicate 1000 0" 14] group_example_current
    by (auto simp: task_example_def)
qed

end
