(* ===== verification/UserMem.thy ===== *)
theory UserMem
  imports AddressSpace ProcState
begin

text \<open>
  The boundary between the kernel and user programs: results of system calls
  (\<^verbatim>\<open>syscall/result.rs\<close>), user memory (\<^verbatim>\<open>usercopy.rs\<close>) and the helpers that copy paths,
  structures and I/O vectors (\<^verbatim>\<open>syscall/helpers.rs\<close>). The kernel reads and writes user memory
  through the address space in \<open>CR3\<close>: an access to a page that is not mapped, or a write to a
  read-only page while the processor enforces that in kernel mode, is a fault.
\<close>

unbundle bit_operations_syntax

section \<open>Results of system calls\<close>

datatype sys_error =
    Again | BadFd | Child | Fault | Invalid | NoEntry | NoMem | NoSys | AddrFamilyNotSupported
  | Access | NotSeekable | NotTty | Range | TimedOut | Unsupported

fun errno_code :: "sys_error \<Rightarrow> nat" where
  "errno_code BadFd = 9"
| "errno_code Again = 11"
| "errno_code Child = 10"
| "errno_code Fault = 14"
| "errno_code Invalid = 22"
| "errno_code NoEntry = 2"
| "errno_code NoMem = 12"
| "errno_code NoSys = 38"
| "errno_code AddrFamilyNotSupported = 97"
| "errno_code Access = 13"
| "errno_code NotSeekable = 29"
| "errno_code NotTty = 25"
| "errno_code Range = 34"
| "errno_code TimedOut = 110"
| "errno_code Unsupported = 95"

definition errno :: "sys_error \<Rightarrow> u64" where
  "errno e = - of_nat (errno_code e)"

type_synonym 'a sys_result = "sys_error + 'a"
type_synonym 'a syscall = "kernel \<Rightarrow> (kernel, 'a sys_result) outcome"

definition sys_ret :: "u64 sys_result \<Rightarrow> u64" where
  "sys_ret r = (case r of Inr value \<Rightarrow> value | Inl e \<Rightarrow> errno e)"

definition ensure :: "bool \<Rightarrow> sys_error \<Rightarrow> unit syscall" where
  "ensure c e s = Done (if c then Inr () else Inl e) s"

definition sys_option :: "'a option \<Rightarrow> sys_error \<Rightarrow> 'a sys_result" where
  "sys_option v e = (case v of Some x \<Rightarrow> Inr x | None \<Rightarrow> Inl e)"

text \<open>The \<^verbatim>\<open>?\<close> operator on a result, and a result that ends a system call.\<close>

definition sbind ::
  "(kernel, 'a sys_result) outcome \<Rightarrow> ('a \<Rightarrow> 'b syscall) \<Rightarrow> (kernel, 'b sys_result) outcome" where
  "sbind m k = obind m (\<lambda>r s. case r of Inl e \<Rightarrow> Done (Inl e) s | Inr x \<Rightarrow> k x s)"

definition sys_err :: "sys_error \<Rightarrow> 'a syscall" where
  "sys_err e s = Done (Inl e) s"

definition sys_ok :: "'a \<Rightarrow> 'a syscall" where
  "sys_ok v s = Done (Inr v) s"

lemmas sys_result_defs = sbind_def ensure_def sys_err_def sys_ok_def sys_option_def

lemma sbind_Done [simp]:
  "sbind (Done (Inr x) s) k = k x s" "sbind (Done (Inl e) s) k = Done (Inl e) s"
  "sbind Panicked k = Panicked" "sbind (Faulted s) k = Faulted s" "sbind (Waiting s) k = Waiting s"
  by (simp_all add: sbind_def)

section \<open>User memory\<close>

definition USER_TOP :: u64 where "USER_TOP = 0x0000800000000000"

definition user_range_ok :: "u64 \<Rightarrow> usize \<Rightarrow> bool" where
  "user_range_ok ptr len \<longleftrightarrow>
     ptr < USER_TOP \<and> (case checked_add ptr len of Some fin \<Rightarrow> fin \<le> USER_TOP | None \<Rightarrow> False)"

text \<open>The physical byte that an access of the kernel to a virtual address reaches.\<close>

definition user_pa :: "bool \<Rightarrow> u64 \<Rightarrow> kernel \<Rightarrow> u64 option" where
  "user_pa wr va s =
     (case leaf_entry (MEM s) (CR3 s) va of
        None \<Rightarrow> None
      | Some (huge, e) \<Rightarrow>
          if wr \<and> CR0_WP s \<and> e AND PTE_WRITABLE = 0 then None
          else Some ((e AND PTE_ADDR_MASK) + (va AND (if huge then 0x1FFFFF else 0xFFF))))"

primrec user_load :: "nat \<Rightarrow> u64 \<Rightarrow> kernel \<Rightarrow> (kernel, u8 list) outcome" where
  "user_load 0 va s = Done [] s"
| "user_load (Suc n) va s =
     (case user_pa False va s of
        None \<Rightarrow> Faulted s
      | Some pa \<Rightarrow> obind (user_load n (va + 1) s) (\<lambda>bs s1. Done (MEM s pa # bs) s1))"

primrec user_store :: "u8 list \<Rightarrow> u64 \<Rightarrow> kernel \<Rightarrow> (kernel, unit) outcome" where
  "user_store [] va s = Done () s"
| "user_store (b # bs) va s =
     (case user_pa True va s of
        None \<Rightarrow> Faulted s
      | Some pa \<Rightarrow> user_store bs (va + 1) (s\<lparr>MEM := (MEM s)(pa := b)\<rparr>))"

definition copy_from_user :: "nat \<Rightarrow> u64 \<Rightarrow> kernel \<Rightarrow> (kernel, u8 list option) outcome" where
  "copy_from_user n src s =
     (if \<not> user_range_ok src (of_nat n) then Done None s
      else obind (user_load n src s) (\<lambda>bs. Done (Some bs)))"

definition copy_to_user :: "u64 \<Rightarrow> u8 list \<Rightarrow> kernel \<Rightarrow> (kernel, bool) outcome" where
  "copy_to_user dst src s =
     (if \<not> user_range_ok dst (of_nat (length src)) then Done False s
      else obind (user_store src dst s) (\<lambda>_. Done True))"

section \<open>Paths, structures and I/O vectors\<close>

definition MAX_PATH_LEN :: nat where "MAX_PATH_LEN = 64"
definition MAX_IOV :: nat where "MAX_IOV = 16"

text \<open>
  The array of characters and the used length that the code returns are the string of its used
  part. \<open>copy_name\<close> is the loop over \<^verbatim>\<open>&raw[start..]\<close>, \<open>out\<close> the characters written so far.
\<close>

fun copy_name :: "u8 list \<Rightarrow> string \<Rightarrow> string option" where
  "copy_name [] out = Some out"
| "copy_name (b # bs) out =
     (if b = 0x2F \<or> MAX_PATH_LEN \<le> length out then None else copy_name bs (out @ [char_of (unat b)]))"

definition normalize_path_bytes :: "u8 list \<Rightarrow> string option" where
  "normalize_path_bytes raw =
     (if raw = [] \<or> MAX_PATH_LEN < length raw then None
      else let rest = dropWhile (\<lambda>b. b = 0x2F) raw
           in if rest = [] then None
              else case copy_name rest [] of
                     None \<Rightarrow> None
                   | Some out \<Rightarrow> if length out = 0 then None else Some out)"

definition copy_path_from_user :: "u64 \<Rightarrow> u64 \<Rightarrow> kernel \<Rightarrow> (kernel, string option) outcome" where
  "copy_path_from_user path_ptr path_len s =
     (if path_len = 0 \<or> MAX_PATH_LEN < unat path_len then Done None s
      else obind (copy_from_user (unat path_len) path_ptr s) (\<lambda>r.
        Done (case r of None \<Rightarrow> None | Some raw \<Rightarrow> normalize_path_bytes raw)))"

text \<open>The loop over the bytes of a C string: \<open>raw\<close> holds those before position \<open>i\<close>.\<close>

fun cstr_loop :: "nat \<Rightarrow> u64 \<Rightarrow> u8 list \<Rightarrow> kernel \<Rightarrow> (kernel, u8 list option) outcome" where
  "cstr_loop 0 p raw s = Done None s"
| "cstr_loop (Suc n) p raw s =
     obind (copy_from_user 1 p s) (\<lambda>r s1.
       case r of
         None \<Rightarrow> Done None s1
       | Some bs \<Rightarrow>
           if hd bs = 0 then Done (Some raw) s1 else cstr_loop n (p + 1) (raw @ bs) s1)"

definition copy_cstr_from_user :: "u64 \<Rightarrow> kernel \<Rightarrow> (kernel, u8 list option) outcome" where
  "copy_cstr_from_user path_ptr s =
     (if path_ptr = 0 then Done None s else cstr_loop MAX_PATH_LEN path_ptr [] s)"

definition copy_path_cstr_from_user :: "u64 \<Rightarrow> kernel \<Rightarrow> (kernel, string option) outcome" where
  "copy_path_cstr_from_user path_ptr s =
     obind (copy_cstr_from_user path_ptr s) (\<lambda>r.
       Done (case r of None \<Rightarrow> None | Some raw \<Rightarrow> normalize_path_bytes raw))"

text \<open>Structures are their bytes; \<open>n\<close> is the size of the type.\<close>

definition copy_struct_from_user :: "nat \<Rightarrow> u64 \<Rightarrow> kernel \<Rightarrow> (kernel, u8 list option) outcome" where
  "copy_struct_from_user n user_ptr s =
     (if \<not> user_range_ok user_ptr (of_nat n) then Done None s else copy_from_user n user_ptr s)"

definition copy_struct_to_user :: "u64 \<Rightarrow> u8 list \<Rightarrow> kernel \<Rightarrow> (kernel, bool) outcome" where
  "copy_struct_to_user user_ptr bytes s =
     (if \<not> user_range_ok user_ptr (of_nat (length bytes)) then Done False s
      else copy_to_user user_ptr bytes s)"

record iovec =
  iov_base :: u64
  iov_len :: u64

definition iovec_of :: "u8 list \<Rightarrow> iovec" where
  "iovec_of bs = \<lparr>iov_base = from_le_bytes (take 8 bs), iov_len = from_le_bytes (take 8 (drop 8 bs))\<rparr>"

primrec iovecs_of :: "nat \<Rightarrow> u8 list \<Rightarrow> iovec list" where
  "iovecs_of 0 bs = []"
| "iovecs_of (Suc n) bs = iovec_of bs # iovecs_of n (drop 16 bs)"

definition copy_iovecs_from_user :: "u64 \<Rightarrow> u64 \<Rightarrow> kernel \<Rightarrow> (kernel, iovec list option) outcome" where
  "copy_iovecs_from_user iov_ptr iovcnt s =
     (let count = unat iovcnt; bytes_len = count * 16
      in if count = 0 \<or> MAX_IOV < count then Done None s
         else if \<not> user_range_ok iov_ptr (of_nat bytes_len) then Done None s
         else obind (copy_from_user bytes_len iov_ptr s) (\<lambda>r.
           Done (map_option (iovecs_of count) r)))"

section \<open>Error numbers\<close>

lemma errno_code_bounds: "2 \<le> errno_code e" "errno_code e \<le> 110"
  by (cases e; simp)+

lemma errno_sint: "sint (errno e) = - int (errno_code e)"
  by (cases e) (simp_all add: errno_def)


section \<open>Ranges of user addresses\<close>

lemma user_range_ok_iff:
  "user_range_ok ptr len \<longleftrightarrow> unat ptr < 2 ^ 47 \<and> unat ptr + unat len \<le> 2 ^ 47"
proof -
  have top: "unat USER_TOP = 2 ^ 47" by (simp add: USER_TOP_def)
  show ?thesis
  proof (cases "checked_add ptr len")
    case None
    then have "2 ^ 64 \<le> unat ptr + unat len" by (simp add: checked_add_def split: if_splits)
    with None show ?thesis by (simp add: user_range_ok_def)
  next
    case (Some fin)
    then show ?thesis
      by (auto simp: user_range_ok_def word_less_nat_alt word_le_nat_alt top checked_add_unat)
  qed
qed

section \<open>Paths\<close>

lemma copy_name_spec:
  "copy_name bs out =
     (if (0x2F::u8) \<notin> set bs \<and> (bs \<noteq> [] \<longrightarrow> length out + length bs \<le> MAX_PATH_LEN)
      then Some (out @ map (char_of \<circ> unat) bs) else None)"
  by (induction bs arbitrary: out) (auto simp: Suc_le_eq)

lemma dropWhile_decomp:
  "dropWhile P xs = ys \<longleftrightarrow> (\<exists>zs. xs = zs @ ys \<and> (\<forall>z \<in> set zs. P z) \<and> (ys \<noteq> [] \<longrightarrow> \<not> P (hd ys)))"
proof
  assume "dropWhile P xs = ys"
  then show "\<exists>zs. xs = zs @ ys \<and> (\<forall>z \<in> set zs. P z) \<and> (ys \<noteq> [] \<longrightarrow> \<not> P (hd ys))"
    using hd_dropWhile [of P xs] set_takeWhileD [of _ P xs]
    by (intro exI [of _ "takeWhile P xs"]) auto
next
  assume "\<exists>zs. xs = zs @ ys \<and> (\<forall>z \<in> set zs. P z) \<and> (ys \<noteq> [] \<longrightarrow> \<not> P (hd ys))"
  then show "dropWhile P xs = ys"
    by (cases ys) (auto simp: dropWhile_append2)
qed

text \<open>C31: a path given to a system call names a file exactly when, within 64 bytes, it is any
  number of slashes followed by a nonempty name without slashes; the name is then that part.
\<close>

theorem normalize_path_bytes_iff:
  "normalize_path_bytes raw = Some name \<longleftrightarrow>
     (\<exists>k bs. raw = replicate k 0x2F @ bs \<and> bs \<noteq> [] \<and> 0x2F \<notin> set bs \<and>
        length raw \<le> MAX_PATH_LEN \<and> name = map (char_of \<circ> unat) bs)"
proof
  assume "normalize_path_bytes raw = Some name"
  then obtain bs where len: "length raw \<le> MAX_PATH_LEN" and bs: "dropWhile (\<lambda>b. b = 0x2F) raw = bs" "bs \<noteq> []"
    and copy: "0x2F \<notin> set bs" "name = map (char_of \<circ> unat) bs"
    by (auto simp: normalize_path_bytes_def Let_def copy_name_spec split: if_splits)
  from bs obtain zs where zs: "raw = zs @ bs" "\<forall>z \<in> set zs. z = 0x2F"
    unfolding dropWhile_decomp by blast
  then have "zs = replicate (length zs) 0x2F" by (metis replicate_length_same)
  with zs(1) bs len copy show "\<exists>k bs. raw = replicate k 0x2F @ bs \<and> bs \<noteq> [] \<and> 0x2F \<notin> set bs \<and>
        length raw \<le> MAX_PATH_LEN \<and> name = map (char_of \<circ> unat) bs"
    by blast
next
  assume "\<exists>k bs. raw = replicate k 0x2F @ bs \<and> bs \<noteq> [] \<and> 0x2F \<notin> set bs \<and>
        length raw \<le> MAX_PATH_LEN \<and> name = map (char_of \<circ> unat) bs"
  then obtain k bs where r: "raw = replicate k 0x2F @ bs" "bs \<noteq> []" "0x2F \<notin> set bs"
    "length raw \<le> MAX_PATH_LEN" "name = map (char_of \<circ> unat) bs" by blast
  have "hd bs \<noteq> 0x2F" using r(2,3) by (metis hd_in_set)
  with r have "dropWhile (\<lambda>b. b = 0x2F) raw = bs"
    unfolding dropWhile_decomp by (intro exI [of _ "replicate k 0x2F"]) auto
  with r show "normalize_path_bytes raw = Some name"
    by (auto simp: normalize_path_bytes_def copy_name_spec)
qed

section \<open>Copying to and from user memory\<close>

lemma data_write_slot:
  assumes "aspace_inv s pml4" "data_byte s pml4 a" "j \<le> 3" "table_at (MEM s) pml4 v j = Some t"
  shows "rd64 ((MEM s)(a := b)) (entry_addr t (vidx j v)) = rd64 (MEM s) (entry_addr t (vidx j v))"
proof -
  have "\<not> unat (a - entry_addr t (vidx j v)) < 8"
    using in_slot [OF aspace_table_addr [OF assms(1,3,4)] vidx_less, of a j v] assms(2-4)
    by (auto simp: data_byte_def)
  then have "entry_addr t (vidx j v) + of_nat i \<noteq> a" if "i < 8" for i
    using that by (auto simp: unat_of_nat)
  then show ?thesis unfolding rd64_def by (intro arg_cong [of _ _ from_le_bytes] rd_bytes_cong) auto
qed

lemma data_write_walk:
  assumes "aspace_inv s pml4" "data_byte s pml4 a"
  shows "k \<le> 3 \<Longrightarrow> table_at ((MEM s)(a := b)) pml4 v k = table_at (MEM s) pml4 v k"
    and "leaf_entry ((MEM s)(a := b)) pml4 v = leaf_entry (MEM s) pml4 v"
proof -
  show tab: "table_at ((MEM s)(a := b)) pml4 v k = table_at (MEM s) pml4 v k" if "k \<le> 3" for k
    using that data_write_slot [OF assms] by (intro table_at_cong) simp
  show "leaf_entry ((MEM s)(a := b)) pml4 v = leaf_entry (MEM s) pml4 v"
    using tab [of 2] tab [of 3] data_write_slot [OF assms, of 2 v] data_write_slot [OF assms, of 3 v]
    by (auto simp: leaf_entry_def Let_def split: option.splits)
qed

lemma data_write_inv:
  fixes s :: kernel
  assumes "aspace_inv s pml4" "data_byte s pml4 a"
  shows "aspace_inv (s\<lparr>MEM := (MEM s)(a := b)\<rparr>) pml4"
    and "data_byte (s\<lparr>MEM := (MEM s)(a := b)\<rparr>) pml4 c = data_byte s pml4 c"
proof -
  note tab = data_write_walk(1) [OF assms, where b = b]
  show "aspace_inv (s\<lparr>MEM := (MEM s)(a := b)\<rparr>) pml4"
  proof (rule aspace_invI, goal_cases)
    case (1 v k t)
    then have "table_at (MEM s) pml4 v k = Some t" using tab by simp
    with 1(1) show ?case
      using aspace_table_addr [OF assms(1)] aspace_table_used [OF assms(1)] by auto
  next
    case (2 v w k j t)
    then have "table_at (MEM s) pml4 v k = Some t" "table_at (MEM s) pml4 w j = Some t"
      using tab by simp_all
    then show ?case by (rule aspace_tree [OF assms(1) 2(1,2)])
  next
    case (3 v k t)
    then have t: "table_at (MEM s) pml4 v k = Some t" "k \<le> 3" using tab by simp_all
    show ?case
      using 3(3) aspace_present [OF assms(1) 3(1) t(1)] data_write_slot [OF assms t(2,1), of b] by simp
  qed
  show "data_byte (s\<lparr>MEM := (MEM s)(a := b)\<rparr>) pml4 c = data_byte s pml4 c"
    by (simp add: data_byte_def tab cong: conj_cong imp_cong)
qed

lemma data_write_user_pa:
  assumes "aspace_inv s (CR3 s)" "data_byte s (CR3 s) a"
  shows "user_pa wr va (s\<lparr>MEM := (MEM s)(a := b)\<rparr>) = user_pa wr va s"
  by (simp add: user_pa_def data_write_walk(2) [OF assms] split: option.split)

text \<open>
  A window of user memory the kernel can write: every byte is mapped to a byte of memory that is
  not part of a page table, and no two to the same byte.
\<close>

definition user_window :: "u64 \<Rightarrow> nat \<Rightarrow> kernel \<Rightarrow> bool" where
  "user_window va n s \<longleftrightarrow>
     (\<forall>i < n. \<exists>pa. user_pa True (va + of_nat i) s = Some pa \<and> data_byte s (CR3 s) pa) \<and>
     (\<forall>i < n. \<forall>j < n. user_pa True (va + of_nat i) s = user_pa True (va + of_nat j) s \<longrightarrow> i = j)"

lemma user_window_Suc:
  assumes "user_window va (Suc n) s"
  obtains pa where "user_pa True va s = Some pa" "data_byte s (CR3 s) pa" "user_window (va + 1) n s"
    "\<forall>i < n. user_pa True (va + 1 + of_nat i) s \<noteq> Some pa"
proof -
  have suc: "va + 1 + of_nat i = va + of_nat (Suc i)" for i by simp
  have w: "\<And>i. i < Suc n \<Longrightarrow> \<exists>pa. user_pa True (va + of_nat i) s = Some pa \<and> data_byte s (CR3 s) pa"
    "\<And>i j. i < Suc n \<Longrightarrow> j < Suc n \<Longrightarrow>
       user_pa True (va + of_nat i) s = user_pa True (va + of_nat j) s \<Longrightarrow> i = j"
    using assms unfolding user_window_def by blast+
  obtain pa where pa: "user_pa True va s = Some pa" "data_byte s (CR3 s) pa"
    using w(1) [of 0] by auto
  have ne: "user_pa True (va + 1 + of_nat i) s \<noteq> Some pa" if "i < n" for i
    unfolding suc using w(2) [of "Suc i" 0] pa(1) that by (auto simp del: of_nat_Suc)
  have win: "user_window (va + 1) n s"
    unfolding user_window_def suc
  proof (intro conjI allI impI)
    fix i j
    assume "i < n" "j < n" "user_pa True (va + of_nat (Suc i)) s = user_pa True (va + of_nat (Suc j)) s"
    then show "i = j" using w(2) [of "Suc i" "Suc j"] by (simp del: of_nat_Suc)
  qed (use w(1) in \<open>simp del: of_nat_Suc\<close>)
  show thesis by (rule that [OF pa win]) (use ne in blast)
qed

lemma user_store_spec:
  assumes "aspace_inv s (CR3 s)" "user_window va (length bs) s"
  shows "\<exists>m. user_store bs va s = Done () (s\<lparr>MEM := m\<rparr>) \<and>
    (\<forall>wr v. user_pa wr v (s\<lparr>MEM := m\<rparr>) = user_pa wr v s) \<and>
    (\<forall>i < length bs. m (the (user_pa True (va + of_nat i) s)) = bs ! i) \<and>
    (\<forall>a. (\<forall>i < length bs. user_pa True (va + of_nat i) s \<noteq> Some a) \<longrightarrow> m a = MEM s a)"
  using assms
proof (induction bs arbitrary: va s)
  case Nil
  then show ?case by (intro exI [of _ "MEM s"]) simp
next
  case (Cons b bs)
  from Cons.prems(2) obtain pa where pa: "user_pa True va s = Some pa" "data_byte s (CR3 s) pa"
    "user_window (va + 1) (length bs) s" "\<forall>i < length bs. user_pa True (va + 1 + of_nat i) s \<noteq> Some pa"
    by (metis user_window_Suc length_Cons)
  let ?s = "s\<lparr>MEM := (MEM s)(pa := b)\<rparr>"
  have pas: "user_pa wr v ?s = user_pa wr v s" for wr v
    by (rule data_write_user_pa [OF Cons.prems(1) pa(2)])
  have inv: "aspace_inv ?s (CR3 ?s)" "user_window (va + 1) (length bs) ?s"
    using pa(3) data_write_inv [OF Cons.prems(1) pa(2)] by (simp_all add: user_window_def pas)
  obtain m where m: "user_store bs (va + 1) ?s = Done () (?s\<lparr>MEM := m\<rparr>)"
    "\<forall>wr v. user_pa wr v (?s\<lparr>MEM := m\<rparr>) = user_pa wr v s"
    "\<forall>i < length bs. m (the (user_pa True (va + 1 + of_nat i) s)) = bs ! i"
    "\<forall>a. (\<forall>i < length bs. user_pa True (va + 1 + of_nat i) s \<noteq> Some a) \<longrightarrow> m a = ((MEM s)(pa := b)) a"
    using Cons.IH [OF inv] unfolding pas by auto
  have "m (the (user_pa True (va + of_nat i) s)) = (b # bs) ! i" if "i < length (b # bs)" for i
    using that m(3,4) pa(1,4) by (cases i) (auto simp: algebra_simps)
  moreover have "m a = MEM s a"
    if "\<forall>i < length (b # bs). user_pa True (va + of_nat i) s \<noteq> Some a" for a
    using m(4) pa(1) that [rule_format, of 0] that [rule_format, of "Suc _"] by (auto simp: algebra_simps)
  ultimately show ?case using m(1,2) pa(1) by (intro exI [of _ m]) simp
qed

lemma user_load_spec:
  assumes "\<forall>i < n. user_pa False (va + of_nat i) s \<noteq> None"
  shows "user_load n va s = Done (map (\<lambda>i. MEM s (the (user_pa False (va + of_nat i) s))) [0..<n]) s"
  using assms
proof (induction n arbitrary: va)
  case (Suc n)
  have suc: "va + 1 + of_nat i = va + of_nat (Suc i)" for i by simp
  have "user_load n (va + 1) s =
      Done (map (\<lambda>i. MEM s (the (user_pa False (va + of_nat (Suc i)) s))) [0..<n]) s"
    using Suc.IH [of "va + 1"] Suc.prems unfolding suc by (simp del: of_nat_Suc)
  moreover obtain pa where "user_pa False va s = Some pa"
    using Suc.prems [rule_format, of 0] by auto
  moreover have "[0..<Suc n] = 0 # map Suc [0..<n]" by (simp add: upt_conv_Cons map_Suc_upt)
  ultimately show ?case by (simp add: comp_def del: upt_Suc of_nat_Suc)
qed simp

lemma user_pa_read: "user_pa True va s = Some pa \<Longrightarrow> user_pa False va s = Some pa"
  by (auto simp: user_pa_def split: option.splits if_splits)

text \<open>What is stored through a writable window is what a load then finds.\<close>

lemma user_store_load:
  assumes "aspace_inv s (CR3 s)" "user_window va (length bs) s"
  obtains m where "user_store bs va s = Done () (s\<lparr>MEM := m\<rparr>)"
    and "\<And>wr v. user_pa wr v (s\<lparr>MEM := m\<rparr>) = user_pa wr v s"
    and "user_load (length bs) va (s\<lparr>MEM := m\<rparr>) = Done bs (s\<lparr>MEM := m\<rparr>)"
    and "\<forall>a. (\<forall>i < length bs. user_pa True (va + of_nat i) s \<noteq> Some a) \<longrightarrow> m a = MEM s a"
proof -
  obtain m where m: "user_store bs va s = Done () (s\<lparr>MEM := m\<rparr>)"
    "\<forall>wr v. user_pa wr v (s\<lparr>MEM := m\<rparr>) = user_pa wr v s"
    "\<forall>i < length bs. m (the (user_pa True (va + of_nat i) s)) = bs ! i"
    "\<forall>a. (\<forall>i < length bs. user_pa True (va + of_nat i) s \<noteq> Some a) \<longrightarrow> m a = MEM s a"
    using user_store_spec [OF assms(1,2)] by blast
  have pa: "user_pa False (va + of_nat i) s = user_pa True (va + of_nat i) s \<and>
      user_pa False (va + of_nat i) s \<noteq> None" if i: "i < length bs" for i
  proof -
    obtain pa where "user_pa True (va + of_nat i) s = Some pa"
      using assms(2) i unfolding user_window_def by blast
    then show ?thesis using user_pa_read by simp
  qed
  have "user_load (length bs) va (s\<lparr>MEM := m\<rparr>) = Done bs (s\<lparr>MEM := m\<rparr>)"
  proof -
    have read: "user_pa False (va + of_nat i) (s\<lparr>MEM := m\<rparr>) = user_pa True (va + of_nat i) s"
      if "i < length bs" for i
      using m(2) pa [OF that] by metis
    have "map (\<lambda>i. m (the (user_pa False (va + of_nat i) (s\<lparr>MEM := m\<rparr>)))) [0..<length bs] = bs"
      by (rule nth_equalityI) (simp_all add: read m(3) [rule_format])
    moreover have "\<forall>i < length bs. user_pa False (va + of_nat i) (s\<lparr>MEM := m\<rparr>) \<noteq> None"
      using m(2) pa by metis
    ultimately show ?thesis by (subst user_load_spec) simp_all
  qed
  then show thesis by (intro that [OF m(1) _ _ m(4)]) (simp_all add: m(2))
qed

text \<open>C9: bytes copied to user memory are read back by copying from there, and the copy
  changes nothing but the memory bytes that the target addresses are mapped to.
\<close>

theorem copy_to_user_from_user:
  assumes "aspace_inv s (CR3 s)" "user_window va (length bs) s" "user_range_ok va (of_nat (length bs))"
  shows "\<exists>m. copy_to_user va bs s = Done True (s\<lparr>MEM := m\<rparr>) \<and>
    copy_from_user (length bs) va (s\<lparr>MEM := m\<rparr>) = Done (Some bs) (s\<lparr>MEM := m\<rparr>) \<and>
    (\<forall>a. (\<forall>i < length bs. user_pa True (va + of_nat i) s \<noteq> Some a) \<longrightarrow> m a = MEM s a)"
proof -
  obtain m where "user_store bs va s = Done () (s\<lparr>MEM := m\<rparr>)"
    "user_load (length bs) va (s\<lparr>MEM := m\<rparr>) = Done bs (s\<lparr>MEM := m\<rparr>)"
    "\<forall>a. (\<forall>i < length bs. user_pa True (va + of_nat i) s \<noteq> Some a) \<longrightarrow> m a = MEM s a"
    by (rule user_store_load [OF assms(1,2)])
  with assms(3) show ?thesis by (intro exI [of _ m]) (simp add: copy_to_user_def copy_from_user_def)
qed

text \<open>A part of one writable page is such a window.\<close>

lemma same_pageI:
  assumes "unat v div 4096 = unat w div 4096"
  shows "same_page v w"
proof -
  have "unat (drop_bit 12 v) = unat (drop_bit 12 w)"
    using assms by (simp add: unat_drop_bit_eq drop_bit_eq_div unat_div)
  then have "drop_bit 12 v = drop_bit 12 w" by (rule unsigned_word_eqI)
  then have "drop_bit k (drop_bit 12 v) = drop_bit k (drop_bit 12 w)" for k
    by (rule arg_cong)
  then have "drop_bit (k + 12) v = drop_bit (k + 12) w" for k
    unfolding drop_bit_drop_bit .
  from this [of 27] this [of 18] this [of 9] this [of 0]
  have "drop_bit 39 v = drop_bit 39 w" "drop_bit 30 v = drop_bit 30 w"
    "drop_bit 21 v = drop_bit 21 w" "drop_bit 12 v = drop_bit 12 w" by simp_all
  then show ?thesis by (simp add: same_page_iff vidx_def)
qed

lemma unat_page_offset: "unat (v AND 0xFFF :: u64) = unat v mod 4096"
proof -
  have "v AND 0xFFF = take_bit 12 v" by (simp add: take_bit_eq_mask mask_eq_exp_minus_1)
  then show ?thesis by (simp add: take_bit_eq_mod unat_mod)
qed

lemma add_in_page:
  fixes x :: nat
  assumes "x mod 4096 + i < 4096"
  shows "(x + i) div 4096 = x div 4096 \<and> (x + i) mod 4096 = x mod 4096 + i"
proof -
  have "x + i = (x mod 4096 + i) + 4096 * (x div 4096)" by simp
  then show ?thesis using assms by (metis div_mult_self2 mod_mult_self2 div_less mod_less add_0_right
      add.commute numeral_eq_Suc Zero_not_Suc)
qed

lemma user_window_page:
  assumes pa: "\<And>w. same_page va w \<Longrightarrow> user_pa True w s = Some (base + (w AND 0xFFF))"
    and base: "unat base = f * 4096" "f < MAX_FRAMES"
    and data: "\<And>a. unat a div PAGE_SIZE = f \<Longrightarrow> data_byte s (CR3 s) a"
    and fits: "unat va mod 4096 + n \<le> 4096"
  shows "user_window va n s"
proof -
  have off: "unat (va + of_nat i) = unat va + i" "unat (va + of_nat i) div 4096 = unat va div 4096"
      "unat (va + of_nat i) mod 4096 = unat va mod 4096 + i" if "i < n" for i
  proof -
    have lt: "unat va mod 4096 + i < 4096" using fits that by simp
    have "unat va < 2 ^ 64" using unsigned_less [of va] by simp
    then have "unat va div 4096 < 4503599627370496" by simp
    moreover have "unat va div 4096 * 4096 + unat va mod 4096 = unat va" by simp
    ultimately have "unat va + i < 18446744073709551616" using lt by linarith
    then show add: "unat (va + of_nat i) = unat va + i" by (simp add: unat_word_ariths unat_of_nat)
    show "unat (va + of_nat i) div 4096 = unat va div 4096"
      "unat (va + of_nat i) mod 4096 = unat va mod 4096 + i"
      unfolding add using add_in_page [OF lt] by simp_all
  qed
  have p: "user_pa True (va + of_nat i) s = Some (base + (va + of_nat i AND 0xFFF))"
    "unat (base + (va + of_nat i AND 0xFFF)) = f * 4096 + (unat va mod 4096 + i)" if i: "i < n" for i
  proof -
    show "user_pa True (va + of_nat i) s = Some (base + (va + of_nat i AND 0xFFF))"
      by (rule pa) (rule same_pageI, rule off(2) [OF i, symmetric])
    have "unat (va + of_nat i AND 0xFFF) = unat va mod 4096 + i"
      by (simp only: unat_page_offset off(3) [OF i])
    then show "unat (base + (va + of_nat i AND 0xFFF)) = f * 4096 + (unat va mod 4096 + i)"
      using fits i base unat_word_ariths(1) [of base "va + of_nat i AND 0xFFF"]
      by (simp add: MAX_FRAMES_def)
  qed
  show ?thesis
    unfolding user_window_def
  proof (intro conjI allI impI)
    fix i
    assume i: "i < n"
    have "unat (base + (va + of_nat i AND 0xFFF)) div PAGE_SIZE = f"
      unfolding p(2) [OF i] using fits i by simp
    then show "\<exists>a. user_pa True (va + of_nat i) s = Some a \<and> data_byte s (CR3 s) a"
      using p(1) [OF i] data by blast
  next
    fix i j
    assume ij: "i < n" "j < n" and eq: "user_pa True (va + of_nat i) s = user_pa True (va + of_nat j) s"
    then have "unat (base + (va + of_nat i AND 0xFFF)) = unat (base + (va + of_nat j AND 0xFFF))"
      using p(1) by simp
    then show "i = j" using p(2) [OF ij(1)] p(2) [OF ij(2)] by simp
  qed
qed

subsection \<open>A kernel with one user page\<close>

definition user_phys :: phys where
  "user_phys =
     (case map_page_in (frame_addr 300) 0x400000 0x123000
             \<lparr>mf_writable = True, mf_user = True, mf_executable = False\<rparr> aspace_example of
        Done _ s \<Rightarrow> s
      | _ \<Rightarrow> aspace_example)"

definition user_example :: kernel where
  "user_example = (kernel_statics (PMM user_phys) (MEM user_phys))\<lparr>CR3 := frame_addr 300\<rparr>"

lemma user_phys_mapped:
  "mapped (frame_addr 300) 0x400000 0x8000000000123007 aspace_example user_phys"
  using aspace_example_inv(1,2)
proof (cases rule: map_page_in_cases [where v = "0x400000" and phys = "0x123000" and
      flags = "\<lparr>mf_writable = True, mf_user = True, mf_executable = False\<rparr>"])
  case oom
  with aspace_example_inv(3) show ?thesis by simp
next
  case (huge s')
  with aspace_example_inv(4) show ?thesis by simp
next
  case (ok s')
  then show ?thesis by (simp add: user_phys_def leaf_flags_def pte_bits)
qed

lemma user_example_fields [simp]:
  "MEM user_example = MEM user_phys" "PMM user_example = PMM user_phys"
  "CR3 user_example = frame_addr 300"
  by (simp_all add: user_example_def)

lemma user_example_aspace: "aspace_inv user_example (CR3 user_example)"
proof -
  have "aspace_inv user_phys (frame_addr 300)" using user_phys_mapped by (simp add: mapped_def)
  then show ?thesis unfolding aspace_inv_def user_example_fields .
qed

lemma user_example_pa:
  assumes "same_page 0x400000 va"
  shows "user_pa wr va user_example = Some (0x123000 + (va AND 0xFFF))"
  using user_phys_mapped assms by (simp add: mapped_def user_pa_def pte_bits)

lemma user_example_data:
  assumes "unat a div PAGE_SIZE = 291"
  shows "data_byte user_example (CR3 user_example) a"
proof -
  have tab: "table_at (MEM aspace_example) (frame_addr 300) w j = Some u \<Longrightarrow> u = frame_addr 300" for w j u
    using aspace_example_table by (cases j) (auto simp: aspace_example_def)
  have "unat (frame_addr 300) div PAGE_SIZE = 300"
    by (simp add: frame_addr_unat MAX_FRAMES_def)
  moreover have "free_set (PMM aspace_example) = {1..<201}"
    using pmm_example_free by (simp add: aspace_example_def)
  ultimately have "data_byte aspace_example (frame_addr 300) a"
    using assms unfolding data_byte_def by (auto simp del: PAGE_SIZE_def dest!: tab)
  then have "data_byte user_phys (frame_addr 300) a"
    using user_phys_mapped by (simp add: mapped_def)
  then show ?thesis unfolding data_byte_def user_example_fields .
qed

lemma user_example_window:
  assumes "n \<le> 4096"
  shows "user_window 0x400000 n user_example"
  using assms
  by (intro user_window_page [of "0x400000" _ "0x123000" 291])
    (simp_all add: user_example_pa user_example_data MAX_FRAMES_def del: PAGE_SIZE_def user_example_fields)

theorem copy_to_user_from_user_witness:
  "\<exists>m. copy_to_user 0x400000 [1, 2, 3] user_example = Done True (user_example\<lparr>MEM := m\<rparr>) \<and>
     copy_from_user 3 0x400000 (user_example\<lparr>MEM := m\<rparr>) = Done (Some [1, 2, 3]) (user_example\<lparr>MEM := m\<rparr>)"
proof -
  have "user_range_ok 0x400000 (of_nat (length [1::u8, 2, 3]))" by (simp add: user_range_ok_iff)
  then show ?thesis
    using copy_to_user_from_user [OF user_example_aspace user_example_window, of "[1, 2, 3]"]
    by (auto simp: numeral_3_eq_3)
qed

end
