(* ===== verification/Fd.thy ===== *)
theory Fd
  imports Tasks UserMem
begin

text \<open>
  File descriptors: \<^verbatim>\<open>proc/fd.rs\<close>, \<^verbatim>\<open>fd_open.rs\<close>, \<^verbatim>\<open>fd_pipe.rs\<close> and \<^verbatim>\<open>fd_io.rs\<close>. A descriptor
  of a process refers to an entry of the table of open files or to one end of a pipe; both tables
  count the descriptors that refer to them. Results \<^verbatim>\<open>-1\<close> of the code are \<open>None\<close>. A read from an
  empty pipe with a writer, and from an empty terminal, waits. When a copy to or from a user page
  faults, the state is the one at the faulting byte, except that the terminal has then already
  taken or produced all bytes of the call.
\<close>

section \<open>Open files\<close>

definition fd_open_alloc :: "nat \<Rightarrow> u32 \<Rightarrow> kernel \<Rightarrow> nat option \<times> kernel" where
  "fd_open_alloc file_idx status_flags s =
     (case position (\<lambda>f. \<not> of_in_use f) (OPEN_FILES s) of
        Some i \<Rightarrow> (Some i, s\<lparr>OPEN_FILES := (OPEN_FILES s)[i := open_file_new file_idx status_flags]\<rparr>)
      | None \<Rightarrow> (None, s))"

definition open_valid :: "nat \<Rightarrow> kernel \<Rightarrow> bool" where
  "open_valid i s \<longleftrightarrow> i < MAX_OPEN_FILES \<and> of_in_use (OPEN_FILES s ! i)"

definition upd_open :: "nat \<Rightarrow> (open_file \<Rightarrow> open_file) \<Rightarrow> kernel \<Rightarrow> kernel" where
  "upd_open i f s = s\<lparr>OPEN_FILES := (OPEN_FILES s)[i := f (OPEN_FILES s ! i)]\<rparr>"

definition fd_open_retain :: "nat \<Rightarrow> kernel \<Rightarrow> bool \<times> kernel" where
  "fd_open_retain i s =
     (if \<not> open_valid i s then (False, s) else (True, upd_open i (of_refs_update Suc) s))"

definition fd_open_release :: "nat \<Rightarrow> kernel \<Rightarrow> kernel" where
  "fd_open_release i s =
     (if open_valid i s
      then upd_open i (\<lambda>f. if of_refs f > 1 then f\<lparr>of_refs := of_refs f - 1\<rparr> else open_file_empty) s
      else s)"

definition fd_open_descriptor_info :: "nat \<Rightarrow> kernel \<Rightarrow> descriptor_info option" where
  "fd_open_descriptor_info i s =
     (if \<not> open_valid i s then None
      else let idx = of_file_idx (OPEN_FILES s ! i)
           in Some (DFile idx (fs_file_size idx (FILESYSTEM s))))"

definition fd_open_with_mut :: "nat \<Rightarrow> (open_file \<Rightarrow> 'r \<times> open_file) \<Rightarrow> kernel \<Rightarrow> 'r option \<times> kernel" where
  "fd_open_with_mut i f s =
     (if \<not> open_valid i s then (None, s)
      else let (r, x) = f (OPEN_FILES s ! i) in (Some r, upd_open i (\<lambda>_. x) s))"

definition fd_open_status_flags :: "nat \<Rightarrow> kernel \<Rightarrow> u32 option" where
  "fd_open_status_flags i s =
     (if \<not> open_valid i s then None else Some (of_status_flags (OPEN_FILES s ! i)))"

definition fd_open_set_status_flags :: "nat \<Rightarrow> u32 \<Rightarrow> kernel \<Rightarrow> bool \<times> kernel" where
  "fd_open_set_status_flags i flags s =
     (if \<not> open_valid i s then (False, s)
      else (True, upd_open i (of_status_flags_update (\<lambda>_. flags)) s))"

section \<open>Pipe ends\<close>

definition pipe_valid :: "nat \<Rightarrow> kernel \<Rightarrow> bool" where
  "pipe_valid i s \<longleftrightarrow> i < MAX_PIPES \<and> pipe_in_use (PIPES s ! i)"

definition upd_pipe :: "nat \<Rightarrow> (pipe \<Rightarrow> pipe) \<Rightarrow> kernel \<Rightarrow> kernel" where
  "upd_pipe i f s = s\<lparr>PIPES := (PIPES s)[i := f (PIPES s ! i)]\<rparr>"

definition retain_read :: "nat \<Rightarrow> kernel \<Rightarrow> bool \<times> kernel" where
  "retain_read i s =
     (if \<not> pipe_valid i s then (False, s) else (True, upd_pipe i (read_refs_update Suc) s))"

definition retain_write :: "nat \<Rightarrow> kernel \<Rightarrow> bool \<times> kernel" where
  "retain_write i s =
     (if \<not> pipe_valid i s then (False, s) else (True, upd_pipe i (write_refs_update Suc) s))"

definition drop_unused :: "pipe \<Rightarrow> pipe" where
  "drop_unused p = (if read_refs p = 0 \<and> write_refs p = 0 then pipe_empty else p)"

definition release_read :: "nat \<Rightarrow> kernel \<Rightarrow> kernel" where
  "release_read i s =
     (if pipe_valid i s
      then upd_pipe i (\<lambda>p. drop_unused (if read_refs p > 0 then p\<lparr>read_refs := read_refs p - 1\<rparr> else p)) s
      else s)"

definition release_write :: "nat \<Rightarrow> kernel \<Rightarrow> kernel" where
  "release_write i s =
     (if pipe_valid i s
      then upd_pipe i (\<lambda>p. drop_unused (if write_refs p > 0 then p\<lparr>write_refs := write_refs p - 1\<rparr> else p)) s
      else s)"

definition fd_pipe_alloc :: "kernel \<Rightarrow> nat option \<times> kernel" where
  "fd_pipe_alloc s =
     (case position (\<lambda>p. \<not> pipe_in_use p) (PIPES s) of
        None \<Rightarrow> (None, s)
      | Some i \<Rightarrow> (Some i, upd_pipe i (\<lambda>_. pipe_new) s))"

definition fd_pipe_clear :: "nat \<Rightarrow> kernel \<Rightarrow> kernel" where
  "fd_pipe_clear i s = (if i < MAX_PIPES then upd_pipe i (\<lambda>_. pipe_empty) s else s)"

section \<open>References held by descriptors\<close>

definition retain_fd_target :: "fd_target \<Rightarrow> kernel \<Rightarrow> bool \<times> kernel" where
  "retain_fd_target target s =
     (case target of
        Empty \<Rightarrow> (False, s)
      | Stdio _ \<Rightarrow> (True, s) | Tty \<Rightarrow> (True, s) | Null \<Rightarrow> (True, s) | Zero \<Rightarrow> (True, s)
      | Open i \<Rightarrow> fd_open_retain i s
      | PipeRead i \<Rightarrow> retain_read i s
      | PipeWrite i \<Rightarrow> retain_write i s)"

definition release_fd_target :: "fd_target \<Rightarrow> kernel \<Rightarrow> kernel" where
  "release_fd_target target s =
     (case target of
        Open i \<Rightarrow> fd_open_release i s
      | PipeRead i \<Rightarrow> release_read i s
      | PipeWrite i \<Rightarrow> release_write i s
      | _ \<Rightarrow> s)"

definition release_fds :: "fd_target list \<Rightarrow> kernel \<Rightarrow> kernel" where
  "release_fds ts s = fold release_fd_target ts s"

text \<open>The body of the loop over the parent's descriptors in \<^verbatim>\<open>fork_current\<close>.\<close>

definition fork_retain :: "fd_target \<Rightarrow> kernel \<Rightarrow> kernel" where
  "fork_retain target s =
     (case target of
        Open i \<Rightarrow> if open_valid i s then upd_open i (of_refs_update Suc) s else s
      | PipeRead i \<Rightarrow> if pipe_valid i s then upd_pipe i (read_refs_update Suc) s else s
      | PipeWrite i \<Rightarrow> if pipe_valid i s then upd_pipe i (write_refs_update Suc) s else s
      | _ \<Rightarrow> s)"

definition fork_current :: "nat \<Rightarrow> kernel \<Rightarrow> (kernel, nat) outcome" where
  "fork_current slot s =
     (let p = NEXT_PID s
      in case (current_process s, current_thread s) of
           (Some parent, Some parent_thread) \<Rightarrow>
             (let s1 = fold fork_retain (fds parent) (s\<lparr>NEXT_PID := p + 1\<rparr>)
              in Done p
                   (s1\<lparr>PROCESSES := (PROCESSES s1)[slot := Some (process_fork_from parent p)],
                       THREADS := (THREADS s1)
                         [slot := Some (thread_new_group_member p (tid parent_thread) slot slot 0
                                          (fs_base parent_thread) (sig_mask parent_thread))]\<rparr>))
         | _ \<Rightarrow> Panicked)"

definition reap_slot :: "nat \<Rightarrow> kernel \<Rightarrow> i64 option \<times> kernel" where
  "reap_slot slot s =
     (case PROCESSES s ! slot of
        None \<Rightarrow> (None, s)
      | Some p \<Rightarrow>
          if proc_state p = PZombie then
            let s1 = release_fds (fds p) s
            in (Some (exit_code p),
                s1\<lparr>PROCESSES := (PROCESSES s1)[slot := None], THREADS := (THREADS s1)[slot := None]\<rparr>)
          else (None, s))"

section \<open>The descriptor table\<close>

definition set_fd :: "nat \<Rightarrow> fd_target \<Rightarrow> u32 \<Rightarrow> process \<Rightarrow> process" where
  "set_fd fd target flags p = p\<lparr>fds := (fds p)[fd := target], fd_flags := (fd_flags p)[fd := flags]\<rparr>"

text \<open>The search for a free descriptor from 3 on, and what is done with it.\<close>

definition alloc_specific_fd :: "fd_target \<Rightarrow> u32 \<Rightarrow> kernel \<Rightarrow> nat option \<times> kernel" where
  "alloc_specific_fd target flags s =
     (case current_process s of
        None \<Rightarrow> (None, s)
      | Some p \<Rightarrow>
          (case first_such (\<lambda>fd. fds p ! fd = Empty) 3 MAX_FDS of
             Some fd \<Rightarrow> (Some fd, current_process_mut (set_fd fd target flags) s)
           | None \<Rightarrow> (None, s)))"

definition alloc_fd_with_flags :: "nat \<Rightarrow> u32 \<Rightarrow> kernel \<Rightarrow> nat option \<times> kernel" where
  "alloc_fd_with_flags file_idx status_flags s =
     (case fd_open_alloc file_idx status_flags s of
        (None, s1) \<Rightarrow> (None, s1)
      | (Some i, s1) \<Rightarrow>
          (case current_process s1 of
             None \<Rightarrow> (None, s1)
           | Some p \<Rightarrow>
               (case first_such (\<lambda>fd. fds p ! fd = Empty) 3 MAX_FDS of
                  Some fd \<Rightarrow> (Some fd, current_process_mut (set_fd fd (Open i) 0) s1)
                | None \<Rightarrow> (None, release_fd_target (Open i) s1))))"

definition proc_open_file :: "nat \<Rightarrow> u32 \<Rightarrow> kernel \<Rightarrow> nat option \<times> kernel" where
  "proc_open_file file_idx status_flags s = alloc_fd_with_flags file_idx status_flags s"

definition get_fd_target :: "nat \<Rightarrow> kernel \<Rightarrow> fd_target option" where
  "get_fd_target fd s =
     (case current_process s of
        None \<Rightarrow> None
      | Some p \<Rightarrow> if fd \<ge> MAX_FDS then None else if fds p ! fd = Empty then None else Some (fds p ! fd))"

definition fd_descriptor_info :: "nat \<Rightarrow> kernel \<Rightarrow> descriptor_info option" where
  "fd_descriptor_info fd s =
     (case get_fd_target fd s of
        None \<Rightarrow> None
      | Some t \<Rightarrow>
          (case t of
             Stdio i \<Rightarrow> Some (DStdio i)
           | Tty \<Rightarrow> Some DCharDevice | Null \<Rightarrow> Some DCharDevice | Zero \<Rightarrow> Some DCharDevice
           | Open i \<Rightarrow> fd_open_descriptor_info i s
           | PipeRead _ \<Rightarrow> Some DPipe | PipeWrite _ \<Rightarrow> Some DPipe
           | Empty \<Rightarrow> None))"

definition with_fd_mut :: "nat \<Rightarrow> (open_file \<Rightarrow> 'r \<times> open_file) \<Rightarrow> kernel \<Rightarrow> 'r option \<times> kernel" where
  "with_fd_mut fd f s =
     (case get_fd_target fd s of Some (Open i) \<Rightarrow> fd_open_with_mut i f s | _ \<Rightarrow> (None, s))"

definition close_fd :: "nat \<Rightarrow> kernel \<Rightarrow> bool \<times> kernel" where
  "close_fd fd s =
     (case current_process s of
        None \<Rightarrow> (False, s)
      | Some p \<Rightarrow>
          if fd \<ge> MAX_FDS then (False, s)
          else if fds p ! fd = Empty then (False, s)
          else (True, release_fd_target (fds p ! fd) (current_process_mut (set_fd fd Empty 0) s)))"

definition close_descriptor :: "nat \<Rightarrow> kernel \<Rightarrow> bool \<times> kernel" where
  "close_descriptor fd s = close_fd fd s"

definition dest_fd :: "nat \<Rightarrow> nat \<Rightarrow> nat option \<Rightarrow> process \<Rightarrow> nat option" where
  "dest_fd old_fd min_fd new_fd p =
     (case new_fd of
        Some fd \<Rightarrow> if fd \<ge> MAX_FDS then None else Some fd
      | None \<Rightarrow> first_such (\<lambda>fd. fds p ! fd = Empty) min_fd MAX_FDS)"

text \<open>Replacing a descriptor keeps its flags until the new target is retained.\<close>

definition clear_fd :: "nat \<Rightarrow> process \<Rightarrow> process" where
  "clear_fd fd p = p\<lparr>fds := (fds p)[fd := Empty]\<rparr>"

definition dup_fd :: "nat \<Rightarrow> nat \<Rightarrow> nat option \<Rightarrow> bool \<Rightarrow> kernel \<Rightarrow> nat option \<times> kernel" where
  "dup_fd old_fd min_fd new_fd cloexec s =
     (case current_process s of
        None \<Rightarrow> (None, s)
      | Some p \<Rightarrow>
          if old_fd \<ge> MAX_FDS then (None, s)
          else let target = fds p ! old_fd
          in if target = Empty then (None, s)
          else if new_fd = Some old_fd then (Some old_fd, s)
          else case dest_fd old_fd min_fd new_fd p of
                 None \<Rightarrow> (None, s)
               | Some dst \<Rightarrow>
                   let old_target = fds p ! dst;
                       s1 = (if old_target \<noteq> Empty
                             then release_fd_target old_target (current_process_mut (clear_fd dst) s)
                             else s)
                   in case retain_fd_target target s1 of
                        (False, s2) \<Rightarrow> (None, s2)
                      | (True, s2) \<Rightarrow>
                          (Some dst,
                           current_process_mut (set_fd dst target (if cloexec then FD_CLOEXEC else 0)) s2))"

definition dup_min :: "nat \<Rightarrow> nat \<Rightarrow> bool \<Rightarrow> kernel \<Rightarrow> nat option \<times> kernel" where
  "dup_min old_fd min_fd cloexec s = dup_fd old_fd min_fd None cloexec s"

definition dup_exact :: "nat \<Rightarrow> nat \<Rightarrow> bool \<Rightarrow> kernel \<Rightarrow> nat option \<times> kernel" where
  "dup_exact old_fd new_fd cloexec s = dup_fd old_fd 0 (Some new_fd) cloexec s"

definition get_fd_flags :: "nat \<Rightarrow> kernel \<Rightarrow> u32 option" where
  "get_fd_flags fd s =
     (case current_process s of
        None \<Rightarrow> None
      | Some p \<Rightarrow> if fd \<ge> MAX_FDS then None else if fds p ! fd = Empty then None else Some (fd_flags p ! fd))"

definition set_fd_flags :: "nat \<Rightarrow> u32 \<Rightarrow> kernel \<Rightarrow> bool \<times> kernel" where
  "set_fd_flags fd flags s =
     (case current_process s of
        None \<Rightarrow> (False, s)
      | Some p \<Rightarrow>
          if fd \<ge> MAX_FDS then (False, s)
          else if fds p ! fd = Empty then (False, s)
          else (True, current_process_mut (\<lambda>p. p\<lparr>fd_flags := (fd_flags p)[fd := flags]\<rparr>) s))"

definition set_cloexec :: "nat \<Rightarrow> bool \<Rightarrow> kernel \<Rightarrow> bool \<times> kernel" where
  "set_cloexec fd cloexec s = set_fd_flags fd (if cloexec then FD_CLOEXEC else 0) s"

definition fd_pipe_end :: "nat \<Rightarrow> kernel \<Rightarrow> (nat \<times> bool) option" where
  "fd_pipe_end fd s =
     (case get_fd_target fd s of
        Some (PipeRead i) \<Rightarrow> if pipe_valid i s then Some (i, True) else None
      | Some (PipeWrite i) \<Rightarrow> if pipe_valid i s then Some (i, False) else None
      | _ \<Rightarrow> None)"

definition peer_closed :: "nat \<Rightarrow> kernel \<Rightarrow> bool option" where
  "peer_closed fd s =
     map_option (\<lambda>(i, rd). (if rd then write_refs (PIPES s ! i) else read_refs (PIPES s ! i)) = 0)
       (fd_pipe_end fd s)"

definition fd_pipe_status_flags :: "nat \<Rightarrow> kernel \<Rightarrow> u32 option" where
  "fd_pipe_status_flags fd s =
     map_option (\<lambda>(i, rd). if rd then read_flags (PIPES s ! i) else write_flags (PIPES s ! i))
       (fd_pipe_end fd s)"

definition fd_pipe_set_status_flags :: "nat \<Rightarrow> u32 \<Rightarrow> kernel \<Rightarrow> bool \<times> kernel" where
  "fd_pipe_set_status_flags fd flags s =
     (case fd_pipe_end fd s of
        None \<Rightarrow> (False, s)
      | Some (i, rd) \<Rightarrow>
          (True, upd_pipe i (if rd then read_flags_update (\<lambda>_. flags) else write_flags_update (\<lambda>_. flags)) s))"

definition get_status_flags :: "nat \<Rightarrow> kernel \<Rightarrow> u32 option" where
  "get_status_flags fd s =
     (case get_fd_target fd s of
        None \<Rightarrow> None
      | Some t \<Rightarrow>
          (case t of
             Stdio _ \<Rightarrow> Some 0 | Tty \<Rightarrow> Some 0 | Null \<Rightarrow> Some 0 | Zero \<Rightarrow> Some 0
           | Open i \<Rightarrow> fd_open_status_flags i s
           | PipeRead _ \<Rightarrow> fd_pipe_status_flags fd s
           | PipeWrite _ \<Rightarrow> fd_pipe_status_flags fd s
           | Empty \<Rightarrow> None))"

definition set_status_flags :: "nat \<Rightarrow> u32 \<Rightarrow> kernel \<Rightarrow> bool \<times> kernel" where
  "set_status_flags fd flags s =
     (case get_fd_target fd s of
        None \<Rightarrow> (False, s)
      | Some t \<Rightarrow>
          (case t of
             Stdio _ \<Rightarrow> (True, s) | Tty \<Rightarrow> (True, s) | Null \<Rightarrow> (True, s) | Zero \<Rightarrow> (True, s)
           | Open i \<Rightarrow> fd_open_set_status_flags i flags s
           | PipeRead _ \<Rightarrow> fd_pipe_set_status_flags fd flags s
           | PipeWrite _ \<Rightarrow> fd_pipe_set_status_flags fd flags s
           | Empty \<Rightarrow> (False, s)))"

definition file_size :: "nat \<Rightarrow> kernel \<Rightarrow> nat option" where
  "file_size fd s = (case fd_descriptor_info fd s of Some (DFile _ n) \<Rightarrow> Some n | _ \<Rightarrow> None)"

definition is_stdin :: "nat \<Rightarrow> kernel \<Rightarrow> bool" where
  "is_stdin fd s \<longleftrightarrow> fd_descriptor_info fd s = Some (DStdio 0)"

definition is_stdout_or_stderr :: "nat \<Rightarrow> kernel \<Rightarrow> bool" where
  "is_stdout_or_stderr fd s \<longleftrightarrow>
     fd_descriptor_info fd s = Some (DStdio 1) \<or> fd_descriptor_info fd s = Some (DStdio 2)"

definition alloc_pipe :: "kernel \<Rightarrow> (nat \<times> nat) option \<times> kernel" where
  "alloc_pipe s =
     (case fd_pipe_alloc s of
        (None, s1) \<Rightarrow> (None, s1)
      | (Some i, s1) \<Rightarrow>
          (case alloc_specific_fd (PipeRead i) 0 s1 of
             (None, s2) \<Rightarrow> (None, fd_pipe_clear i s2)
           | (Some read_fd, s2) \<Rightarrow>
               (case alloc_specific_fd (PipeWrite i) 0 s2 of
                  (None, s3) \<Rightarrow> (None, fd_pipe_clear i (snd (close_fd read_fd s3)))
                | (Some write_fd, s3) \<Rightarrow> (Some (read_fd, write_fd), s3))))"

definition create_pipe_pair :: "kernel \<Rightarrow> (nat \<times> nat) option \<times> kernel" where
  "create_pipe_pair s = alloc_pipe s"

definition open_char_device :: "fd_target \<Rightarrow> kernel \<Rightarrow> nat option \<times> kernel" where
  "open_char_device target s =
     (if target \<in> {Tty, Null, Zero} then alloc_specific_fd target 0 s else (None, s))"

section \<open>Seeking\<close>

text \<open>\<^verbatim>\<open>i64::saturating_add\<close>\<close>

definition saturating_add_i64 :: "i64 \<Rightarrow> i64 \<Rightarrow> i64" where
  "saturating_add_i64 a b =
     (let t = sint a + sint b
      in if t > 2 ^ 63 - 1 then word_of_int (2 ^ 63 - 1)
         else if t < - (2 ^ 63) then word_of_int (- (2 ^ 63)) else a + b)"

definition seek :: "nat \<Rightarrow> i64 \<Rightarrow> u64 \<Rightarrow> kernel \<Rightarrow> u64 option \<times> kernel" where
  "seek fd offset whence s =
     (case with_fd_mut fd (\<lambda>f.
        let size = of_nat (fs_file_size (of_file_idx f) (FILESYSTEM s));
            new_off = (if whence = 0 then Some offset
                       else if whence = 1 then Some (saturating_add_i64 (of_offset f) offset)
                       else if whence = 2 then Some (saturating_add_i64 size offset)
                       else None)
        in case new_off of
             None \<Rightarrow> (None, f)
           | Some n \<Rightarrow> if sint n < 0 then (None, f) else (Some n, f\<lparr>of_offset := n\<rparr>)) s of
        (None, s1) \<Rightarrow> (None, s1)
      | (Some r, s1) \<Rightarrow> (r, s1))"

section \<open>Reading and writing\<close>

text \<open>The bytes to write come from a user pointer or from a buffer of the kernel.\<close>

datatype source = UserSrc u64 | KernelSrc "u8 list"

definition load_at :: "source \<Rightarrow> nat \<Rightarrow> nat \<Rightarrow> kernel \<Rightarrow> (kernel, u8 list) outcome" where
  "load_at src off n s =
     (case src of
        UserSrc ptr \<Rightarrow> user_load n (ptr + of_nat off) s
      | KernelSrc bs \<Rightarrow> Done (take n (drop off bs)) s)"

definition lift_fs :: "(ramfs option \<Rightarrow> (ramfs option, 'a) outcome) \<Rightarrow> kernel \<Rightarrow> (kernel, 'a) outcome" where
  "lift_fs f s =
     (case f (FILESYSTEM s) of
        Done r fs \<Rightarrow> Done r (s\<lparr>FILESYSTEM := fs\<rparr>)
      | Panicked \<Rightarrow> Panicked
      | Faulted fs \<Rightarrow> Faulted (s\<lparr>FILESYSTEM := fs\<rparr>)
      | Waiting fs \<Rightarrow> Waiting (s\<lparr>FILESYSTEM := fs\<rparr>))"

text \<open>
  \<^verbatim>\<open>fs_write_at\<close> with a slice over user memory: the file grows first, then the bytes are
  copied.
\<close>

definition fs_grow :: "nat \<Rightarrow> usize \<Rightarrow> usize \<Rightarrow> ramfs option \<Rightarrow> (ramfs option, bool) outcome" where
  "fs_grow file_idx offset len fs =
     (case fs of
        None \<Rightarrow> Done False fs
      | Some r \<Rightarrow>
          if file_idx \<ge> length r then Done False fs
          else let f = r ! file_idx;
                   fin = offset + len;
                   grow = fin > of_nat (length (file_data f));
                   d = (if grow then resize (unat fin) (file_data f) else file_data f)
               in if grow \<and> unat fin > ISIZE_MAX then Panicked
                  else if unat offset > unat fin \<or> unat fin > length d then Panicked
                  else Done True (Some (r[file_idx := f\<lparr>file_data := d\<rparr>])))"

definition fs_write_from :: "nat \<Rightarrow> usize \<Rightarrow> source \<Rightarrow> usize \<Rightarrow> kernel \<Rightarrow> (kernel, bool) outcome" where
  "fs_write_from file_idx offset src len s =
     obind (lift_fs (fs_grow file_idx offset len) s) (\<lambda>ok s1.
       if \<not> ok then Done False s1
       else obind (load_at src 0 (unat len) s1) (\<lambda>bytes.
         lift_fs (fs_write_at file_idx offset bytes)))"

definition read_file :: "nat \<Rightarrow> u64 \<Rightarrow> usize \<Rightarrow> kernel \<Rightarrow> (kernel, nat option) outcome" where
  "read_file fd buf count s =
     (case get_fd_target fd s of
        Some (Open i) \<Rightarrow>
          if \<not> open_valid i s then Done None s
          else let f = OPEN_FILES s ! i
          in if of_status_flags f AND O_ACCMODE = O_WRONLY then Done None s
          else let bytes = fs_read (of_file_idx f) (of_offset f) count (FILESYSTEM s)
          in obind (user_store bytes buf s) (\<lambda>_ s1.
               Done (Some (length bytes))
                 (upd_open i (of_offset_update (\<lambda>off. off + of_nat (length bytes))) s1))
      | _ \<Rightarrow> Done None s)"

definition write_file :: "nat \<Rightarrow> source \<Rightarrow> usize \<Rightarrow> kernel \<Rightarrow> (kernel, nat option) outcome" where
  "write_file fd src len s =
     (case get_fd_target fd s of
        Some (Open i) \<Rightarrow>
          if \<not> open_valid i s then Done None s
          else let f = OPEN_FILES s ! i; acc = of_status_flags f AND O_ACCMODE
          in if acc = O_RDONLY then Done None s
          else if acc \<noteq> O_WRONLY \<and> acc \<noteq> O_RDWR then Done None s
          else let offset = (if of_status_flags f AND O_APPEND \<noteq> 0
                             then of_nat (fs_file_size (of_file_idx f) (FILESYSTEM s))
                             else of_offset f)
          in obind (fs_write_from (of_file_idx f) offset src len s) (\<lambda>ok s1.
               if \<not> ok then Done None s1
               else Done (Some (unat len)) (upd_open i (of_offset_update (\<lambda>_. offset + len)) s1))
      | _ \<Rightarrow> Done None s)"

text \<open>One iteration of each of the two copying loops, and the loops.\<close>

definition pipe_put :: "u8 \<Rightarrow> pipe \<Rightarrow> pipe" where
  "pipe_put b p =
     (if pipe_len p < PIPE_CAPACITY
      then p\<lparr>pipe_buf := (pipe_buf p)[write_pos p := b],
             write_pos := (write_pos p + 1) mod PIPE_CAPACITY, pipe_len := pipe_len p + 1\<rparr>
      else p)"

definition pipe_take :: "pipe \<Rightarrow> u8 option \<times> pipe" where
  "pipe_take p =
     (if pipe_len p > 0
      then (Some (pipe_buf p ! read_pos p),
            p\<lparr>read_pos := (read_pos p + 1) mod PIPE_CAPACITY, pipe_len := pipe_len p - 1\<rparr>)
      else (None, p))"

primrec pipe_write_loop :: "nat \<Rightarrow> source \<Rightarrow> nat \<Rightarrow> nat \<Rightarrow> kernel \<Rightarrow> (kernel, nat) outcome" where
  "pipe_write_loop 0 src i written s = Done written s"
| "pipe_write_loop (Suc n) src i written s =
     (if pipe_len (PIPES s ! i) < PIPE_CAPACITY
      then obind (load_at src written 1 s) (\<lambda>bs s1.
             pipe_write_loop n src i (written + 1) (upd_pipe i (pipe_put (hd bs)) s1))
      else Done written s)"

primrec pipe_read_loop :: "nat \<Rightarrow> u64 \<Rightarrow> nat \<Rightarrow> nat \<Rightarrow> kernel \<Rightarrow> (kernel, nat) outcome" where
  "pipe_read_loop 0 buf i got s = Done got s"
| "pipe_read_loop (Suc n) buf i got s =
     (case pipe_take (PIPES s ! i) of
        (None, _) \<Rightarrow> Done got s
      | (Some b, p) \<Rightarrow>
          obind (user_store [b] (buf + of_nat got) s) (\<lambda>_ s1.
            pipe_read_loop n buf i (got + 1) (upd_pipe i (\<lambda>_. p) s1)))"

definition write_pipe :: "nat \<Rightarrow> source \<Rightarrow> usize \<Rightarrow> kernel \<Rightarrow> (kernel, nat option) outcome" where
  "write_pipe fd src len s =
     (case fd_pipe_end fd s of
        None \<Rightarrow> Done None s
      | Some (i, is_read_end) \<Rightarrow>
          if is_read_end then Done None s
          else if read_refs (PIPES s ! i) = 0 then Done (Some 0) s
          else obind (pipe_write_loop (unat len) src i 0 s) (\<lambda>n. Done (Some n)))"

definition read_pipe :: "nat \<Rightarrow> u64 \<Rightarrow> usize \<Rightarrow> kernel \<Rightarrow> (kernel, nat option) outcome" where
  "read_pipe fd buf count s =
     (case peer_closed fd s of
        None \<Rightarrow> Done None s
      | Some closed \<Rightarrow>
          (case fd_pipe_end fd s of
             None \<Rightarrow> Done None s
           | Some (i, is_read_end) \<Rightarrow>
               if \<not> is_read_end then Done None s
               else if pipe_len (PIPES s ! i) > 0
               then obind (pipe_read_loop (unat count) buf i 0 s) (\<lambda>n. Done (Some n))
               else if closed then Done (Some 0) s
               else Waiting s))"

definition tty0_write :: "source \<Rightarrow> usize \<Rightarrow> kernel \<Rightarrow> (kernel, nat option) outcome" where
  "tty0_write src len s =
     obind (load_at src 0 (unat len) s) (\<lambda>bytes s1.
       let (n, t) = tty_write bytes (TTY0 s1) in Done (Some n) (s1\<lparr>TTY0 := t\<rparr>))"

definition tty0_read :: "u64 \<Rightarrow> usize \<Rightarrow> kernel \<Rightarrow> (kernel, nat option) outcome" where
  "tty0_read buf count s =
     (case tty_read (unat count) (TTY0 s) of
        Done bs t \<Rightarrow> obind (user_store bs buf (s\<lparr>TTY0 := t\<rparr>)) (\<lambda>_. Done (Some (length bs)))
      | Waiting t \<Rightarrow> Waiting (s\<lparr>TTY0 := t\<rparr>)
      | Panicked \<Rightarrow> Panicked
      | Faulted t \<Rightarrow> Faulted (s\<lparr>TTY0 := t\<rparr>))"

definition write_char_device :: "fd_target \<Rightarrow> source \<Rightarrow> usize \<Rightarrow> kernel \<Rightarrow> (kernel, nat option) outcome" where
  "write_char_device target src len s =
     (case target of
        Tty \<Rightarrow> tty0_write src len s
      | Null \<Rightarrow> Done (Some (unat len)) s
      | Zero \<Rightarrow> Done (Some (unat len)) s
      | _ \<Rightarrow> Done (Some 0) s)"

definition read_char_device :: "fd_target \<Rightarrow> u64 \<Rightarrow> usize \<Rightarrow> kernel \<Rightarrow> (kernel, nat option) outcome" where
  "read_char_device target buf count s =
     (case target of
        Tty \<Rightarrow> tty0_read buf count s
      | Null \<Rightarrow> Done (Some 0) s
      | Zero \<Rightarrow> obind (user_store (replicate (unat count) 0) buf s) (\<lambda>_. Done (Some (unat count)))
      | _ \<Rightarrow> Done (Some 0) s)"

definition char_device :: "nat \<Rightarrow> kernel \<Rightarrow> fd_target option" where
  "char_device fd s =
     (case get_fd_target fd s of
        Some t \<Rightarrow> if t \<in> {Tty, Null, Zero} then Some t else None
      | None \<Rightarrow> None)"

definition write_to_fd :: "nat \<Rightarrow> source \<Rightarrow> usize \<Rightarrow> kernel \<Rightarrow> (kernel, nat option) outcome" where
  "write_to_fd fd src len s =
     (if is_stdout_or_stderr fd s then tty0_write src len s
      else case char_device fd s of
             Some target \<Rightarrow> write_char_device target src len s
           | None \<Rightarrow>
               obind (write_file fd src len s) (\<lambda>r s1.
                 case r of Some n \<Rightarrow> Done (Some n) s1 | None \<Rightarrow> write_pipe fd src len s1))"

definition read_from_fd :: "nat \<Rightarrow> u64 \<Rightarrow> usize \<Rightarrow> kernel \<Rightarrow> (kernel, nat option) outcome" where
  "read_from_fd fd buf count s =
     (if count = 0 then Done (Some 0) s
      else if is_stdin fd s then tty0_read buf count s
      else case char_device fd s of
             Some target \<Rightarrow> read_char_device target buf count s
           | None \<Rightarrow>
               obind (read_pipe fd buf count s) (\<lambda>r s1.
                 case r of Some n \<Rightarrow> Done (Some n) s1 | None \<Rightarrow> read_file fd buf count s1))"

end
