(* ===== verification/FdInv.thy ===== *)
theory FdInv
  imports Fd
begin

text \<open>
  Reference counts of open files and pipe ends. \<open>fd_refs t s\<close> counts the descriptors of all
  processes that refer to \<open>t\<close>; the invariant says that the counts kept in the tables are exactly
  these numbers and that an entry is in use exactly while it is referred to. Operations take and
  drop references in several steps, so the lemmas carry a function \<open>h\<close> of references in hand.
\<close>

section \<open>Counting references\<close>

definition proc_refs :: "fd_target \<Rightarrow> process option \<Rightarrow> nat" where
  "proc_refs t pr = (case pr of Some p \<Rightarrow> count_if ((=) t) (fds p) | None \<Rightarrow> 0)"

definition fd_refs :: "fd_target \<Rightarrow> kernel \<Rightarrow> nat" where
  "fd_refs t s = sum_list (map (proc_refs t) (PROCESSES s))"

definition is_ref :: "fd_target \<Rightarrow> bool" where
  "is_ref t \<longleftrightarrow> (case t of Open _ \<Rightarrow> True | PipeRead _ \<Rightarrow> True | PipeWrite _ \<Rightarrow> True | _ \<Rightarrow> False)"

definition refcount :: "fd_target \<Rightarrow> kernel \<Rightarrow> nat" where
  "refcount t s =
     (case t of
        Open i \<Rightarrow> if i < MAX_OPEN_FILES then of_refs (OPEN_FILES s ! i) else 0
      | PipeRead i \<Rightarrow> if i < MAX_PIPES then read_refs (PIPES s ! i) else 0
      | PipeWrite i \<Rightarrow> if i < MAX_PIPES then write_refs (PIPES s ! i) else 0
      | _ \<Rightarrow> 0)"

definition tables_ok :: "kernel \<Rightarrow> bool" where
  "tables_ok s \<longleftrightarrow>
     length (OPEN_FILES s) = MAX_OPEN_FILES \<and> length (PIPES s) = MAX_PIPES \<and>
     (\<forall>i < MAX_OPEN_FILES. of_in_use (OPEN_FILES s ! i) \<longleftrightarrow> 0 < of_refs (OPEN_FILES s ! i)) \<and>
     (\<forall>i < MAX_PIPES. pipe_in_use (PIPES s ! i) \<longleftrightarrow>
        0 < read_refs (PIPES s ! i) \<or> 0 < write_refs (PIPES s ! i))"

definition balanced :: "(fd_target \<Rightarrow> nat) \<Rightarrow> kernel \<Rightarrow> bool" where
  "balanced h s \<longleftrightarrow> tables_ok s \<and> (\<forall>t. is_ref t \<longrightarrow> refcount t s = fd_refs t s + h t)"

definition shape :: "kernel \<Rightarrow> bool" where
  "shape s \<longleftrightarrow>
     length (PROCESSES s) = MAX_TASKS \<and> length (THREADS s) = MAX_TASKS \<and> CURRENT s < MAX_TASKS \<and>
     (\<forall>i < MAX_TASKS. \<forall>th. THREADS s ! i = Some th \<longrightarrow> group_slot th < MAX_TASKS) \<and>
     (\<forall>i < MAX_TASKS. \<forall>p. PROCESSES s ! i = Some p \<longrightarrow>
        length (fds p) = MAX_FDS \<and> length (fd_flags p) = MAX_FDS)"

definition fd_inv :: "kernel \<Rightarrow> bool" where
  "fd_inv s \<longleftrightarrow> shape s \<and> balanced (\<lambda>_. 0) s"

lemma is_ref_simps [simp]:
  "is_ref (Open i)" "is_ref (PipeRead i)" "is_ref (PipeWrite i)" "\<not> is_ref Empty"
  "\<not> is_ref (Stdio b)" "\<not> is_ref Tty" "\<not> is_ref Null" "\<not> is_ref Zero"
  by (simp_all add: is_ref_def)

section \<open>Dropping and taking a reference\<close>

lemma fd_refs_tables [simp]:
  "fd_refs t (upd_open i f s) = fd_refs t s" "fd_refs t (upd_pipe i g s) = fd_refs t s"
  by (simp_all add: fd_refs_def upd_open_def upd_pipe_def)

lemma upd_fields [simp]:
  "PROCESSES (upd_open i f s) = PROCESSES s" "PROCESSES (upd_pipe i g s) = PROCESSES s"
  "THREADS (upd_open i f s) = THREADS s" "THREADS (upd_pipe i g s) = THREADS s"
  "CURRENT (upd_open i f s) = CURRENT s" "CURRENT (upd_pipe i g s) = CURRENT s"
  "PIPES (upd_open i f s) = PIPES s" "OPEN_FILES (upd_pipe i g s) = OPEN_FILES s"
  by (simp_all add: upd_open_def upd_pipe_def)

text \<open>Changing one entry of a table changes the counts of the targets it stands for.\<close>

lemma balanced_upd_open:
  assumes "balanced h s" "i < MAX_OPEN_FILES" "of_in_use f \<longleftrightarrow> 0 < of_refs f"
    and "of_refs f = fd_refs (Open i) s + h' (Open i)" "\<And>t. t \<noteq> Open i \<Longrightarrow> h' t = h t"
  shows "balanced h' (upd_open i (\<lambda>_. f) s)"
proof -
  have "refcount t (upd_open i (\<lambda>_. f) s) = (if t = Open i then of_refs f else refcount t s)"
    if "is_ref t" for t
    using assms(1,2) that
    by (cases t) (auto simp: refcount_def upd_open_def nth_list_update balanced_def tables_ok_def)
  then show ?thesis
    using assms by (auto simp: balanced_def tables_ok_def upd_open_def nth_list_update)
      (auto simp: fd_refs_def)
qed

lemma balanced_upd_pipe:
  assumes "balanced h s" "i < MAX_PIPES" "pipe_in_use p \<longleftrightarrow> 0 < read_refs p \<or> 0 < write_refs p"
    and "read_refs p = fd_refs (PipeRead i) s + h' (PipeRead i)"
    and "write_refs p = fd_refs (PipeWrite i) s + h' (PipeWrite i)"
    and "\<And>t. t \<noteq> PipeRead i \<Longrightarrow> t \<noteq> PipeWrite i \<Longrightarrow> h' t = h t"
  shows "balanced h' (upd_pipe i (\<lambda>_. p) s)"
proof -
  have "refcount t (upd_pipe i (\<lambda>_. p) s) =
      (if t = PipeRead i then read_refs p else if t = PipeWrite i then write_refs p else refcount t s)"
    if "is_ref t" for t
    using assms(1,2) that
    by (cases t) (auto simp: refcount_def upd_pipe_def nth_list_update balanced_def tables_ok_def)
  then show ?thesis
    using assms by (auto simp: balanced_def tables_ok_def upd_pipe_def nth_list_update)
      (auto simp: fd_refs_def)
qed

lemma balancedD:
  assumes "balanced h s"
  shows "length (OPEN_FILES s) = MAX_OPEN_FILES" "length (PIPES s) = MAX_PIPES"
    and "\<And>i. i < MAX_OPEN_FILES \<Longrightarrow> of_in_use (OPEN_FILES s ! i) \<longleftrightarrow> 0 < of_refs (OPEN_FILES s ! i)"
    and "\<And>i. i < MAX_PIPES \<Longrightarrow> pipe_in_use (PIPES s ! i) \<longleftrightarrow>
      0 < read_refs (PIPES s ! i) \<or> 0 < write_refs (PIPES s ! i)"
    and "\<And>i. i < MAX_OPEN_FILES \<Longrightarrow> of_refs (OPEN_FILES s ! i) = fd_refs (Open i) s + h (Open i)"
    and "\<And>i. i < MAX_PIPES \<Longrightarrow> read_refs (PIPES s ! i) = fd_refs (PipeRead i) s + h (PipeRead i)"
    and "\<And>i. i < MAX_PIPES \<Longrightarrow> write_refs (PIPES s ! i) = fd_refs (PipeWrite i) s + h (PipeWrite i)"
    and "\<And>i. MAX_OPEN_FILES \<le> i \<Longrightarrow> fd_refs (Open i) s = 0 \<and> h (Open i) = 0"
    and "\<And>i. MAX_PIPES \<le> i \<Longrightarrow> fd_refs (PipeRead i) s = 0 \<and> h (PipeRead i) = 0"
    and "\<And>i. MAX_PIPES \<le> i \<Longrightarrow> fd_refs (PipeWrite i) s = 0 \<and> h (PipeWrite i) = 0"
proof -
  have r: "refcount (Open i) s = fd_refs (Open i) s + h (Open i)"
    "refcount (PipeRead i) s = fd_refs (PipeRead i) s + h (PipeRead i)"
    "refcount (PipeWrite i) s = fd_refs (PipeWrite i) s + h (PipeWrite i)" for i
    using assms by (simp_all add: balanced_def)
  show "length (OPEN_FILES s) = MAX_OPEN_FILES" "length (PIPES s) = MAX_PIPES"
    and "\<And>i. i < MAX_OPEN_FILES \<Longrightarrow> of_in_use (OPEN_FILES s ! i) \<longleftrightarrow> 0 < of_refs (OPEN_FILES s ! i)"
    and "\<And>i. i < MAX_PIPES \<Longrightarrow> pipe_in_use (PIPES s ! i) \<longleftrightarrow>
      0 < read_refs (PIPES s ! i) \<or> 0 < write_refs (PIPES s ! i)"
    using assms by (simp_all add: balanced_def tables_ok_def)
  fix i
  show "i < MAX_OPEN_FILES \<Longrightarrow> of_refs (OPEN_FILES s ! i) = fd_refs (Open i) s + h (Open i)"
    "MAX_OPEN_FILES \<le> i \<Longrightarrow> fd_refs (Open i) s = 0 \<and> h (Open i) = 0"
    using r(1) [of i] by (simp_all add: refcount_def)
  show "i < MAX_PIPES \<Longrightarrow> read_refs (PIPES s ! i) = fd_refs (PipeRead i) s + h (PipeRead i)"
    "MAX_PIPES \<le> i \<Longrightarrow> fd_refs (PipeRead i) s = 0 \<and> h (PipeRead i) = 0"
    using r(2) [of i] by (simp_all add: refcount_def)
  show "i < MAX_PIPES \<Longrightarrow> write_refs (PIPES s ! i) = fd_refs (PipeWrite i) s + h (PipeWrite i)"
    "MAX_PIPES \<le> i \<Longrightarrow> fd_refs (PipeWrite i) s = 0 \<and> h (PipeWrite i) = 0"
    using r(3) [of i] by (simp_all add: refcount_def)
qed

text \<open>Releasing a target uses up one reference in hand.\<close>

lemma release_balanced:
  assumes bal: "balanced h s" and held: "is_ref t \<Longrightarrow> 0 < h t"
  shows "balanced (h(t := h t - 1)) (release_fd_target t s)"
proof (cases t)
  case (Open i)
  then have i: "i < MAX_OPEN_FILES" using balancedD(8) [OF bal, of i] held by fastforce
  note D = balancedD(3,5) [OF bal i]
  have "open_valid i s" using D held Open i by (simp add: open_valid_def)
  then have eq: "release_fd_target t s = upd_open i (\<lambda>_. if of_refs (OPEN_FILES s ! i) > 1
      then (OPEN_FILES s ! i)\<lparr>of_refs := of_refs (OPEN_FILES s ! i) - 1\<rparr> else open_file_empty) s"
    by (simp add: Open release_fd_target_def fd_open_release_def upd_open_def)
  show ?thesis
    unfolding eq by (rule balanced_upd_open [OF bal i])
      (use D held Open in \<open>auto simp: open_file_empty_def\<close>)
next
  case (PipeRead i)
  then have i: "i < MAX_PIPES" using balancedD(9) [OF bal, of i] held by fastforce
  note D = balancedD(4,6,7) [OF bal i]
  have "pipe_valid i s" "0 < read_refs (PIPES s ! i)" using D held PipeRead i by (simp_all add: pipe_valid_def)
  then have eq: "release_fd_target t s =
      upd_pipe i (\<lambda>_. drop_unused ((PIPES s ! i)\<lparr>read_refs := read_refs (PIPES s ! i) - 1\<rparr>)) s"
    by (simp add: PipeRead release_fd_target_def release_read_def upd_pipe_def)
  show ?thesis
    unfolding eq by (rule balanced_upd_pipe [OF bal i])
      (use D held PipeRead in \<open>auto simp: drop_unused_def pipe_empty_def\<close>)
next
  case (PipeWrite i)
  then have i: "i < MAX_PIPES" using balancedD(10) [OF bal, of i] held by fastforce
  note D = balancedD(4,6,7) [OF bal i]
  have "pipe_valid i s" "0 < write_refs (PIPES s ! i)" using D held PipeWrite i by (simp_all add: pipe_valid_def)
  then have eq: "release_fd_target t s =
      upd_pipe i (\<lambda>_. drop_unused ((PIPES s ! i)\<lparr>write_refs := write_refs (PIPES s ! i) - 1\<rparr>)) s"
    by (simp add: PipeWrite release_fd_target_def release_write_def upd_pipe_def)
  show ?thesis
    unfolding eq by (rule balanced_upd_pipe [OF bal i])
      (use D held PipeWrite in \<open>auto simp: drop_unused_def pipe_empty_def\<close>)
qed (use bal in \<open>auto simp: release_fd_target_def balanced_def\<close>)

text \<open>Taking a reference to a target that is already referred to succeeds and adds one in hand.\<close>

lemma fork_retain_balanced:
  assumes bal: "balanced h s" and live: "is_ref t \<Longrightarrow> 0 < fd_refs t s + h t"
  shows "balanced (h(t := h t + 1)) (fork_retain t s)"
    and "t \<noteq> Empty \<Longrightarrow> retain_fd_target t s = (True, fork_retain t s)"
proof -
  have "balanced (h(t := h t + 1)) (fork_retain t s) \<and>
    (t \<noteq> Empty \<longrightarrow> retain_fd_target t s = (True, fork_retain t s))"
  proof (cases t)
    case (Open i)
    then have i: "i < MAX_OPEN_FILES" using balancedD(8) [OF bal, of i] live by fastforce
    note D = balancedD(3,5) [OF bal i]
    have v: "open_valid i s" using D live Open i by (simp add: open_valid_def)
    then have "fork_retain t s = upd_open i (\<lambda>_. of_refs_update Suc (OPEN_FILES s ! i)) s"
      by (simp add: Open fork_retain_def upd_open_def)
    moreover have "balanced (h(t := h t + 1)) (upd_open i (\<lambda>_. of_refs_update Suc (OPEN_FILES s ! i)) s)"
      by (rule balanced_upd_open [OF bal i]) (use D live Open in auto)
    ultimately show ?thesis
      using v by (simp add: Open retain_fd_target_def fd_open_retain_def fork_retain_def)
  next
    case (PipeRead i)
    then have i: "i < MAX_PIPES" using balancedD(9) [OF bal, of i] live by fastforce
    note D = balancedD(4,6,7) [OF bal i]
    have v: "pipe_valid i s" using D live PipeRead i by (auto simp: pipe_valid_def)
    then have "fork_retain t s = upd_pipe i (\<lambda>_. read_refs_update Suc (PIPES s ! i)) s"
      by (simp add: PipeRead fork_retain_def upd_pipe_def)
    moreover have "balanced (h(t := h t + 1)) (upd_pipe i (\<lambda>_. read_refs_update Suc (PIPES s ! i)) s)"
      by (rule balanced_upd_pipe [OF bal i]) (use D live PipeRead in auto)
    ultimately show ?thesis
      using v by (simp add: PipeRead retain_fd_target_def retain_read_def fork_retain_def)
  next
    case (PipeWrite i)
    then have i: "i < MAX_PIPES" using balancedD(10) [OF bal, of i] live by fastforce
    note D = balancedD(4,6,7) [OF bal i]
    have v: "pipe_valid i s" using D live PipeWrite i by (auto simp: pipe_valid_def)
    then have "fork_retain t s = upd_pipe i (\<lambda>_. write_refs_update Suc (PIPES s ! i)) s"
      by (simp add: PipeWrite fork_retain_def upd_pipe_def)
    moreover have "balanced (h(t := h t + 1)) (upd_pipe i (\<lambda>_. write_refs_update Suc (PIPES s ! i)) s)"
      by (rule balanced_upd_pipe [OF bal i]) (use D live PipeWrite in auto)
    ultimately show ?thesis
      using v by (simp add: PipeWrite retain_fd_target_def retain_write_def fork_retain_def)
  qed (use bal in \<open>auto simp: fork_retain_def retain_fd_target_def balanced_def\<close>)
  then show "balanced (h(t := h t + 1)) (fork_retain t s)"
    and "t \<noteq> Empty \<Longrightarrow> retain_fd_target t s = (True, fork_retain t s)" by blast+
qed

section \<open>Changing a descriptor\<close>

lemma fd_refs_update:
  assumes "PROCESSES s' = (PROCESSES s)[g := x]" "g < length (PROCESSES s)"
  shows "fd_refs t s' + proc_refs t (PROCESSES s ! g) = fd_refs t s + proc_refs t x"
proof -
  have "proc_refs t (PROCESSES s ! g) \<le> fd_refs t s"
    unfolding fd_refs_def using assms(2) by (intro member_le_sum_list) auto
  then show ?thesis
    using assms by (simp add: fd_refs_def map_update sum_list_update)
qed

lemma balanced_process:
  assumes "balanced h s" "PROCESSES s' = (PROCESSES s)[g := x]" "g < length (PROCESSES s)"
    and "OPEN_FILES s' = OPEN_FILES s" "PIPES s' = PIPES s"
    and "\<And>t. is_ref t \<Longrightarrow> h' t + proc_refs t x = h t + proc_refs t (PROCESSES s ! g)"
  shows "balanced h' s'"
proof -
  have "refcount t s' = fd_refs t s' + h' t" if "is_ref t" for t
  proof -
    have "refcount t s' = refcount t s" using assms(4,5) by (simp add: refcount_def split: fd_target.split)
    moreover have "refcount t s = fd_refs t s + h t" using assms(1) that by (simp add: balanced_def)
    ultimately show ?thesis using fd_refs_update [OF assms(2,3), of t] assms(6) [OF that] by linarith
  qed
  then show ?thesis using assms(1,4,5) by (simp add: balanced_def tables_ok_def)
qed

lemma proc_refs_set_fd:
  assumes "fd < length (fds p)"
  shows "proc_refs t (Some (set_fd fd x fl p)) + of_bool (t = fds p ! fd) = proc_refs t (Some p) + of_bool (t = x)"
    "proc_refs t (Some (clear_fd fd p)) + of_bool (t = fds p ! fd) = proc_refs t (Some p) + of_bool (t = Empty)"
  using count_if_update [OF assms, of "(=) t"] by (simp_all add: proc_refs_def set_fd_def clear_fd_def)

lemma current_process_slot:
  assumes "shape s" "current_process s = Some p"
  obtains g where "g < MAX_TASKS" "PROCESSES s ! g = Some p"
    "length (fds p) = MAX_FDS" "length (fd_flags p) = MAX_FDS"
    "\<And>f. current_process_mut f s = s\<lparr>PROCESSES := (PROCESSES s)[g := Some (f p)]\<rparr>"
    "\<And>f. current_process (current_process_mut f s) = Some (f p)"
proof -
  obtain th where th: "current_thread s = Some th" "PROCESSES s ! group_slot th = Some p"
    using assms(2) by (auto simp: current_process_def split: option.splits)
  then have "THREADS s ! CURRENT s = Some th" by (simp add: current_thread_def current_task_slot_def)
  then have g: "group_slot th < MAX_TASKS" using assms(1) by (auto simp: shape_def)
  then have "length (fds p) = MAX_FDS" "length (fd_flags p) = MAX_FDS"
    using assms(1) th(2) by (auto simp: shape_def)
  moreover have "current_process_mut f s = s\<lparr>PROCESSES := (PROCESSES s)[group_slot th := Some (f p)]\<rparr>" for f
    using th by (simp add: current_process_mut_def)
  moreover from this have "current_process (current_process_mut f s) = Some (f p)" for f
    using th g assms(1) by (simp add: current_process_def current_thread_def current_task_slot_def shape_def)
  ultimately show thesis using that th(2) g by blast
qed

lemma shape_process:
  assumes "shape s" "PROCESSES s' = (PROCESSES s)[g := x]" "THREADS s' = THREADS s" "CURRENT s' = CURRENT s"
    and "\<And>p. x = Some p \<Longrightarrow> length (fds p) = MAX_FDS \<and> length (fd_flags p) = MAX_FDS"
  shows "shape s'"
proof -
  have "length (fds p) = MAX_FDS \<and> length (fd_flags p) = MAX_FDS"
    if "i < MAX_TASKS" "PROCESSES s' ! i = Some p" for i p
    using that assms(1,2,5) by (cases "i = g") (auto simp: shape_def)
  then show ?thesis using assms(1-4) by (simp add: shape_def)
qed

text \<open>One descriptor of the current process changes its target: references move between the table and the hand.\<close>

lemma current_fd_update:
  assumes "shape s" "balanced h s" "current_process s = Some p" "fd < MAX_FDS"
    and f: "\<And>t. proc_refs t (Some (f p)) + of_bool (t = fds p ! fd) = proc_refs t (Some p) + of_bool (t = x)"
      "length (fds (f p)) = MAX_FDS" "length (fd_flags (f p)) = MAX_FDS"
    and h': "\<And>t. is_ref t \<Longrightarrow> h' t + of_bool (t = x) = h t + of_bool (t = fds p ! fd)"
  shows "shape (current_process_mut f s)" "balanced h' (current_process_mut f s)"
    "fd_refs t (current_process_mut f s) + of_bool (t = fds p ! fd) = fd_refs t s + of_bool (t = x)"
proof -
  obtain g where g: "g < MAX_TASKS" "PROCESSES s ! g = Some p"
    "current_process_mut f s = s\<lparr>PROCESSES := (PROCESSES s)[g := Some (f p)]\<rparr>"
    by (rule current_process_slot [OF assms(1,3)]) blast
  show "shape (current_process_mut f s)"
    by (rule shape_process [OF assms(1)]) (use g f in auto)
  have len: "g < length (PROCESSES s)" using g(1) assms(1) by (simp add: shape_def)
  show "fd_refs t (current_process_mut f s) + of_bool (t = fds p ! fd) = fd_refs t s + of_bool (t = x)"
    using fd_refs_update [of "current_process_mut f s" s g "Some (f p)" t] f(1) [of t] g len by simp
  show "balanced h' (current_process_mut f s)"
  proof (rule balanced_process [OF assms(2)])
    fix t
    assume "is_ref t"
    then show "h' t + proc_refs t (Some (f p)) = h t + proc_refs t (PROCESSES s ! g)"
      using h' [of t] f(1) [of t] g(2) by simp
  qed (use g assms(1) in \<open>simp_all add: shape_def\<close>)
qed

lemma set_fd_step:
  assumes "shape s" "balanced h s" "current_process s = Some p" "fd < MAX_FDS"
    and "\<And>t. is_ref t \<Longrightarrow> h' t + of_bool (t = x) = h t + of_bool (t = fds p ! fd)"
  shows "shape (current_process_mut (set_fd fd x fl) s)" "balanced h' (current_process_mut (set_fd fd x fl) s)"
    "fd_refs t (current_process_mut (set_fd fd x fl) s) + of_bool (t = fds p ! fd) = fd_refs t s + of_bool (t = x)"
proof -
  have len: "length (fds p) = MAX_FDS" "length (fd_flags p) = MAX_FDS"
    by (rule current_process_slot [OF assms(1,3)], simp)+
  note u = current_fd_update [where f = "set_fd fd x fl" and x = x, OF assms(1-4)]
  show "shape (current_process_mut (set_fd fd x fl) s)"
    by (rule u(1) [of h']) (use assms(4,5) len in \<open>simp_all add: proc_refs_set_fd, simp_all add: set_fd_def\<close>)
  show "balanced h' (current_process_mut (set_fd fd x fl) s)"
    by (rule u(2)) (use assms(4,5) len in \<open>simp_all add: proc_refs_set_fd, simp_all add: set_fd_def\<close>)
  show "fd_refs t (current_process_mut (set_fd fd x fl) s) + of_bool (t = fds p ! fd) = fd_refs t s + of_bool (t = x)"
    by (rule u(3) [of h']) (use assms(4,5) len in \<open>simp_all add: proc_refs_set_fd, simp_all add: set_fd_def\<close>)
qed

lemma clear_fd_step:
  assumes "shape s" "balanced h s" "current_process s = Some p" "fd < MAX_FDS"
    and "\<And>t. is_ref t \<Longrightarrow> h' t = h t + of_bool (t = fds p ! fd)"
  shows "shape (current_process_mut (clear_fd fd) s)" "balanced h' (current_process_mut (clear_fd fd) s)"
proof -
  have len: "length (fds p) = MAX_FDS" "length (fd_flags p) = MAX_FDS"
    by (rule current_process_slot [OF assms(1,3)], simp)+
  have "h' t + of_bool (t = Empty) = h t + of_bool (t = fds p ! fd)" if "is_ref t" for t
    using assms(5) [OF that] that by auto
  note h' = this and u = current_fd_update [where f = "clear_fd fd" and x = Empty, OF assms(1-4)]
  show "shape (current_process_mut (clear_fd fd) s)"
    by (rule u(1) [of h']) (use assms(4) h' len in \<open>simp_all add: proc_refs_set_fd, simp_all add: clear_fd_def\<close>)
  show "balanced h' (current_process_mut (clear_fd fd) s)"
    by (rule u(2)) (use assms(4) h' len in \<open>simp_all add: proc_refs_set_fd, simp_all add: clear_fd_def\<close>)
qed

section \<open>The operations keep the counts exact\<close>

text \<open>Processes, threads and the current task: all that the table operations leave alone.\<close>

definition same_procs :: "kernel \<Rightarrow> kernel \<Rightarrow> bool" where
  "same_procs s s' \<longleftrightarrow> PROCESSES s' = PROCESSES s \<and> THREADS s' = THREADS s \<and> CURRENT s' = CURRENT s"

lemma same_procsD:
  assumes "same_procs s s'"
  shows "shape s' \<longleftrightarrow> shape s" "current_process s' = current_process s" "fd_refs t s' = fd_refs t s"
  using assms
  by (simp_all add: same_procs_def shape_def current_process_def current_thread_def current_task_slot_def
      fd_refs_def split: option.split)

lemma same_procs_ops [simp]:
  "same_procs s (release_fd_target t s)" "same_procs s (fork_retain t s)"
  "same_procs s (snd (fd_open_alloc i fl s))" "same_procs s (snd (fd_pipe_alloc s))"
  "same_procs s (fd_pipe_clear i s)"
  by (simp_all add: same_procs_def release_fd_target_def fork_retain_def fd_open_alloc_def fd_pipe_alloc_def
      fd_pipe_clear_def fd_open_release_def release_read_def release_write_def
      split: fd_target.split option.split)

lemma fd_invI: "shape s \<Longrightarrow> balanced (\<lambda>_. 0) s \<Longrightarrow> fd_inv s"
  by (simp add: fd_inv_def)

lemma balanced_cong: "balanced h s \<Longrightarrow> (\<And>t. is_ref t \<Longrightarrow> h' t = h t) \<Longrightarrow> balanced h' s"
  by (simp add: balanced_def)

lemma close_fd_balanced:
  assumes inv: "shape s" "balanced h s"
  shows "shape (snd (close_fd fd s))" "balanced h (snd (close_fd fd s))"
proof -
  have "shape (snd (close_fd fd s)) \<and> balanced h (snd (close_fd fd s))"
  proof (cases "\<exists>p. current_process s = Some p \<and> fd < MAX_FDS \<and> fds p ! fd \<noteq> Empty")
    case False
    then have "snd (close_fd fd s) = s" by (auto simp: close_fd_def split: option.split)
    with inv show ?thesis by simp
  next
    case True
    then obtain p where p: "current_process s = Some p" "fd < MAX_FDS" "fds p ! fd \<noteq> Empty" by blast
    let ?t = "fds p ! fd" and ?s = "current_process_mut (set_fd fd Empty 0) s"
    let ?h = "h(?t := h ?t + 1)"
    have h: "?h u + of_bool (u = Empty) = h u + of_bool (u = ?t)" if "is_ref u" for u
      using that by auto
    have "shape ?s" "balanced ?h ?s"
      by (rule set_fd_step(1,2) [OF inv p(1,2) h]; assumption)+
    then have "shape (release_fd_target ?t ?s) \<and> balanced h (release_fd_target ?t ?s)"
      using release_balanced [of ?h ?s ?t] same_procsD(1) [OF same_procs_ops(1)] by simp
    then show ?thesis using p by (simp add: close_fd_def)
  qed
  then show "shape (snd (close_fd fd s))" "balanced h (snd (close_fd fd s))" by blast+
qed

lemma close_fd_inv: "fd_inv s \<Longrightarrow> fd_inv (snd (close_fd fd s))"
  unfolding fd_inv_def by (blast intro: close_fd_balanced)

text \<open>Giving a reference in hand to a free descriptor of the current process.\<close>

lemma alloc_specific_fd_cases:
  assumes "shape s" "balanced h s" "is_ref t \<Longrightarrow> 0 < h t" "alloc_specific_fd t fl s = (r, s')"
  shows "shape s'" "r = None \<Longrightarrow> s' = s"
    "r = Some fd \<Longrightarrow> balanced (h(t := h t - 1)) s' \<and> fd < MAX_FDS \<and>
       (\<exists>p. current_process s' = Some p \<and> fds p ! fd = t)"
proof -
  have "shape s' \<and> (r = None \<longrightarrow> s' = s) \<and> (r = Some fd \<longrightarrow> balanced (h(t := h t - 1)) s' \<and> fd < MAX_FDS \<and>
       (\<exists>p. current_process s' = Some p \<and> fds p ! fd = t))"
  proof (cases "\<exists>p fd. current_process s = Some p \<and> first_such (\<lambda>fd. fds p ! fd = Empty) 3 MAX_FDS = Some fd")
    case False
    then have "(r, s') = (None, s)" using assms(4) by (auto simp: alloc_specific_fd_def split: option.splits)
    then show ?thesis using assms(1) by simp
  next
    case True
    then obtain p f where p: "current_process s = Some p" "first_such (\<lambda>fd. fds p ! fd = Empty) 3 MAX_FDS = Some f"
      by blast
    then have f: "f < MAX_FDS" "fds p ! f = Empty" by (auto dest: first_such_SomeD)
    have rs: "r = Some f" "s' = current_process_mut (set_fd f t fl) s"
      using assms(4) p by (auto simp: alloc_specific_fd_def)
    have h': "(h(t := h t - 1)) u + of_bool (u = t) = h u + of_bool (u = fds p ! f)" if "is_ref u" for u
      using that f(2) assms(3) by (cases "u = t") auto
    note st = set_fd_step(1,2) [OF assms(1,2) p(1) f(1), of "h(t := h t - 1)" t fl, OF h']
    obtain g where g: "g < MAX_TASKS" "s' = s\<lparr>PROCESSES := (PROCESSES s)[g := Some (set_fd f t fl p)]\<rparr>"
      "length (fds p) = MAX_FDS" "current_process s' = Some (set_fd f t fl p)"
      by (rule current_process_slot [OF assms(1) p(1)]) (use rs in blast)
    have "shape s'" "balanced (h(t := h t - 1)) s'" using st by (simp_all only: rs(2))
    moreover have "fds (set_fd f t fl p) ! f = t" using f g(3) by (simp add: set_fd_def)
    ultimately show ?thesis using g(4) f(1) by (auto simp: rs(1))
  qed
  then show "shape s'" "r = None \<Longrightarrow> s' = s"
    "r = Some fd \<Longrightarrow> balanced (h(t := h t - 1)) s' \<and> fd < MAX_FDS \<and>
       (\<exists>p. current_process s' = Some p \<and> fds p ! fd = t)" by blast+
qed

lemma open_char_device_inv:
  assumes "fd_inv s"
  shows "fd_inv (snd (open_char_device t s))"
proof (cases "t \<in> {Tty, Null, Zero}")
  case True
  obtain r s' where a: "alloc_specific_fd t 0 s = (r, s')" by (cases "alloc_specific_fd t 0 s")
  have inv: "shape s" "balanced (\<lambda>_. 0) s" using assms by (simp_all add: fd_inv_def)
  have t: "\<not> is_ref t" using True by auto
  note c = alloc_specific_fd_cases [OF inv _ a]
  have "balanced (\<lambda>_. 0) s'"
  proof (cases r)
    case None
    then show ?thesis using c(2) t inv by simp
  next
    case (Some fd)
    then show ?thesis using c(3) t by (auto intro: balanced_cong)
  qed
  then show ?thesis using c(1) t a True by (simp add: open_char_device_def fd_invI)
next
  case False
  then show ?thesis using assms by (simp add: open_char_device_def)
qed

lemma fd_open_alloc_balanced:
  assumes "balanced h s" "fd_open_alloc idx fl s = (Some i, s')"
  shows "balanced (h(Open i := 1)) s'" "h (Open i) = 0"
proof -
  have i: "position (\<lambda>f. \<not> of_in_use f) (OPEN_FILES s) = Some i"
    and s': "s' = upd_open i (\<lambda>_. open_file_new idx fl) s"
    using assms(2) by (auto simp: fd_open_alloc_def upd_open_def split: option.splits)
  have b: "i < MAX_OPEN_FILES" "\<not> of_in_use (OPEN_FILES s ! i)"
    using position_SomeD [OF i] balancedD(1) [OF assms(1)] by simp_all
  then have z: "fd_refs (Open i) s = 0" "h (Open i) = 0"
    using balancedD(3,5) [OF assms(1) b(1)] by simp_all
  then show "h (Open i) = 0" by simp
  show "balanced (h(Open i := 1)) s'"
    unfolding s' by (rule balanced_upd_open [OF assms(1) b(1)]) (auto simp: open_file_new_def z)
qed

lemma proc_open_file_inv:
  assumes "fd_inv s" "current_process s \<noteq> None"
  shows "fd_inv (snd (proc_open_file idx fl s))"
proof -
  have inv: "shape s" "balanced (\<lambda>_. 0) s" using assms by (simp_all add: fd_inv_def)
  obtain r s1 where a: "fd_open_alloc idx fl s = (r, s1)" by (cases "fd_open_alloc idx fl s")
  have "same_procs s s1" using same_procs_ops(3) [of s idx fl] by (simp add: a)
  note same = same_procsD [OF this]
  obtain p where p: "current_process s1 = Some p" using assms(2) same(2) by auto
  show ?thesis
  proof (cases r)
    case None
    then have "s1 = s" using a by (auto simp: fd_open_alloc_def split: option.splits)
    then show ?thesis using None a assms(1) by (simp add: proc_open_file_def alloc_fd_with_flags_def)
  next
    case (Some i)
    note b = fd_open_alloc_balanced [OF inv(2) a [unfolded Some]]
    have sh: "shape s1" using inv(1) same(1) by simp
    show ?thesis
    proof (cases "first_such (\<lambda>fd. fds p ! fd = Empty) 3 MAX_FDS")
      case None
      have "fd_inv (release_fd_target (Open i) s1)"
        using release_balanced [OF b(1), of "Open i"] sh same_procsD(1) [OF same_procs_ops(1)]
        by (intro fd_invI) (simp_all add: fun_upd_idem)
      then show ?thesis using None a Some p by (simp add: proc_open_file_def alloc_fd_with_flags_def)
    next
      case f: (Some fd)
      then have fd: "fd < MAX_FDS" "fds p ! fd = Empty" by (auto dest: first_such_SomeD)
      have h: "(0::nat) + of_bool (u = Open i) = ((\<lambda>_. 0)(Open i := 1)) u + of_bool (u = fds p ! fd)"
        if "is_ref u" for u
        using that fd by auto
      have "fd_inv (current_process_mut (set_fd fd (Open i) 0) s1)"
        by (rule fd_invI; rule set_fd_step(1,2) [OF sh b(1) p fd(1) h]; assumption)
      then show ?thesis using f a Some p by (simp add: proc_open_file_def alloc_fd_with_flags_def)
    qed
  qed
qed

lemma fd_refs_pos:
  assumes "shape s" "current_process s = Some p" "fd < MAX_FDS"
  shows "0 < fd_refs (fds p ! fd) s"
proof -
  obtain g where g: "g < MAX_TASKS" "PROCESSES s ! g = Some p" "length (fds p) = MAX_FDS"
    by (rule current_process_slot [OF assms(1,2)]) blast
  then have "0 < proc_refs (fds p ! fd) (PROCESSES s ! g)"
    using assms(3) count_if_pos [of fd "fds p" "(=) (fds p ! fd)"] by (simp add: proc_refs_def)
  moreover have "proc_refs (fds p ! fd) (PROCESSES s ! g) \<le> fd_refs (fds p ! fd) s"
    unfolding fd_refs_def using g(1) assms(1) by (intro member_le_sum_list) (auto simp: shape_def)
  ultimately show ?thesis by simp
qed

text \<open>The second half of a duplication: the destination is free.\<close>

lemma dup_into_free:
  assumes "fd_inv s" "current_process s = Some p" "old < MAX_FDS" "dst < MAX_FDS"
    and "fds p ! old \<noteq> Empty" "fds p ! dst = Empty"
  shows "retain_fd_target (fds p ! old) s = (True, fork_retain (fds p ! old) s)"
    and "fd_inv (current_process_mut (set_fd dst (fds p ! old) fl) (fork_retain (fds p ! old) s))"
proof -
  let ?t = "fds p ! old"
  have inv: "shape s" "balanced (\<lambda>_. 0) s" using assms(1) by (simp_all add: fd_inv_def)
  note k = fork_retain_balanced [OF inv(2), of ?t]
  have pos: "0 < fd_refs ?t s + 0" using fd_refs_pos [OF inv(1) assms(2,3)] by simp
  show "retain_fd_target ?t s = (True, fork_retain ?t s)" by (rule k(2) [OF pos assms(5)])
  have same: "same_procs s (fork_retain ?t s)" by simp
  have h: "(0::nat) + of_bool (u = ?t) = ((\<lambda>_. 0)(?t := 0 + 1)) u + of_bool (u = fds p ! dst)" if "is_ref u" for u
    using that assms(6) by auto
  have sh: "shape (fork_retain ?t s)" "current_process (fork_retain ?t s) = Some p"
    using same_procsD(1,2) [OF same] inv(1) assms(2) by simp_all
  show "fd_inv (current_process_mut (set_fd dst ?t fl) (fork_retain ?t s))"
    by (rule fd_invI; rule set_fd_step(1,2) [OF sh(1) k(1) [OF pos] sh(2) assms(4) h]; assumption)
qed

lemma dup_fd_inv:
  assumes "fd_inv s"
  shows "fd_inv (snd (dup_fd old lo new cx s))"
proof -
  have inv: "shape s" "balanced (\<lambda>_. 0) s" using assms by (simp_all add: fd_inv_def)
  show ?thesis
  proof (cases "\<exists>p dst. current_process s = Some p \<and> old < MAX_FDS \<and> fds p ! old \<noteq> Empty \<and>
      new \<noteq> Some old \<and> dest_fd old lo new p = Some dst")
    case False
    then have "snd (dup_fd old lo new cx s) = s"
      by (auto simp: dup_fd_def Let_def split: option.split)
    with assms show ?thesis by simp
  next
    case True
    then obtain p dst where p: "current_process s = Some p" "old < MAX_FDS" "fds p ! old \<noteq> Empty"
      "new \<noteq> Some old" "dest_fd old lo new p = Some dst" by blast
    let ?fl = "if cx then FD_CLOEXEC else 0"
    have dst: "dst < MAX_FDS" "fds p ! dst \<noteq> Empty \<Longrightarrow> dst \<noteq> old"
      using p(4,5) by (auto simp: dest_fd_def dest: first_such_SomeD split: option.splits if_splits)
    show ?thesis
    proof (cases "fds p ! dst = Empty")
      case True
      then show ?thesis
        using dup_into_free(1) [OF assms p(1,2) dst(1) p(3)]
          dup_into_free(2) [OF assms p(1,2) dst(1) p(3), of ?fl] p by (simp add: dup_fd_def Let_def split del: if_split)
    next
      case False
      let ?s = "current_process_mut (clear_fd dst) s" and ?q = "clear_fd dst p"
      let ?r = "release_fd_target (fds p ! dst) ?s"
      have len: "length (fds p) = MAX_FDS" and cp: "current_process ?s = Some ?q"
        by (rule current_process_slot [OF inv(1) p(1)], simp)+
      have "balanced ((\<lambda>_. 0)(fds p ! dst := 1)) ?s" "shape ?s"
        by (rule clear_fd_step [OF inv p(1) dst(1), of "(\<lambda>_. 0)(fds p ! dst := 1)"]; simp)+
      then have "fd_inv ?r"
        using release_balanced [of _ ?s "fds p ! dst"] same_procsD(1) [OF same_procs_ops(1)]
        by (intro fd_invI) (force simp: fun_upd_idem)+
      moreover have "current_process ?r = Some ?q"
        using same_procsD(2) [OF same_procs_ops(1)] cp by simp
      moreover have "fds ?q ! old = fds p ! old" "fds ?q ! dst = Empty"
        using dst False len by (simp_all add: clear_fd_def)
      ultimately show ?thesis
        using dup_into_free(1) [of ?r ?q old dst] dup_into_free(2) [of ?r ?q old dst ?fl]
          p dst(1) False by (simp add: dup_fd_def Let_def split del: if_split)
    qed
  qed
qed

lemma fd_pipe_alloc_balanced:
  assumes "balanced h s" "fd_pipe_alloc s = (Some i, s')"
  shows "balanced (h(PipeRead i := 1, PipeWrite i := 1)) s'" "i < MAX_PIPES"
    "fd_refs (PipeRead i) s = 0 \<and> h (PipeRead i) = 0" "fd_refs (PipeWrite i) s = 0 \<and> h (PipeWrite i) = 0"
proof -
  have i: "position (\<lambda>p. \<not> pipe_in_use p) (PIPES s) = Some i" and s': "s' = upd_pipe i (\<lambda>_. pipe_new) s"
    using assms(2) by (auto simp: fd_pipe_alloc_def split: option.splits)
  show b: "i < MAX_PIPES" using position_SomeD [OF i] balancedD(2) [OF assms(1)] by simp
  have "\<not> pipe_in_use (PIPES s ! i)" using position_SomeD [OF i] by simp
  then show z: "fd_refs (PipeRead i) s = 0 \<and> h (PipeRead i) = 0" "fd_refs (PipeWrite i) s = 0 \<and> h (PipeWrite i) = 0"
    using balancedD(4,6,7) [OF assms(1) b] by simp_all
  show "balanced (h(PipeRead i := 1, PipeWrite i := 1)) s'"
    unfolding s' by (rule balanced_upd_pipe [OF assms(1) b]) (auto simp: pipe_new_def z)
qed

lemma fd_pipe_clear_balanced:
  assumes "balanced h s" "i < MAX_PIPES" "fd_refs (PipeRead i) s = 0" "fd_refs (PipeWrite i) s = 0"
  shows "balanced (h(PipeRead i := 0, PipeWrite i := 0)) (fd_pipe_clear i s)"
  using assms(2) balanced_upd_pipe [OF assms(1,2), of pipe_empty "h(PipeRead i := 0, PipeWrite i := 0)"] assms(3,4)
  by (simp add: fd_pipe_clear_def pipe_empty_def)

lemma alloc_specific_fd_refs:
  assumes "shape s" "balanced h s" "alloc_specific_fd t fl s = (Some fd, s')" "is_ref u"
  shows "fd_refs u s' = fd_refs u s + of_bool (u = t)"
proof -
  obtain p where p: "current_process s = Some p" "first_such (\<lambda>fd. fds p ! fd = Empty) 3 MAX_FDS = Some fd"
    and s': "s' = current_process_mut (set_fd fd t fl) s"
    using assms(3) by (auto simp: alloc_specific_fd_def split: option.splits)
  then have fd: "fd < MAX_FDS" "fds p ! fd = Empty" by (auto dest: first_such_SomeD)
  obtain g where g: "g < MAX_TASKS" "PROCESSES s ! g = Some p" "length (fds p) = MAX_FDS"
    "s' = s\<lparr>PROCESSES := (PROCESSES s)[g := Some (set_fd fd t fl p)]\<rparr>"
    unfolding s' by (rule current_process_slot [OF assms(1) p(1)]) blast
  have "fd_refs u s' + proc_refs u (Some p) = fd_refs u s + proc_refs u (Some (set_fd fd t fl p))"
    using fd_refs_update [of s' s g] g assms(1) by (simp add: shape_def)
  moreover have "u \<noteq> Empty" using assms(4) by auto
  ultimately show ?thesis
    using proc_refs_set_fd(1) [of fd p u t fl] fd g(3) by simp
qed

lemma close_fd_refs_le:
  assumes "shape s" "is_ref u"
  shows "fd_refs u (snd (close_fd fd s)) \<le> fd_refs u s"
    and "current_process s = Some p \<Longrightarrow> fd < MAX_FDS \<Longrightarrow> fds p ! fd = u \<Longrightarrow>
           fd_refs u (snd (close_fd fd s)) + 1 = fd_refs u s"
proof -
  have "fd_refs u (snd (close_fd fd s)) + of_bool (fd < MAX_FDS \<and> (\<exists>p. current_process s = Some p \<and> fds p ! fd = u))
      = fd_refs u s"
  proof (cases "\<exists>p. current_process s = Some p \<and> fd < MAX_FDS \<and> fds p ! fd \<noteq> Empty")
    case False
    then have "snd (close_fd fd s) = s" by (auto simp: close_fd_def split: option.split)
    moreover have "u \<noteq> Empty" using assms(2) by auto
    ultimately show ?thesis using False by auto
  next
    case True
    then obtain p where p: "current_process s = Some p" "fd < MAX_FDS" "fds p ! fd \<noteq> Empty" by blast
    obtain g where g: "g < MAX_TASKS" "PROCESSES s ! g = Some p" "length (fds p) = MAX_FDS"
      "\<And>f. current_process_mut f s = s\<lparr>PROCESSES := (PROCESSES s)[g := Some (f p)]\<rparr>"
      by (rule current_process_slot [OF assms(1) p(1)]) blast
    let ?s = "current_process_mut (set_fd fd Empty 0) s"
    have "fd_refs u ?s + proc_refs u (Some p) = fd_refs u s + proc_refs u (Some (set_fd fd Empty 0 p))"
      using fd_refs_update [of ?s s g] g assms(1) by (simp add: shape_def)
    moreover have "u \<noteq> Empty" using assms(2) by auto
    moreover have "fd_refs u (snd (close_fd fd s)) = fd_refs u ?s"
      using p same_procsD(3) [OF same_procs_ops(1)] by (simp add: close_fd_def)
    ultimately show ?thesis
      using proc_refs_set_fd(1) [of fd p u Empty 0] p g(3) by auto
  qed
  then show "fd_refs u (snd (close_fd fd s)) \<le> fd_refs u s"
    and "current_process s = Some p \<Longrightarrow> fd < MAX_FDS \<Longrightarrow> fds p ! fd = u \<Longrightarrow>
           fd_refs u (snd (close_fd fd s)) + 1 = fd_refs u s"
    by auto
qed

lemma alloc_pipe_inv:
  assumes "fd_inv s"
  shows "fd_inv (snd (alloc_pipe s))"
proof (cases "fd_pipe_alloc s")
  case (Pair r s1)
  have inv: "shape s" "balanced (\<lambda>_. 0) s" using assms by (simp_all add: fd_inv_def)
  have "same_procs s s1" using same_procs_ops(4) [of s] by (simp add: Pair)
  note same = same_procsD [OF this]
  have sh1: "shape s1" using inv(1) same(1) by simp
  show ?thesis
  proof (cases r)
    case None
    then have "s1 = s" using Pair by (auto simp: fd_pipe_alloc_def split: option.splits)
    then show ?thesis using assms Pair None by (simp add: alloc_pipe_def)
  next
    case (Some i)
    note b = fd_pipe_alloc_balanced [OF inv(2) Pair [unfolded Some]]
    let ?h = "(\<lambda>_. 0)(PipeRead i := 1, PipeWrite i := 1)"
    have b1: "balanced ?h s1" by (rule b(1))
    have z1: "fd_refs (PipeRead i) s1 = 0" "fd_refs (PipeWrite i) s1 = 0" using b(3,4) same(3) by simp_all
    obtain r2 s2 where a: "alloc_specific_fd (PipeRead i) 0 s1 = (r2, s2)" by fastforce
    note c = alloc_specific_fd_cases [OF sh1 b1 _ a, simplified]
    show ?thesis
    proof (cases r2)
      case None
      have "fd_inv (fd_pipe_clear i s1)"
        using fd_pipe_clear_balanced [OF b1 b(2) z1] same_procsD(1) [OF same_procs_ops(5), of i s1] sh1
        by (intro fd_invI) (auto intro: balanced_cong)
      then show ?thesis using None a Pair Some c(2) by (simp add: alloc_pipe_def)
    next
      case rd: (Some fd)
      let ?h2 = "(\<lambda>_. 0)(PipeWrite i := 1)"
      have b2: "balanced ?h2 s2" using c(3) rd by (auto elim!: balanced_cong)
      obtain r3 s3 where a3: "alloc_specific_fd (PipeWrite i) 0 s2 = (r3, s3)" by fastforce
      note c3 = alloc_specific_fd_cases [OF c(1) b2 _ a3, simplified]
      show ?thesis
      proof (cases r3)
        case (Some wr)
        then have "fd_inv s3" using c3(1,3) by (intro fd_invI) (auto elim!: balanced_cong)
        then show ?thesis using Pair \<open>r = Some i\<close> a rd a3 Some by (simp add: alloc_pipe_def)
      next
        case None
        let ?s4 = "snd (close_fd fd s2)"
        note b4 = close_fd_balanced [OF c(1) b2, of fd]
        have "fd_refs (PipeRead i) s2 = 1" "fd_refs (PipeWrite i) s2 = 0"
          using alloc_specific_fd_refs [OF sh1 b1 a [unfolded rd]] z1 by simp_all
        then have "fd_refs (PipeRead i) ?s4 = 0" "fd_refs (PipeWrite i) ?s4 = 0"
          using close_fd_refs_le(2) [OF c(1), where u = "PipeRead i" and fd = fd]
            close_fd_refs_le(1) [OF c(1), where u = "PipeWrite i" and fd = fd]
            c(3) rd by auto
        then have "fd_inv (fd_pipe_clear i ?s4)"
          using fd_pipe_clear_balanced [OF b4(2) b(2)] same_procsD(1) [OF same_procs_ops(5), of i ?s4] b4(1)
          by (intro fd_invI) (auto intro: balanced_cong)
        then show ?thesis using Pair \<open>r = Some i\<close> a rd a3 None c3(2) by (simp add: alloc_pipe_def)
      qed
    qed
  qed
qed

lemma balanced_frame:
  assumes "PROCESSES s' = PROCESSES s" "OPEN_FILES s' = OPEN_FILES s" "PIPES s' = PIPES s"
  shows "balanced h s' \<longleftrightarrow> balanced h s"
proof -
  have "refcount t s' = refcount t s" "fd_refs t s' = fd_refs t s" for t
    using assms by (simp_all add: refcount_def fd_refs_def split: fd_target.split)
  then show ?thesis using assms by (simp add: balanced_def tables_ok_def)
qed

lemma shape_slot:
  assumes "shape s" "PROCESSES s' = (PROCESSES s)[slot := x]" "THREADS s' = (THREADS s)[slot := y]"
    "CURRENT s' = CURRENT s"
    and "\<And>p. x = Some p \<Longrightarrow> length (fds p) = MAX_FDS \<and> length (fd_flags p) = MAX_FDS"
    and "\<And>th. y = Some th \<Longrightarrow> group_slot th < MAX_TASKS"
  shows "shape s'"
proof -
  have "length (fds p) = MAX_FDS \<and> length (fd_flags p) = MAX_FDS"
    if "i < MAX_TASKS" "PROCESSES s' ! i = Some p" for i p
    using that assms(1,2,5) by (cases "i = slot") (auto simp: shape_def)
  moreover have "group_slot th < MAX_TASKS" if "i < MAX_TASKS" "THREADS s' ! i = Some th" for i th
    using that assms(1,3,6) by (cases "i = slot") (auto simp: shape_def)
  ultimately show ?thesis using assms(1-4) by (simp add: shape_def)
qed

lemma fold_fork_retain:
  assumes "balanced h s" "\<And>t. t \<in> set ts \<Longrightarrow> is_ref t \<Longrightarrow> 0 < fd_refs t s"
  shows "balanced (\<lambda>t. h t + count_if ((=) t) ts) (fold fork_retain ts s) \<and>
    same_procs s (fold fork_retain ts s)"
  using assms
proof (induction ts arbitrary: h s)
  case (Cons t ts)
  have same: "same_procs s (fork_retain t s)" by simp
  have b: "balanced (h(t := h t + 1)) (fork_retain t s)"
    using fork_retain_balanced(1) [OF Cons.prems(1)] Cons.prems(2) by simp
  have IH: "balanced (\<lambda>u. (h(t := h t + 1)) u + count_if ((=) u) ts) (fold fork_retain ts (fork_retain t s))"
    "same_procs (fork_retain t s) (fold fork_retain ts (fork_retain t s))"
    using Cons.IH [OF b] Cons.prems(2) same_procsD(3) [OF same] by simp_all
  have "balanced (\<lambda>u. h u + count_if ((=) u) (t # ts)) (fold fork_retain (t # ts) s)"
    using IH(1) by (auto elim!: balanced_cong)
  then show ?case using IH(2) same by (simp add: same_procs_def)
qed (simp add: same_procs_def)

lemma release_fds_balanced:
  assumes "balanced h s" "\<And>t. is_ref t \<Longrightarrow> count_if ((=) t) ts \<le> h t"
  shows "balanced (\<lambda>t. h t - count_if ((=) t) ts) (release_fds ts s)"
  using assms
proof (induction ts arbitrary: h s)
  case (Cons t ts)
  have "balanced (h(t := h t - 1)) (release_fd_target t s)"
    by (rule release_balanced [OF Cons.prems(1)]) (use Cons.prems(2) [of t] in simp)
  moreover have "count_if ((=) u) ts \<le> (h(t := h t - 1)) u" if "is_ref u" for u
    using Cons.prems(2) [OF that] by (cases "u = t") auto
  ultimately have "balanced (\<lambda>u. (h(t := h t - 1)) u - count_if ((=) u) ts) (release_fds ts (release_fd_target t s))"
    by (rule Cons.IH)
  then show ?case by (auto simp: release_fds_def elim!: balanced_cong)
qed (simp add: release_fds_def)

lemma release_commutes:
  "release_fd_target t (s\<lparr>PROCESSES := x, THREADS := y\<rparr>) = (release_fd_target t s)\<lparr>PROCESSES := x, THREADS := y\<rparr>"
  by (simp add: release_fd_target_def fd_open_release_def release_read_def release_write_def open_valid_def
      pipe_valid_def upd_open_def upd_pipe_def split: fd_target.split)

lemma release_fds_commutes:
  "release_fds ts (s\<lparr>PROCESSES := x, THREADS := y\<rparr>) = (release_fds ts s)\<lparr>PROCESSES := x, THREADS := y\<rparr>"
  by (induction ts arbitrary: s) (simp_all add: release_fds_def release_commutes)

lemma release_fds_same: "same_procs s (release_fds ts s)"
proof (induction ts arbitrary: s)
  case (Cons t ts)
  have "same_procs s (release_fd_target t s)" by simp
  then show ?case using Cons [of "release_fd_target t s"] by (simp add: release_fds_def same_procs_def)
qed (simp add: release_fds_def same_procs_def)

lemma reap_slot_inv:
  assumes "fd_inv s" "slot < MAX_TASKS"
  shows "fd_inv (snd (reap_slot slot s))"
proof (cases "\<exists>p. PROCESSES s ! slot = Some p \<and> proc_state p = PZombie")
  case False
  then have "snd (reap_slot slot s) = s" by (auto simp: reap_slot_def split: option.split)
  with assms show ?thesis by simp
next
  case True
  then obtain p where p: "PROCESSES s ! slot = Some p" "proc_state p = PZombie" by blast
  have inv: "shape s" "balanced (\<lambda>_. 0) s" using assms by (simp_all add: fd_inv_def)
  let ?s = "s\<lparr>PROCESSES := (PROCESSES s)[slot := None], THREADS := (THREADS s)[slot := None]\<rparr>"
  have "snd (reap_slot slot s) = release_fds (fds p) ?s"
    using p release_fds_same [of s "fds p"]
    by (simp add: reap_slot_def release_fds_commutes same_procs_def Let_def)
  moreover have "shape ?s" by (rule shape_slot [OF inv(1), of _ slot None None]) simp_all
  moreover have "balanced (\<lambda>t. count_if ((=) t) (fds p)) ?s"
    by (rule balanced_process [OF inv(2), of _ slot None])
      (use assms(2) inv(1) p in \<open>simp_all add: shape_def proc_refs_def\<close>)
  ultimately show ?thesis
    using release_fds_balanced [of "\<lambda>t. count_if ((=) t) (fds p)" ?s "fds p"]
      same_procsD(1) [OF release_fds_same [of ?s "fds p"]] by (intro fd_invI) simp_all
qed

text \<open>What the slot held before the fork stays counted.\<close>

lemma fork_current_balanced:
  assumes "fd_inv s" "slot < MAX_TASKS" "fork_current slot s = Done q s'"
  shows "shape s'" "balanced (\<lambda>t. proc_refs t (PROCESSES s ! slot)) s'"
proof -
  have inv: "shape s" "balanced (\<lambda>_. 0) s" using assms by (simp_all add: fd_inv_def)
  obtain p th where p: "current_process s = Some p" "current_thread s = Some th"
    using assms(3) by (auto simp: fork_current_def Let_def split: option.splits)
  let ?s = "s\<lparr>NEXT_PID := NEXT_PID s + 1\<rparr>" and ?f = "fold fork_retain (fds p) (s\<lparr>NEXT_PID := NEXT_PID s + 1\<rparr>)"
  have s': "s' = ?f\<lparr>PROCESSES := (PROCESSES ?f)[slot := Some (process_fork_from p (NEXT_PID s))],
      THREADS := (THREADS ?f)[slot := Some (thread_new_group_member (NEXT_PID s) (tid th) slot slot 0 (fs_base th) (sig_mask th))]\<rparr>"
    using assms(3) p by (auto simp: fork_current_def Let_def)
  have len: "length (fds p) = MAX_FDS" "length (fd_flags p) = MAX_FDS"
    by (rule current_process_slot [OF inv(1) p(1)], simp)+
  have "0 < fd_refs t s" if "t \<in> set (fds p)" for t
    using that fd_refs_pos [OF inv(1) p(1)] len by (auto simp: in_set_conv_nth)
  moreover have b: "balanced (\<lambda>_. 0) ?s" "same_procs s ?s"
    using inv(2) balanced_frame [of ?s s] by (simp_all add: same_procs_def)
  ultimately have f: "balanced (\<lambda>t. 0 + count_if ((=) t) (fds p)) ?f" "same_procs ?s ?f"
    using fold_fork_retain [OF b(1), of "fds p"] same_procsD(3) [OF b(2)] by simp_all
  then have same: "same_procs s ?f" using b(2) by (simp add: same_procs_def)
  have sh: "shape ?f" using same_procsD(1) [OF same] inv(1) by simp
  show "shape s'" by (rule shape_slot [OF sh]) (use assms(2) len in \<open>auto simp: s' process_fork_from_def\<close>)
  show "balanced (\<lambda>t. proc_refs t (PROCESSES s ! slot)) s'"
    by (rule balanced_process [OF f(1), of _ slot])
      (use sh assms(2) same in \<open>auto simp: s' proc_refs_def process_fork_from_def shape_def same_procs_def\<close>)
qed

lemma fork_current_inv:
  assumes "fd_inv s" "slot < MAX_TASKS" "PROCESSES s ! slot = None" "fork_current slot s = Done q s'"
  shows "fd_inv s'"
  using fork_current_balanced [OF assms(1,2,4)] assms(3) by (simp add: fd_inv_def proc_refs_def)

lemma spawn_named_inv:
  assumes "fd_inv s" "slot < MAX_TASKS" "PROCESSES s ! slot = None"
  shows "fd_inv (snd (spawn_named slot name s))"
proof -
  have inv: "shape s" "balanced (\<lambda>_. 0) s" using assms by (simp_all add: fd_inv_def)
  have "count_if ((=) t) default_fds = 0" if "is_ref t" for t
    using that by (auto simp: default_fds_def)
  then have "balanced (\<lambda>_. 0) (snd (spawn_named slot name s))"
    by (intro balanced_process [OF inv(2), of _ slot])
      (use inv(1) assms(2,3) in \<open>auto simp: spawn_named_def Let_def proc_refs_def shape_def\<close>)
  moreover have "shape (snd (spawn_named slot name s))"
    by (rule shape_slot [OF inv(1)])
      (use assms(2) in \<open>auto simp: spawn_named_def Let_def default_fds_def default_fd_flags_def MAX_FDS_def\<close>)
  ultimately show ?thesis by (intro fd_invI)
qed

end
