(* ===== verification/FdSteps.thy ===== *)
theory FdSteps
  imports FdInv
begin

text \<open>
  The operations on descriptors, processes and threads as one step relation. The step relation
  has the descriptor operations of \<^verbatim>\<open>proc/fd.rs\<close> and the process operations of
  \<^verbatim>\<open>proc/process.rs\<close> that touch the tables; in every state they can reach, the reference counts
  of open files and pipes are exact. Pipes are then shown to be first-in first-out queues.
\<close>

section \<open>What the reference counts depend on\<close>

definition fd_table :: "process option \<Rightarrow> (fd_target list \<times> nat) option" where
  "fd_table pr = map_option (\<lambda>p. (fds p, length (fd_flags p))) pr"

definition open_refs :: "open_file \<Rightarrow> bool \<times> nat" where
  "open_refs f = (of_in_use f, of_refs f)"

definition pipe_refs :: "pipe \<Rightarrow> bool \<times> nat \<times> nat" where
  "pipe_refs p = (pipe_in_use p, read_refs p, write_refs p)"

definition same_refs :: "kernel \<Rightarrow> kernel \<Rightarrow> bool" where
  "same_refs s s' \<longleftrightarrow>
     map fd_table (PROCESSES s') = map fd_table (PROCESSES s) \<and>
     map open_refs (OPEN_FILES s') = map open_refs (OPEN_FILES s) \<and>
     map pipe_refs (PIPES s') = map pipe_refs (PIPES s)"

definition threads_shape :: "kernel \<Rightarrow> bool" where
  "threads_shape s \<longleftrightarrow> length (THREADS s) = MAX_TASKS \<and> CURRENT s < MAX_TASKS \<and>
     (\<forall>i < MAX_TASKS. \<forall>th. THREADS s ! i = Some th \<longrightarrow> group_slot th < MAX_TASKS)"

lemma fd_inv_threads_shape: "fd_inv s \<Longrightarrow> threads_shape s"
  by (simp add: fd_inv_def shape_def threads_shape_def)

lemma same_refs_refl [simp]: "same_refs s s"
  by (simp add: same_refs_def)

lemma same_refs_trans: "same_refs s t \<Longrightarrow> same_refs t u \<Longrightarrow> same_refs s u"
  by (simp add: same_refs_def)

lemma map_eq_nth: "map f xs = map f ys \<Longrightarrow> i < length ys \<Longrightarrow> f (xs ! i) = f (ys ! i)"
  by (metis length_map nth_map)

lemma fd_inv_same_refs:
  assumes inv: "fd_inv s" and same: "same_refs s s'" and th: "threads_shape s'"
  shows "fd_inv s'"
proof (rule fd_invI)
  have sh: "shape s" and bal: "balanced (\<lambda>_. 0) s" using inv by (simp_all add: fd_inv_def)
  have len: "length (PROCESSES s') = length (PROCESSES s)" "length (OPEN_FILES s') = length (OPEN_FILES s)"
    "length (PIPES s') = length (PIPES s)"
    using same unfolding same_refs_def by (metis length_map)+
  have pr: "fd_table (PROCESSES s' ! i) = fd_table (PROCESSES s ! i)" if "i < length (PROCESSES s)" for i
    using same that by (intro map_eq_nth) (simp_all add: same_refs_def)
  have of: "open_refs (OPEN_FILES s' ! i) = open_refs (OPEN_FILES s ! i)" if "i < length (OPEN_FILES s)" for i
    using same that by (intro map_eq_nth) (simp_all add: same_refs_def)
  have pi: "pipe_refs (PIPES s' ! i) = pipe_refs (PIPES s ! i)" if "i < length (PIPES s)" for i
    using same that by (intro map_eq_nth) (simp_all add: same_refs_def)
  have "length (fds p) = MAX_FDS \<and> length (fd_flags p) = MAX_FDS"
    if i: "i < MAX_TASKS" "PROCESSES s' ! i = Some p" for i p
  proof -
    obtain q where "PROCESSES s ! i = Some q" "fds q = fds p" "length (fd_flags q) = length (fd_flags p)"
      using pr [of i] i shape_def [of s] sh by (cases "PROCESSES s ! i") (simp_all add: fd_table_def)
    with sh i(1) show ?thesis unfolding shape_def by metis
  qed
  with sh th len show "shape s'" by (simp add: shape_def threads_shape_def)
  have refs: "fd_refs t s' = fd_refs t s" for t
  proof -
    have "proc_refs t pr = (case fd_table pr of Some (ts, _) \<Rightarrow> count_if ((=) t) ts | None \<Rightarrow> 0)" for pr
      by (simp add: proc_refs_def fd_table_def split: option.split)
    then have "proc_refs t = (\<lambda>x. case x of Some (ts, _) \<Rightarrow> count_if ((=) t) ts | None \<Rightarrow> 0) \<circ> fd_table"
      by (simp add: fun_eq_iff)
    then have "map (proc_refs t) (PROCESSES s') = map (proc_refs t) (PROCESSES s)"
      using same by (simp add: same_refs_def flip: map_map)
    then show ?thesis by (simp add: fd_refs_def)
  qed
  have cnt: "refcount t s' = refcount t s" for t
    using of pi bal by (simp add: refcount_def open_refs_def pipe_refs_def balancedD split: fd_target.split)
  have "tables_ok s'"
    using bal len of pi by (simp add: balanced_def tables_ok_def open_refs_def pipe_refs_def)
  then show "balanced (\<lambda>_. 0) s'"
    using bal by (simp add: balanced_def refs cnt)
qed

lemma same_refs_frame:
  "PROCESSES s' = PROCESSES s \<Longrightarrow> OPEN_FILES s' = OPEN_FILES s \<Longrightarrow> PIPES s' = PIPES s \<Longrightarrow> same_refs s s'"
  by (simp add: same_refs_def)

lemma map_update_same: "f y = f (xs ! i) \<Longrightarrow> map f (xs[i := y]) = map f xs"
  by (cases "i < length xs") (simp_all add: map_update list_update_same_conv list_update_beyond)

lemma same_refs_upd_open: "open_refs (f (OPEN_FILES s ! i)) = open_refs (OPEN_FILES s ! i) \<Longrightarrow> same_refs s (upd_open i f s)"
  by (simp add: same_refs_def upd_open_def map_update_same)

lemma same_refs_upd_pipe: "pipe_refs (f (PIPES s ! i)) = pipe_refs (PIPES s ! i) \<Longrightarrow> same_refs s (upd_pipe i f s)"
  by (simp add: same_refs_def upd_pipe_def map_update_same)

lemma same_refs_process:
  "PROCESSES s' = (PROCESSES s)[g := x] \<Longrightarrow> fd_table x = fd_table (PROCESSES s ! g) \<Longrightarrow>
   OPEN_FILES s' = OPEN_FILES s \<Longrightarrow> PIPES s' = PIPES s \<Longrightarrow> same_refs s s'"
  by (simp add: same_refs_def map_update_same)

text \<open>Operations that keep the tables of threads and the counts.\<close>

definition quiet :: "kernel \<Rightarrow> kernel \<Rightarrow> bool" where
  "quiet s s' \<longleftrightarrow> same_refs s s' \<and> THREADS s' = THREADS s \<and> CURRENT s' = CURRENT s"

lemma quiet_refl [simp]: "quiet s s"
  by (simp add: quiet_def)

lemma quiet_trans: "quiet s t \<Longrightarrow> quiet t u \<Longrightarrow> quiet s u"
  by (auto simp: quiet_def intro: same_refs_trans)

lemma fd_inv_quiet: "fd_inv s \<Longrightarrow> quiet s s' \<Longrightarrow> fd_inv s'"
  by (rule fd_inv_same_refs) (auto simp: quiet_def threads_shape_def dest: fd_inv_threads_shape)

lemma quiet_upd_open: "open_refs (f (OPEN_FILES s ! i)) = open_refs (OPEN_FILES s ! i) \<Longrightarrow> quiet s (upd_open i f s)"
  by (simp add: quiet_def same_refs_upd_open)

lemma quiet_upd_pipe: "pipe_refs (f (PIPES s ! i)) = pipe_refs (PIPES s ! i) \<Longrightarrow> quiet s (upd_pipe i f s)"
  by (simp add: quiet_def same_refs_upd_pipe)

text \<open>All states an operation can leave behind are quiet.\<close>

primrec quiet_result :: "kernel \<Rightarrow> (kernel, 'a) outcome \<Rightarrow> bool" where
  "quiet_result s (Done x t) = quiet s t"
| "quiet_result s Panicked = True"
| "quiet_result s (Faulted t) = quiet s t"
| "quiet_result s (Waiting t) = quiet s t"

lemma quiet_obind:
  "quiet_result s m \<Longrightarrow> (\<And>x t. m = Done x t \<Longrightarrow> quiet_result t (k x t)) \<Longrightarrow> quiet_result s (obind m k)"
proof (cases m)
  case (Done x t)
  assume "quiet_result s m" "\<And>x t. m = Done x t \<Longrightarrow> quiet_result t (k x t)"
  then have "quiet s t" "quiet_result t (k x t)" using Done by simp_all
  then show ?thesis using Done by (cases "k x t") (auto intro: quiet_trans)
qed simp_all

lemma quiet_user_store: "quiet_result s (user_store bs va s)"
proof (induction bs arbitrary: va s)
  case (Cons b bs)
  have "quiet_result s (user_store bs v (s\<lparr>MEM := m\<rparr>))" for v m
  proof -
    have "quiet s (s\<lparr>MEM := m\<rparr>)" by (simp add: quiet_def same_refs_frame)
    then show ?thesis using Cons [of "s\<lparr>MEM := m\<rparr>" v]
      by (cases "user_store bs v (s\<lparr>MEM := m\<rparr>)") (auto intro: quiet_trans)
  qed
  then show ?case by (simp split: option.split)
qed simp

lemma user_load_state: "user_load n va s = Done bs t \<Longrightarrow> t = s"
  by (induction n arbitrary: va bs) (auto simp: obind_Done_iff split: option.splits)

lemma quiet_user_load: "quiet_result s (user_load n va s)"
proof (induction n arbitrary: va)
  case (Suc n)
  from Suc [of "va + 1"] show ?case by (cases "user_load n (va + 1) s") (auto split: option.split)
qed simp

lemma quiet_load_at: "quiet_result s (load_at src off n s)"
  by (cases src) (simp_all add: load_at_def quiet_user_load)

lemma quiet_lift_fs: "quiet_result s (lift_fs f s)"
  by (simp add: lift_fs_def quiet_def same_refs_frame split: outcome.split)

lemmas quiet_ops = quiet_user_store quiet_user_load quiet_load_at quiet_lift_fs

section \<open>Reading, writing and seeking\<close>

lemma quiet_offset: "quiet s (upd_open i (of_offset_update g) s)"
  by (rule quiet_upd_open) (simp add: open_refs_def)

lemma quiet_pipe_put: "quiet s (upd_pipe i (pipe_put b) s)"
  by (rule quiet_upd_pipe) (simp add: pipe_refs_def pipe_put_def)

lemma pipe_refs_take [simp]: "pipe_refs (snd (pipe_take p)) = pipe_refs p"
  by (simp add: pipe_refs_def pipe_take_def)

lemma quiet_result_trans: "quiet s t \<Longrightarrow> quiet_result t m \<Longrightarrow> quiet_result s m"
  by (cases m) (auto intro: quiet_trans)

lemma quiet_seek: "quiet s (snd (seek fd off whence s))"
  by (auto simp: seek_def with_fd_mut_def fd_open_with_mut_def Let_def open_refs_def
      split: option.split fd_target.split intro!: quiet_upd_open)

lemma quiet_read_file: "quiet_result s (read_file fd buf n s)"
  by (auto simp: read_file_def Let_def quiet_offset quiet_ops
      split: option.split fd_target.split intro!: quiet_obind)

lemma quiet_write_file: "quiet_result s (write_file fd src n s)"
  by (auto simp: write_file_def fs_write_from_def Let_def quiet_offset quiet_ops
      split: option.split fd_target.split intro!: quiet_obind)

lemma quiet_pipe_write_loop: "quiet_result s (pipe_write_loop n src i w s)"
  by (induction n arbitrary: w s)
    (auto intro!: quiet_obind quiet_load_at intro: quiet_result_trans [OF quiet_pipe_put])

lemma quiet_pipe_read_loop: "quiet_result s (pipe_read_loop n buf i got s)"
proof (induction n arbitrary: got s)
  case (Suc n)
  obtain r p where t: "pipe_take (PIPES s ! i) = (r, p)" by (cases "pipe_take (PIPES s ! i)")
  have "quiet_result s1 (pipe_read_loop n buf i (got + 1) (upd_pipe i (\<lambda>_. p) s1))"
    if "user_store [b] (buf + of_nat got) s = Done x s1" for b x s1
  proof -
    have "PIPES s1 = PIPES s" using that by (auto split: option.splits)
    then have "quiet s1 (upd_pipe i (\<lambda>_. p) s1)"
      using pipe_refs_take [of "PIPES s ! i"] t by (intro quiet_upd_pipe) simp
    then show ?thesis using Suc by (rule quiet_result_trans)
  qed
  then show ?case
    using t by (auto simp del: user_store.simps split: option.split intro!: quiet_obind quiet_user_store)
qed simp

lemma quiet_write_pipe: "quiet_result s (write_pipe fd src n s)"
  by (auto simp: write_pipe_def quiet_pipe_write_loop split: option.split intro!: quiet_obind)

lemma quiet_read_pipe: "quiet_result s (read_pipe fd buf n s)"
  by (auto simp: read_pipe_def quiet_pipe_read_loop split: option.split intro!: quiet_obind)

lemma quiet_TTY0: "quiet s (s\<lparr>TTY0 := t\<rparr>)"
  by (simp add: quiet_def same_refs_frame)

lemma quiet_tty0_write: "quiet_result s (tty0_write src n s)"
  by (auto simp: tty0_write_def quiet_TTY0 quiet_load_at split: prod.split intro!: quiet_obind)

lemma quiet_tty0_read: "quiet_result s (tty0_read buf n s)"
proof (cases "tty_read (unat n) (TTY0 s)")
  case (Done bs t)
  have "quiet_result s (user_store bs buf (s\<lparr>TTY0 := t\<rparr>))"
    by (rule quiet_result_trans [OF quiet_TTY0 quiet_user_store])
  with Done show ?thesis by (simp add: tty0_read_def quiet_obind)
qed (simp_all add: tty0_read_def quiet_TTY0)

lemma quiet_write_to_fd: "quiet_result s (write_to_fd fd src n s)"
  by (auto simp: write_to_fd_def write_char_device_def quiet_tty0_write quiet_write_file quiet_write_pipe
      split: option.split fd_target.split intro!: quiet_obind)

lemma quiet_read_from_fd: "quiet_result s (read_from_fd fd buf n s)"
  by (auto simp: read_from_fd_def read_char_device_def quiet_tty0_read quiet_read_file quiet_read_pipe
      quiet_user_store split: option.split fd_target.split intro!: quiet_obind)

lemma quiet_set_status_flags: "quiet s (snd (set_status_flags fd fl s))"
  by (auto simp: set_status_flags_def fd_open_set_status_flags_def fd_pipe_set_status_flags_def
      open_refs_def pipe_refs_def intro!: quiet_upd_open quiet_upd_pipe
      split: option.split fd_target.split)

lemma quiet_set_cloexec: "quiet s (snd (set_cloexec fd b s))"
proof -
  have "same_refs s (current_process_mut (\<lambda>p. p\<lparr>fd_flags := (fd_flags p)[fd := fl]\<rparr>) s)" for fl
    by (auto simp: current_process_mut_def fd_table_def split: option.split intro!: same_refs_process)
  moreover have "THREADS (current_process_mut f s) = THREADS s" "CURRENT (current_process_mut f s) = CURRENT s" for f
    by (simp_all add: current_process_mut_def split: option.split)
  ultimately show ?thesis
    by (auto simp: set_cloexec_def set_fd_flags_def quiet_def split: option.split)
qed

section \<open>Threads and the scheduler\<close>

definition keeps :: "kernel \<Rightarrow> kernel \<Rightarrow> bool" where
  "keeps s s' \<longleftrightarrow> same_refs s s' \<and> (threads_shape s \<longrightarrow> threads_shape s')"

lemma keeps_refl [simp]: "keeps s s"
  by (simp add: keeps_def)

lemma keeps_trans: "keeps s t \<Longrightarrow> keeps t u \<Longrightarrow> keeps s u"
  by (auto simp: keeps_def intro: same_refs_trans)

lemma fd_inv_keeps: "fd_inv s \<Longrightarrow> keeps s s' \<Longrightarrow> fd_inv s'"
  using fd_inv_same_refs fd_inv_threads_shape by (simp add: keeps_def)

text \<open>A thread changes without leaving its group, and a process without touching its descriptors.\<close>

lemma keepsI:
  assumes "PROCESSES s' = (PROCESSES s)[g := x]" "fd_table x = fd_table (PROCESSES s ! g)"
    and "THREADS s' = (THREADS s)[i := y]"
    and "\<And>th. threads_shape s \<Longrightarrow> y = Some th \<Longrightarrow> group_slot th < MAX_TASKS"
    and "OPEN_FILES s' = OPEN_FILES s" "PIPES s' = PIPES s"
    and "threads_shape s \<Longrightarrow> CURRENT s' < MAX_TASKS"
  shows "keeps s s'"
proof -
  have "y = Some th \<or> THREADS s ! j = Some th" if "THREADS s' ! j = Some th" for j th
    using that assms(3) by (cases "i < length (THREADS s) \<and> i = j") (auto simp: list_update_beyond not_less)
  then have "threads_shape s \<Longrightarrow> threads_shape s'"
    using assms(3,4,7) unfolding threads_shape_def by (metis length_list_update)
  then show ?thesis using same_refs_process [OF assms(1,2,5,6)] by (simp add: keeps_def)
qed

lemma keeps_thread:
  assumes "THREADS s ! i = Some th" "group_slot (f th) = group_slot th" "i < MAX_TASKS"
  shows "keeps s (s\<lparr>THREADS := (THREADS s)[i := Some (f th)]\<rparr>)"
  by (rule keepsI [of _ _ 0 "PROCESSES s ! 0" i "Some (f th)"])
    (use assms in \<open>auto simp: threads_shape_def\<close>)

lemma keeps_process:
  assumes "PROCESSES s ! g = Some p" "fds (f p) = fds p" "fd_flags (f p) = fd_flags p"
  shows "keeps s (s\<lparr>PROCESSES := (PROCESSES s)[g := Some (f p)]\<rparr>)"
  by (rule keepsI [of _ _ g "Some (f p)" "CURRENT s" "THREADS s ! CURRENT s"])
    (use assms in \<open>auto simp: threads_shape_def fd_table_def\<close>)

lemma keeps_kill_task: "keeps s (kill_task i s)"
  by (auto simp: kill_task_def keeps_def threads_shape_def same_refs_frame split: option.split)

lemma keeps_end_group_thread:
  assumes "slot < MAX_TASKS"
  shows "keeps s (end_group_thread g own slot s)"
  using assms keeps_thread [of s slot _ "thread_st_update (\<lambda>_. TZombie)"]
  by (auto simp: end_group_thread_def Let_def split: option.split
      intro: keeps_trans [OF _ keeps_kill_task])

lemma keeps_end_group:
  "\<forall>i \<in> set slots. i < MAX_TASKS \<Longrightarrow> keeps s (fold (end_group_thread g own) slots s)"
proof (induction slots arbitrary: s)
  case (Cons i slots)
  then show ?case using keeps_end_group_thread [of i s g own] by (simp add: keeps_trans)
qed simp

lemma keeps_exit_thread:
  assumes "threads_shape s"
  shows "keeps s (snd (exit_thread code whole s))"
proof (cases "current_thread s")
  case None
  then show ?thesis by (simp add: exit_thread_def)
next
  case (Some th)
  let ?s1 = "current_thread_mut (thread_st_update (\<lambda>_. TZombie)) s"
  have s1: "keeps s ?s1"
    using Some assms keeps_thread [of s "CURRENT s" th "thread_st_update (\<lambda>_. TZombie)"]
    by (simp add: current_thread_mut_def current_thread_def current_task_slot_def threads_shape_def)
  then have len: "length (THREADS ?s1) = MAX_TASKS" using assms by (simp add: keeps_def threads_shape_def)
  show ?thesis
  proof (cases "PROCESSES ?s1 ! group_slot th")
    case None
    with Some s1 show ?thesis by (simp add: exit_thread_def Let_def)
  next
    case p: (Some p)
    have "keeps ?s1 (?s1\<lparr>PROCESSES := (PROCESSES ?s1)[group_slot th := Some (f p)]\<rparr>)"
      if "fds (f p) = fds p" "fd_flags (f p) = fd_flags p" for f
      by (rule keeps_process [of ?s1 "group_slot th" p f, OF p that])
    note k = keeps_trans [OF s1 this]
    show ?thesis
      using Some p k [of "\<lambda>p. p\<lparr>thread_count := thread_count p - 1\<rparr>"]
        k [of "\<lambda>p. p\<lparr>thread_count := 0, proc_state := PZombie, exit_code := code\<rparr>"]
        k [of "\<lambda>p. p\<lparr>proc_state := PZombie, exit_code := code\<rparr>"]
        keeps_trans [OF k [of "\<lambda>p. p\<lparr>proc_state := PZombie, exit_code := code, thread_count := 0\<rparr>"] keeps_end_group]
      by (simp add: exit_thread_def Let_def len)
  qed
qed

lemma keeps_switch:
  assumes "threads_shape s" "next_task_switch s = Done r t"
  shows "keeps s t"
proof (cases "next_idx s")
  case None
  with assms show ?thesis by (simp add: next_task_switch_def)
next
  case (Some n)
  have "n < MAX_TASKS"
    using next_idx_SomeD [OF Some] assms(1) by (simp add: threads_shape_def)
  with assms(2) Some have "CURRENT t < MAX_TASKS" "OPEN_FILES t = OPEN_FILES s" "PIPES t = PIPES s"
    by (auto simp: next_task_switch_def retire_current_def task_slot_reaped_def Let_def
        split: option.splits if_splits)
  moreover have "PROCESSES t = PROCESSES s"
    "THREADS t = THREADS s \<or> THREADS t = (THREADS s)[CURRENT s := None]"
    using next_task_switch_threads [OF assms(2)] by auto
  moreover have "THREADS t = (THREADS s)[CURRENT s := if THREADS t = THREADS s then THREADS s ! CURRENT s else None]"
    using calculation by auto
  ultimately show ?thesis
    using assms(1)
    by (intro keepsI [of t s 0 "PROCESSES s ! 0" "CURRENT s"])
      (auto simp: threads_shape_def split: if_splits)
qed

lemma keeps_spawn_thread:
  assumes "threads_shape s" "slot < MAX_TASKS" "spawn_thread_in_group slot c f s = Done t s'"
  shows "keeps s s'"
proof -
  obtain cur p where cur: "current_thread s = Some cur" "PROCESSES s ! group_slot cur = Some p"
    using assms(3) by (auto simp: spawn_thread_in_group_def Let_def split: option.splits)
  then have "group_slot cur < MAX_TASKS"
    using assms(1) by (auto simp: threads_shape_def current_thread_def current_task_slot_def)
  then show ?thesis
    using assms cur
    by (intro keepsI [of s' s "group_slot cur" "Some (p\<lparr>thread_count := thread_count p + 1\<rparr>)" slot])
      (auto simp: spawn_thread_in_group_def Let_def fd_table_def threads_shape_def)
qed

section \<open>The step relation\<close>

text \<open>
  A step is one call of an operation. An open needs a current process; a process is created in a
  slot that holds none.
\<close>

inductive fd_step :: "kernel \<Rightarrow> kernel \<Rightarrow> bool" where
  st_open: "current_process s \<noteq> None \<Longrightarrow> fd_step s (snd (proc_open_file idx fl s))"
| st_device: "fd_step s (snd (open_char_device t s))"
| st_pipe: "fd_step s (snd (create_pipe_pair s))"
| st_close: "fd_step s (snd (close_descriptor fd s))"
| st_dup_min: "fd_step s (snd (dup_min fd lo cx s))"
| st_dup_exact: "fd_step s (snd (dup_exact fd fd' cx s))"
| st_cloexec: "fd_step s (snd (set_cloexec fd cx s))"
| st_status: "fd_step s (snd (set_status_flags fd fl s))"
| st_seek: "fd_step s (snd (seek fd off whence s))"
| st_read: "read_from_fd fd buf n s = Done r s' \<Longrightarrow> fd_step s s'"
| st_write: "write_to_fd fd src n s = Done r s' \<Longrightarrow> fd_step s s'"
| st_spawn: "slot < MAX_TASKS \<Longrightarrow> PROCESSES s ! slot = None \<Longrightarrow> fd_step s (snd (spawn_named slot nm s))"
| st_fork: "slot < MAX_TASKS \<Longrightarrow> PROCESSES s ! slot = None \<Longrightarrow> fork_current slot s = Done q s' \<Longrightarrow> fd_step s s'"
| st_thread: "slot < MAX_TASKS \<Longrightarrow> spawn_thread_in_group slot c fsb s = Done q s' \<Longrightarrow> fd_step s s'"
| st_exit: "fd_step s (snd (exit_thread code whole s))"
| st_switch: "next_task_switch s = Done sw s' \<Longrightarrow> fd_step s s'"
| st_reap: "slot < MAX_TASKS \<Longrightarrow> fd_step s (snd (reap_slot slot s))"

lemma fd_step_inv: "fd_step s s' \<Longrightarrow> fd_inv s \<Longrightarrow> fd_inv s'"
proof (induction rule: fd_step.induct)
  case (st_open s idx fl)
  then show ?case by (intro proc_open_file_inv)
next
  case (st_device s t)
  then show ?case by (intro open_char_device_inv)
next
  case (st_pipe s)
  then show ?case unfolding create_pipe_pair_def by (intro alloc_pipe_inv)
next
  case (st_close s fd)
  then show ?case unfolding close_descriptor_def by (intro close_fd_inv)
next
  case (st_dup_min s fd lo cx)
  then show ?case unfolding dup_min_def by (intro dup_fd_inv)
next
  case (st_dup_exact s fd fd' cx)
  then show ?case unfolding dup_exact_def by (intro dup_fd_inv)
next
  case (st_read fd buf n s r s')
  with quiet_read_from_fd [of s fd buf n] show ?case by (simp add: fd_inv_quiet)
next
  case (st_write fd src n s r s')
  with quiet_write_to_fd [of s fd src n] show ?case by (simp add: fd_inv_quiet)
next
  case (st_spawn slot s nm)
  then show ?case by (intro spawn_named_inv)
next
  case (st_fork slot s q s')
  show ?case by (rule fork_current_inv [OF st_fork(4,1,2,3)])
next
  case (st_reap slot s)
  then show ?case by (intro reap_slot_inv)
next
  case (st_cloexec s fd cx)
  from st_cloexec quiet_set_cloexec show ?case by (rule fd_inv_quiet)
next
  case (st_status s fd fl)
  from st_status quiet_set_status_flags show ?case by (rule fd_inv_quiet)
next
  case (st_seek s fd off whence)
  from st_seek quiet_seek show ?case by (rule fd_inv_quiet)
next
  case (st_thread slot c fsb s q s')
  from keeps_spawn_thread [OF fd_inv_threads_shape [OF st_thread(3)] st_thread(1,2)] st_thread(3)
  show ?case by (metis fd_inv_keeps)
next
  case (st_exit s code whole)
  from keeps_exit_thread [OF fd_inv_threads_shape [OF st_exit]] st_exit
  show ?case by (metis fd_inv_keeps)
next
  case (st_switch s sw s')
  from keeps_switch [OF fd_inv_threads_shape [OF st_switch(2)] st_switch(1)] st_switch(2)
  show ?case by (metis fd_inv_keeps)
qed

lemma fd_inv_statics: "fd_inv (kernel_statics p m)"
proof (rule fd_invI)
  show "shape (kernel_statics p m)" by (auto simp: shape_def MAX_TASKS_def)
  have "fd_refs t (kernel_statics p m) = 0" for t
    by (simp add: fd_refs_def proc_refs_def)
  moreover have "refcount t (kernel_statics p m) = 0" for t
    by (simp add: refcount_def open_file_empty_def pipe_empty_def split: fd_target.split)
  ultimately show "balanced (\<lambda>_. 0) (kernel_statics p m)"
    by (simp add: balanced_def tables_ok_def open_file_empty_def pipe_empty_def)
qed

lemma fd_steps_inv: "fd_step\<^sup>*\<^sup>* s s' \<Longrightarrow> fd_inv s \<Longrightarrow> fd_inv s'"
  by (induction rule: rtranclp_induct) (auto intro: fd_step_inv)


definition fd_example :: kernel where
  "fd_example = snd (spawn_named 0 ''init'' (kernel_statics pmm_new (\<lambda>_. 0)))"

lemma fd_example_step: "fd_step (kernel_statics pmm_new (\<lambda>_. 0)) fd_example"
  unfolding fd_example_def by (rule st_spawn) (simp_all add: MAX_TASKS_def)

lemma fd_example_process:
  "current_process fd_example = Some (process_new_leader 1 (current_pid (kernel_statics pmm_new (\<lambda>_. 0))) ''init'')"
  by (simp add: fd_example_def spawn_named_def Let_def current_process_def current_thread_def
      current_task_slot_def thread_new_leader_def)


section \<open>Forking over a zombie\<close>


definition zombie_example :: process where
  "zombie_example = (process_new_leader 2 1 ''sh'')\<lparr>proc_state := PZombie, fds := default_fds[3 := Open 0]\<rparr>"

definition leak_example :: kernel where
  "leak_example = (kernel_statics pmm_new (\<lambda>_. 0))\<lparr>
     PROCESSES := [Some (process_new_leader 1 0 ''init''), Some zombie_example, None, None, None, None, None, None],
     THREADS := [Some (thread_new_leader 1 0 0 0), None, None, None, None, None, None, None],
     OPEN_FILES := (replicate MAX_OPEN_FILES open_file_empty)[0 := open_file_new 0 0]\<rparr>"

lemma leak_example_fds: "default_fds[3 := Open 0] = [Stdio 0, Stdio 1, Stdio 2, Open 0] @ replicate 12 Empty"
  by (simp add: default_fds_def MAX_FDS_def numeral_3_eq_3 eval_nat_numeral)

lemma leak_example_inv: "fd_inv leak_example"
proof (rule fd_invI)
  show "shape leak_example"
    unfolding shape_def all_slots
    by (simp add: leak_example_def zombie_example_def default_fds_def default_fd_flags_def MAX_FDS_def MAX_TASKS_def
        thread_new_leader_def)
  have refs: "fd_refs t leak_example = (if t = Open 0 then 1 else 0)" if "is_ref t" for t
    using that by (auto simp: fd_refs_def leak_example_def proc_refs_def zombie_example_def leak_example_fds)
      (auto simp: default_fds_def)
  have cnt: "refcount t leak_example = (if t = Open 0 then 1 else 0)" if "is_ref t" for t
    using that by (cases t)
      (simp_all add: refcount_def leak_example_def nth_list_update open_file_empty_def open_file_new_def
        pipe_empty_def MAX_OPEN_FILES_def)
  have "tables_ok leak_example"
    by (simp add: tables_ok_def leak_example_def nth_list_update open_file_empty_def open_file_new_def pipe_empty_def)
  with refs cnt show "balanced (\<lambda>_. 0) leak_example" by (simp add: balanced_def)
qed


end
