(* ===== verification/Pipe.thy ===== *)
theory Pipe
  imports FdSteps
begin

text \<open>
  Pipes as bounded queues (\<^verbatim>\<open>proc/fd_pipe.rs\<close>): the copying loops of \<^verbatim>\<open>write_pipe\<close> and
  \<^verbatim>\<open>read_pipe\<close> are pushes and pops of the queue, and what one process writes another reads.
\<close>

definition pipe_inv :: "pipe \<Rightarrow> bool" where
  "pipe_inv p \<longleftrightarrow> length (pipe_buf p) = PIPE_CAPACITY \<and> read_pos p < PIPE_CAPACITY \<and>
     pipe_len p \<le> PIPE_CAPACITY \<and> write_pos p = (read_pos p + pipe_len p) mod PIPE_CAPACITY"

definition pipe_contents :: "pipe \<Rightarrow> u8 list" where
  "pipe_contents p = ring_list (pipe_buf p) (read_pos p) (pipe_len p)"

lemma length_pipe_contents [simp]: "length (pipe_contents p) = pipe_len p"
  by (simp add: pipe_contents_def)

lemma pipe_new_inv: "pipe_inv pipe_new" "pipe_contents pipe_new = []"
  by (simp_all add: pipe_inv_def pipe_contents_def pipe_new_def PIPE_CAPACITY_def)

interpretation pipeq: bounded_fifo pipe_put pipe_take pipe_contents pipe_inv PIPE_CAPACITY
proof (unfold_locales, goal_cases)
  case (1 p)
  then show ?case by (simp add: pipe_inv_def)
next
  case (2 p b)
  then show ?case
    using ring_list_push [of "pipe_len p" "pipe_buf p" "read_pos p" b]
    by (simp add: pipe_inv_def pipe_put_def pipe_contents_def)
next
  case (3 p b)
  then show ?case by (auto simp: pipe_inv_def pipe_put_def mod_Suc_eq)
next
  case (4 p)
  then have "pipe_len p = 0" by (metis length_pipe_contents list.size(3))
  then show ?case by (simp add: pipe_take_def)
next
  case (5 p x xs)
  then obtain n where n: "pipe_len p = Suc n" by (metis length_pipe_contents length_Suc_conv)
  with 5 ring_list_pop [of "read_pos p" "pipe_buf p" n] show ?case
    by (simp add: pipe_inv_def pipe_take_def pipe_contents_def)
next
  case (6 p)
  then show ?case
    by (cases "pipe_len p") (auto simp: pipe_inv_def pipe_take_def mod_simps)
qed

section \<open>The copying loops\<close>

text \<open>A state with the memory of another and one pipe exchanged.\<close>

lemma user_pa_upd_pipe [simp]: "user_pa wr va (upd_pipe i f s) = user_pa wr va s"
  by (simp add: user_pa_def upd_pipe_def split: option.split)

lemma user_load_upd_pipe:
  "\<forall>j < n. user_pa False (va + of_nat j) s \<noteq> None \<Longrightarrow>
   user_load n va (upd_pipe i f s) = (case user_load n va s of Done bs _ \<Rightarrow> Done bs (upd_pipe i f s) | r \<Rightarrow> r)"
  by (simp add: user_load_spec) (simp add: upd_pipe_def)

lemma PIPES_upd_pipe: "i < length (PIPES s) \<Longrightarrow> PIPES (upd_pipe i f s) ! i = f (PIPES s ! i)"
  by (simp add: upd_pipe_def)

lemma upd_pipe_upd_pipe: "i < length (PIPES s) \<Longrightarrow> upd_pipe i f (upd_pipe i g s) = upd_pipe i (f \<circ> g) s"
  by (simp add: upd_pipe_def)

text \<open>The writer's loop pushes as many bytes as fit.\<close>

lemma pipe_write_loop_spec:
  assumes "i < length (PIPES s)" "pipe_inv (PIPES s ! i)"
    and "\<And>j. j < n \<Longrightarrow> load_at src (w + j) 1 s = Done [bs ! j] s"
    and "\<And>j f. j < n \<Longrightarrow> load_at src (w + j) 1 (upd_pipe i f s) = Done [bs ! j] (upd_pipe i f s)"
    and "length bs = n"
  shows "pipe_write_loop n src i w s =
    Done (w + min n (PIPE_CAPACITY - pipe_len (PIPES s ! i)))
      (upd_pipe i (fold pipe_put (take (PIPE_CAPACITY - pipe_len (PIPES s ! i)) bs)) s)"
  using assms
proof (induction n arbitrary: w s bs)
  case 0
  then show ?case by (simp add: upd_pipe_def)
next
  case (Suc n)
  let ?p = "PIPES s ! i"
  from Suc.prems(5) obtain b bs' where bs: "bs = b # bs'" "length bs' = n" by (cases bs) simp_all
  show ?case
  proof (cases "pipe_len ?p < PIPE_CAPACITY")
    case False
    then show ?thesis by (simp add: upd_pipe_def)
  next
    case True
    let ?s = "upd_pipe i (pipe_put b) s"
    have IH: "pipe_write_loop n src i (w + 1) ?s =
      Done (w + 1 + min n (PIPE_CAPACITY - pipe_len (PIPES ?s ! i)))
        (upd_pipe i (fold pipe_put (take (PIPE_CAPACITY - pipe_len (PIPES ?s ! i)) bs')) ?s)"
    proof (rule Suc.IH)
      show "i < length (PIPES ?s)" using Suc.prems(1) by (simp add: upd_pipe_def)
      show "pipe_inv (PIPES ?s ! i)"
        using pipeq.push_finv [OF Suc.prems(2)] Suc.prems(1) by (simp add: PIPES_upd_pipe)
      fix j assume "j < n"
      then have "Suc j < Suc n" by simp
      from Suc.prems(4) [OF this] show "load_at src (w + 1 + j) 1 ?s = Done [bs' ! j] ?s"
        by (simp add: bs)
      fix f from Suc.prems(4) [OF \<open>Suc j < Suc n\<close>]
      show "load_at src (w + 1 + j) 1 (upd_pipe i f ?s) = Done [bs' ! j] (upd_pipe i f ?s)"
        using Suc.prems(1) by (simp add: bs upd_pipe_upd_pipe comp_def)
    qed (rule bs(2))
    have len: "pipe_len (PIPES ?s ! i) = Suc (pipe_len ?p)"
      using True Suc.prems(1) by (simp add: PIPES_upd_pipe pipe_put_def)
    obtain m where m: "PIPE_CAPACITY - pipe_len ?p = Suc m" "PIPE_CAPACITY - Suc (pipe_len ?p) = m"
      using True by (cases "PIPE_CAPACITY - pipe_len ?p") simp_all
    have "load_at src w 1 s = Done [b] s" using Suc.prems(3) [of 0] bs by simp
    then have "pipe_write_loop (Suc n) src i w s = pipe_write_loop n src i (w + 1) ?s"
      using True by simp
    also have "\<dots> = Done (w + 1 + min n m) (upd_pipe i (fold pipe_put (take m bs')) ?s)"
      by (rule IH [unfolded len m(2)])
    also have "upd_pipe i (fold pipe_put (take m bs')) ?s = upd_pipe i (fold pipe_put (take (Suc m) bs)) s"
      by (simp add: upd_pipe_def bs(1) Suc.prems(1))
    finally show ?thesis unfolding m(1) by simp
  qed
qed

text \<open>The reader's loop pops bytes and stores them one by one.\<close>

lemma user_store_upd_pipe:
  "user_store bs va s = Done () (s\<lparr>MEM := m\<rparr>) \<Longrightarrow>
   user_store bs va (upd_pipe i f s) = Done () (upd_pipe i f s\<lparr>MEM := m\<rparr>)"
proof (induction bs arbitrary: va s)
  case Nil
  then have "MEM s = MEM (s\<lparr>MEM := m\<rparr>)" by (intro arg_cong [of s _ MEM]) simp
  then show ?case by (auto simp: upd_pipe_def)
next
  case (Cons b bs)
  then obtain pa where pa: "user_pa True va s = Some pa"
    "user_store bs (va + 1) (s\<lparr>MEM := (MEM s)(pa := b)\<rparr>) = Done () (s\<lparr>MEM := m\<rparr>)"
    by (auto split: option.splits)
  have "upd_pipe i f (s\<lparr>MEM := x\<rparr>) = upd_pipe i f s\<lparr>MEM := x\<rparr>" "MEM (upd_pipe i f s) = MEM s" for x
    by (simp_all add: upd_pipe_def)
  with Cons.IH [of "va + 1" "s\<lparr>MEM := (MEM s)(pa := b)\<rparr>"] pa show ?case by simp
qed

lemma pipe_read_loop_spec:
  assumes "i < length (PIPES s)" "pipe_inv (PIPES s ! i)"
    and "user_store (take n (pipe_contents (PIPES s ! i))) (buf + of_nat got) s = Done () (s\<lparr>MEM := m\<rparr>)"
  shows "\<exists>p. pipe_read_loop n buf i got s =
      Done (got + min n (pipe_len (PIPES s ! i))) (upd_pipe i (\<lambda>_. p) (s\<lparr>MEM := m\<rparr>)) \<and>
    pipe_inv p \<and> pipe_contents p = drop n (pipe_contents (PIPES s ! i)) \<and> pipe_refs p = pipe_refs (PIPES s ! i)"
  using assms
proof (induction n arbitrary: got s)
  case 0
  then have "s\<lparr>MEM := m\<rparr> = s" by simp
  with 0 show ?case by (intro exI [of _ "PIPES s ! i"]) (simp add: upd_pipe_def)
next
  case (Suc n)
  let ?p = "PIPES s ! i"
  show ?case
  proof (cases "pipe_contents ?p")
    case Nil
    with pipeq.pop_empty [OF Suc.prems(2)] Suc.prems(2,3) show ?thesis
      by (intro exI [of _ ?p]) (simp add: upd_pipe_def flip: length_pipe_contents)
  next
    case (Cons x xs)
    obtain r p1 where t: "pipe_take ?p = (r, p1)" by (cases "pipe_take ?p")
    with pipeq.pop_Cons [OF Suc.prems(2) Cons] have p1: "r = Some x" "pipe_contents p1 = xs" by simp_all
    from Suc.prems(3) Cons obtain pa where pa: "user_pa True (buf + of_nat got) s = Some pa"
      "user_store (take n xs) (buf + of_nat got + 1) (s\<lparr>MEM := (MEM s)(pa := x)\<rparr>) = Done () (s\<lparr>MEM := m\<rparr>)"
      by (auto split: option.splits)
    let ?s1 = "s\<lparr>MEM := (MEM s)(pa := x)\<rparr>"
    let ?s2 = "upd_pipe i (\<lambda>_. p1) ?s1"
    have s2: "PIPES ?s2 ! i = p1" "i < length (PIPES ?s2)"
      using Suc.prems(1) by (simp_all add: upd_pipe_def)
    have "user_store (take n (pipe_contents (PIPES ?s2 ! i))) (buf + of_nat (got + 1)) ?s2 = Done () (?s2\<lparr>MEM := m\<rparr>)"
      using user_store_upd_pipe [of "take n xs" "buf + of_nat got + 1" ?s1 m i "\<lambda>_. p1"] pa(2)
      by (simp add: s2 p1 algebra_simps)
    from Suc.IH [OF s2(2) _ this] obtain p where p: "pipe_read_loop n buf i (got + 1) ?s2 =
        Done (got + 1 + min n (pipe_len p1)) (upd_pipe i (\<lambda>_. p) (?s2\<lparr>MEM := m\<rparr>))"
      "pipe_inv p" "pipe_contents p = drop n xs" "pipe_refs p = pipe_refs p1"
      using pipeq.pop_finv [OF Suc.prems(2)] t s2(1) p1(2) by auto
    have "pipe_refs p1 = pipe_refs ?p" using pipe_refs_take [of ?p] t by simp
    moreover have "pipe_len ?p = Suc (pipe_len p1)"
      using Cons p1(2) by (metis length_Cons length_pipe_contents)
    moreover have "upd_pipe i (\<lambda>_. p) (?s2\<lparr>MEM := m\<rparr>) = upd_pipe i (\<lambda>_. p) (s\<lparr>MEM := m\<rparr>)"
      by (simp add: upd_pipe_def)
    ultimately show ?thesis
      using t p p1 pa(1) Cons by (intro exI [of _ p]) simp
  qed
qed

section \<open>From one process to another\<close>

lemma fd_pipe_end_frame:
  assumes "quiet s s'" "PROCESSES s' = PROCESSES s" "length (PIPES s) = MAX_PIPES"
  shows "fd_pipe_end fd s' = fd_pipe_end fd s"
proof -
  have "current_process s' = current_process s"
    using assms by (simp add: current_process_def current_thread_def current_task_slot_def quiet_def
        split: option.split)
  then have "get_fd_target fd s' = get_fd_target fd s" by (simp add: get_fd_target_def)
  moreover have "pipe_valid i s' = pipe_valid i s" for i
    using map_eq_nth [of pipe_refs "PIPES s'" "PIPES s" i] assms
    by (auto simp: pipe_valid_def quiet_def same_refs_def pipe_refs_def)
  ultimately show ?thesis
    by (simp add: fd_pipe_end_def split: option.split fd_target.split)
qed

lemma fold_pipe_put_refs: "pipe_refs (fold pipe_put bs p) = pipe_refs p"
  by (induction bs arbitrary: p) (simp_all add: pipe_refs_def pipe_put_def)

lemma write_pipe_user:
  assumes "fd_pipe_end wfd s = Some (i, False)" "0 < read_refs (PIPES s ! i)"
    and "i < length (PIPES s)" "pipe_inv (PIPES s ! i)" "user_load (unat n) src s = Done bs s"
    and "\<forall>j < unat n. user_pa False (src + of_nat j) s \<noteq> None"
  shows "write_pipe wfd (UserSrc src) n s =
    Done (Some (min (unat n) (PIPE_CAPACITY - pipe_len (PIPES s ! i))))
      (upd_pipe i (fold pipe_put (take (PIPE_CAPACITY - pipe_len (PIPES s ! i)) bs)) s)"
proof -
  have bs: "bs = map (\<lambda>j. MEM s (the (user_pa False (src + of_nat j) s))) [0..<unat n]"
    using user_load_spec [OF assms(6)] assms(5) by simp
  have "load_at (UserSrc src) (0 + j) 1 s = Done [bs ! j] s" if "j < unat n" for j
    using that assms(6) by (auto simp: load_at_def bs split: option.split)
  moreover have "load_at (UserSrc src) (0 + j) 1 (upd_pipe i f s) = Done [bs ! j] (upd_pipe i f s)"
    if "j < unat n" for j f
    using that assms(6) by (auto simp: load_at_def bs split: option.split) (simp add: upd_pipe_def)
  ultimately have "pipe_write_loop (unat n) (UserSrc src) i 0 s =
    Done (0 + min (unat n) (PIPE_CAPACITY - pipe_len (PIPES s ! i)))
      (upd_pipe i (fold pipe_put (take (PIPE_CAPACITY - pipe_len (PIPES s ! i)) bs)) s)"
    by (intro pipe_write_loop_spec [OF assms(3,4)]) (simp_all add: bs)
  with assms(1,2) show ?thesis by (simp add: write_pipe_def)
qed

text \<open>C12: what is written into one end of an empty pipe is read from the other. A write of up
  to \<open>PIPE_CAPACITY\<close> bytes takes them all; a read of the same length then stores exactly these
  bytes at the reader's address, leaves the pipe empty and keeps the reference counts.\<close>

theorem pipe_round_trip:
  assumes ends: "fd_pipe_end wfd s = Some (i, False)" "fd_pipe_end rfd s = Some (i, True)"
    and pipe: "length (PIPES s) = MAX_PIPES" "pipe_inv (PIPES s ! i)" "pipe_contents (PIPES s ! i) = []"
      "0 < read_refs (PIPES s ! i)"
    and n: "0 < n" "unat n \<le> PIPE_CAPACITY"
    and src: "\<forall>j < unat n. user_pa False (src + of_nat j) s \<noteq> None"
    and dst: "aspace_inv s (CR3 s)" "user_window dst (unat n) s"
  shows "\<exists>bs s1 s2. user_load (unat n) src s = Done bs s \<and>
    write_pipe wfd (UserSrc src) n s = Done (Some (unat n)) s1 \<and>
    read_pipe rfd dst n s1 = Done (Some (unat n)) s2 \<and>
    user_load (unat n) dst s2 = Done bs s2 \<and>
    pipe_contents (PIPES s2 ! i) = [] \<and> quiet s s2"
proof -
  let ?bs = "map (\<lambda>j. MEM s (the (user_pa False (src + of_nat j) s))) [0..<unat n]"
  let ?p = "fold pipe_put ?bs (PIPES s ! i)" and ?s1 = "upd_pipe i (fold pipe_put ?bs) s"
  have i: "i < length (PIPES s)"
    using ends(1) pipe(1) by (auto simp: fd_pipe_end_def pipe_valid_def split: option.splits fd_target.splits if_splits)
  have load: "user_load (unat n) src s = Done ?bs s" by (rule user_load_spec [OF src])
  have "pipe_len (PIPES s ! i) = 0" using pipe(3) by (simp flip: length_pipe_contents)
  then have written: "write_pipe wfd (UserSrc src) n s = Done (Some (unat n)) ?s1"
    using write_pipe_user [OF ends(1) pipe(4) i pipe(2) load src] n(2) by simp
  have p: "pipe_inv ?p" "pipe_contents ?p = ?bs" "pipe_refs ?p = pipe_refs (PIPES s ! i)"
    using pipeq.fold_push [OF pipe(2), of ?bs] pipe(3) n(2) by (simp_all add: fold_pipe_put_refs)
  have s1: "PIPES ?s1 ! i = ?p" "i < length (PIPES ?s1)" "quiet s ?s1"
    using i p(3) by (simp_all add: upd_pipe_def quiet_upd_pipe)
      (simp add: quiet_def same_refs_def map_update_same)
  have end1: "fd_pipe_end rfd ?s1 = Some (i, True)"
    using fd_pipe_end_frame [OF s1(3) _ pipe(1)] ends(2) by simp
  obtain m where m: "user_store ?bs dst s = Done () (s\<lparr>MEM := m\<rparr>)"
      "\<And>wr v. user_pa wr v (s\<lparr>MEM := m\<rparr>) = user_pa wr v s"
      "user_load (length ?bs) dst (s\<lparr>MEM := m\<rparr>) = Done ?bs (s\<lparr>MEM := m\<rparr>)"
    by (rule user_store_load [of s dst ?bs]) (use dst in simp_all)
  have st: "user_store (take (unat n) (pipe_contents (PIPES ?s1 ! i))) (dst + of_nat 0) ?s1 =
      Done () (?s1\<lparr>MEM := m\<rparr>)"
    using user_store_upd_pipe [OF m(1)] p(2) s1(1) by simp
  obtain q where q: "pipe_read_loop (unat n) dst i 0 ?s1 =
      Done (0 + min (unat n) (pipe_len (PIPES ?s1 ! i))) (upd_pipe i (\<lambda>_. q) (?s1\<lparr>MEM := m\<rparr>))"
    "pipe_contents q = []" "pipe_refs q = pipe_refs (PIPES s ! i)"
    using pipe_read_loop_spec [OF s1(2) _ st] p s1(1) by auto
  let ?s2 = "upd_pipe i (\<lambda>_. q) (?s1\<lparr>MEM := m\<rparr>)"
  have s2: "?s2 = upd_pipe i (\<lambda>_. q) (s\<lparr>MEM := m\<rparr>)" using i by (simp add: upd_pipe_def)
  have len: "pipe_len ?p = unat n" using arg_cong [OF p(2), of length] by simp
  have "0 < unat n" using n(1) by (simp add: word_less_nat_alt)
  then have "read_pipe rfd dst n ?s1 = Done (Some (unat n)) ?s2"
    using end1 q(1) s1(1) len by (simp add: read_pipe_def peer_closed_def)
  moreover have "user_load (unat n) dst ?s2 = Done ?bs ?s2"
  proof -
    have "user_pa False (dst + of_nat j) (s\<lparr>MEM := m\<rparr>) \<noteq> None" if j: "j < unat n" for j
    proof -
      obtain pa where "user_pa True (dst + of_nat j) s = Some pa"
        using dst(2) j unfolding user_window_def by blast
      then show ?thesis unfolding m(2) by (simp add: user_pa_read)
    qed
    then have "user_load (unat n) dst (upd_pipe i (\<lambda>_. q) (s\<lparr>MEM := m\<rparr>)) =
        (case user_load (unat n) dst (s\<lparr>MEM := m\<rparr>) of
           Done bs _ \<Rightarrow> Done bs (upd_pipe i (\<lambda>_. q) (s\<lparr>MEM := m\<rparr>)) | r \<Rightarrow> r)"
      by (intro user_load_upd_pipe allI impI)
    with m(3) show ?thesis unfolding s2 by simp
  qed
  moreover have "quiet s ?s2"
    using q(3) unfolding s2 by (intro quiet_trans [OF _ quiet_upd_pipe]) (simp_all add: quiet_def same_refs_frame)
  moreover have "pipe_contents (PIPES ?s2 ! i) = []" using i q(2) by (simp add: s2 upd_pipe_def)
  ultimately show ?thesis using load written by blast
qed

definition pipe_example :: kernel where
  "pipe_example = user_example\<lparr>
     PROCESSES := (replicate 8 None)[0 := Some ((process_new_leader 1 0 ''sh'')
       \<lparr>fds := [Stdio 0, Stdio 1, Stdio 2, PipeRead 0, PipeWrite 0] @ replicate 11 Empty\<rparr>)],
     THREADS := (replicate 8 None)[0 := Some (thread_new_leader 1 0 0 0)],
     PIPES := (replicate MAX_PIPES pipe_empty)[0 := pipe_new]\<rparr>"

lemma pipe_example_memory:
  "aspace_inv pipe_example (CR3 pipe_example)"
  "n \<le> 4096 \<Longrightarrow> user_window 0x400000 n pipe_example"
  "user_pa wr va pipe_example = user_pa wr va user_example"
proof -
  have f: "MEM pipe_example = MEM user_example" "CR3 pipe_example = CR3 user_example"
    "PMM pipe_example = PMM user_example" "CR0_WP pipe_example = CR0_WP user_example"
    by (simp_all add: pipe_example_def)
  show pa: "user_pa wr va pipe_example = user_pa wr va user_example" for wr va
    unfolding user_pa_def f ..
  show "aspace_inv pipe_example (CR3 pipe_example)"
    using user_example_aspace unfolding aspace_inv_def f .
  assume "n \<le> 4096"
  from user_example_window [OF this] show "user_window 0x400000 n pipe_example"
    unfolding user_window_def data_byte_def pa f .
qed

theorem pipe_round_trip_witness:
  "\<exists>bs s1 s2. user_load 3 0x400000 pipe_example = Done bs pipe_example \<and>
     write_pipe 4 (UserSrc 0x400000) 3 pipe_example = Done (Some 3) s1 \<and>
     read_pipe 3 0x400000 3 s1 = Done (Some 3) s2 \<and> user_load 3 0x400000 s2 = Done bs s2"
proof -
  have "fd_pipe_end 4 pipe_example = Some (0, False)" "fd_pipe_end 3 pipe_example = Some (0, True)"
    "length (PIPES pipe_example) = MAX_PIPES" "PIPES pipe_example ! 0 = pipe_new"
    by (simp_all add: pipe_example_def user_example_def fd_pipe_end_def get_fd_target_def current_process_def
        current_thread_def current_task_slot_def thread_new_leader_def MAX_FDS_def pipe_valid_def MAX_PIPES_def
        pipe_new_def eval_nat_numeral)
  moreover have "0 < read_refs pipe_new" by (simp add: pipe_new_def)
  moreover have "\<forall>j < 3. user_pa False (0x400000 + of_nat j) pipe_example \<noteq> None"
    unfolding pipe_example_memory(3) using user_example_window [of 3]
    by (auto simp: user_window_def dest!: user_pa_read)
  ultimately show ?thesis
    using pipe_round_trip [of 4 pipe_example 0 3 3 "0x400000" "0x400000"] pipe_new_inv pipe_example_memory(1)
      pipe_example_memory(2) [of 3]
    by (simp add: PIPE_CAPACITY_def) blast
qed

end
