(* ===== verification/SysBase.thy ===== *)
theory SysBase
  imports Fd
begin

text \<open>
  Building blocks of the system calls. A system call is a function of the kernel state whose
  result is an error or a value; \<open>sys_seq\<close> is the sequence of two statements with \<^verbatim>\<open>?\<close> between
  them. The other functions turn the operations of the kernel into such statements, the way
  \<^verbatim>\<open>result::ensure(op, error)?\<close> and \<^verbatim>\<open>result::option(op, error)?\<close> do.
\<close>

definition sys_seq :: "'a syscall \<Rightarrow> ('a \<Rightarrow> 'b syscall) \<Rightarrow> 'b syscall" where
  "sys_seq m k s = sbind (m s) k"

text \<open>A value read from the state, which may be missing.\<close>

definition sys_get :: "(kernel \<Rightarrow> 'a option) \<Rightarrow> sys_error \<Rightarrow> 'a syscall" where
  "sys_get f e s = Done (sys_option (f s) e) s"

definition sys_read :: "(kernel \<Rightarrow> 'a) \<Rightarrow> 'a syscall" where
  "sys_read f s = Done (Inr (f s)) s"

definition sys_modify :: "(kernel \<Rightarrow> kernel) \<Rightarrow> unit syscall" where
  "sys_modify f s = Done (Inr ()) (f s)"

text \<open>An operation that changes the state and may fail.\<close>

definition sys_take :: "(kernel \<Rightarrow> 'a option \<times> kernel) \<Rightarrow> sys_error \<Rightarrow> 'a syscall" where
  "sys_take f e s = (case f s of (r, s1) \<Rightarrow> Done (sys_option r e) s1)"

definition sys_test :: "(kernel \<Rightarrow> bool \<times> kernel) \<Rightarrow> sys_error \<Rightarrow> unit syscall" where
  "sys_test f e s = (case f s of (b, s1) \<Rightarrow> Done (if b then Inr () else Inl e) s1)"

text \<open>The same for operations that may also panic, fault or wait.\<close>

definition sys_await :: "(kernel \<Rightarrow> (kernel, 'a option) outcome) \<Rightarrow> sys_error \<Rightarrow> 'a syscall" where
  "sys_await f e s = obind (f s) (\<lambda>r. Done (sys_option r e))"

definition sys_await_test :: "(kernel \<Rightarrow> (kernel, bool) outcome) \<Rightarrow> sys_error \<Rightarrow> unit syscall" where
  "sys_await_test f e s = obind (f s) (\<lambda>b. Done (if b then Inr () else Inl e))"

definition sys_run :: "(kernel \<Rightarrow> (kernel, 'a) outcome) \<Rightarrow> 'a syscall" where
  "sys_run f s = obind (f s) (\<lambda>r. Done (Inr r))"

text \<open>The value in the register \<^verbatim>\<open>rax\<close> after a call.\<close>

definition sys_done :: "u64 syscall \<Rightarrow> kernel \<Rightarrow> (kernel, u64) outcome" where
  "sys_done m s = obind (m s) (\<lambda>r. Done (sys_ret r))"

lemmas sys_defs = sys_seq_def sys_get_def sys_read_def sys_modify_def sys_take_def sys_test_def
  sys_await_def sys_await_test_def sys_run_def

section \<open>What a call keeps\<close>

text \<open>\<open>I\<close> holds in every state that the outcome can leave behind.\<close>

primrec leaves :: "('s \<Rightarrow> bool) \<Rightarrow> ('s, 'a) outcome \<Rightarrow> bool" where
  "leaves I (Done x t) = I t"
| "leaves I Panicked = True"
| "leaves I (Faulted t) = I t"
| "leaves I (Waiting t) = I t"

definition preserves :: "('s \<Rightarrow> bool) \<Rightarrow> ('s \<Rightarrow> ('s, 'a) outcome) \<Rightarrow> bool" where
  "preserves I m \<longleftrightarrow> (\<forall>s. I s \<longrightarrow> leaves I (m s))"

named_theorems keep_rules

lemma leaves_obind: "leaves I m \<Longrightarrow> (\<And>x t. m = Done x t \<Longrightarrow> leaves I (k x t)) \<Longrightarrow> leaves I (obind m k)"
  by (cases m) auto

lemma leaves_mono: "leaves I m \<Longrightarrow> (\<And>t. I t \<Longrightarrow> J t) \<Longrightarrow> leaves J m"
  by (cases m) auto

lemma preservesD: "preserves I m \<Longrightarrow> I s \<Longrightarrow> leaves I (m s)"
  by (simp add: preserves_def)

lemma preserves_seq [keep_rules]:
  assumes "preserves I m" "\<And>x. preserves I (k x)"
  shows "preserves I (sys_seq m k)"
proof -
  have "leaves I (sbind (m s) k)" if "I s" for s
    unfolding sbind_def
    by (rule leaves_obind [OF preservesD [OF assms(1) that]])
      (use preservesD [OF assms(1) that] in \<open>auto split: sum.split intro: preservesD [OF assms(2)]\<close>)
  then show ?thesis by (simp add: preserves_def sys_seq_def)
qed

lemma preserves_pure [keep_rules]:
  "preserves I (ensure c e)" "preserves I (sys_ok v)" "preserves I (sys_err e)"
  "preserves I (sys_get f e)" "preserves I (sys_read g)"
  by (simp_all add: preserves_def sys_result_defs sys_defs)

lemma preserves_if [keep_rules]:
  "preserves I a \<Longrightarrow> preserves I b \<Longrightarrow> preserves I (if c then a else b)"
  by simp

lemma preserves_ifs [keep_rules]:
  "preserves I a \<Longrightarrow> preserves I b \<Longrightarrow> preserves I (\<lambda>s. if c s then a s else b s)"
  by (simp add: preserves_def)

lemma preserves_modify: "(\<And>s. I s \<Longrightarrow> I (f s)) \<Longrightarrow> preserves I (sys_modify f)"
  by (simp add: preserves_def sys_defs)

lemma preserves_take: "(\<And>s. I s \<Longrightarrow> I (snd (f s))) \<Longrightarrow> preserves I (sys_take f e)"
  by (simp add: preserves_def sys_defs split_beta)

lemma preserves_test: "(\<And>s. I s \<Longrightarrow> I (snd (f s))) \<Longrightarrow> preserves I (sys_test f e)"
  by (simp add: preserves_def sys_defs split_beta)

lemma preserves_await: "preserves I f \<Longrightarrow> preserves I (sys_await f e)"
  by (auto simp: preserves_def sys_defs intro!: leaves_obind)

lemma preserves_await_test: "preserves I f \<Longrightarrow> preserves I (sys_await_test f e)"
  by (auto simp: preserves_def sys_defs intro!: leaves_obind)

lemma preserves_run: "preserves I f \<Longrightarrow> preserves I (sys_run f)"
  by (auto simp: preserves_def sys_defs intro!: leaves_obind)

lemma preserves_done: "preserves I m \<Longrightarrow> preserves I (sys_done m)"
  by (auto simp: preserves_def sys_done_def intro!: leaves_obind)

end
