(* ===== verification/Vm.thy ===== *)
theory Vm
  imports SysBase
begin

text \<open>
  Memory regions of a process (\<^verbatim>\<open>proc/vm.rs\<close>) and the system calls that map and unmap user
  memory (\<^verbatim>\<open>syscall/mm.rs\<close>).
\<close>

unbundle bit_operations_syntax

section \<open>Memory regions\<close>

definition overlaps :: "usize \<Rightarrow> usize \<Rightarrow> usize \<Rightarrow> usize \<Rightarrow> bool" where
  "overlaps a_start a_len b_start b_len =
     (let a_end = saturating_add a_start a_len; b_end = saturating_add b_start b_len
      in a_start < b_end \<and> b_start < a_end)"

definition region_conflicts :: "usize \<Rightarrow> usize \<Rightarrow> kernel \<Rightarrow> bool" where
  "region_conflicts st len s =
     (case current_process s of
        None \<Rightarrow> True
      | Some p \<Rightarrow> list_ex (\<lambda>v. vma_in_use v \<and> overlaps st len (vma_start v) (vma_len v)) (vmas p))"

definition set_vma :: "nat \<Rightarrow> vm_region \<Rightarrow> process \<Rightarrow> process" where
  "set_vma i v p = p\<lparr>vmas := (vmas p)[i := v]\<rparr>"

definition alloc_vma :: "usize \<Rightarrow> usize \<Rightarrow> u32 \<Rightarrow> u32 \<Rightarrow> kernel \<Rightarrow> bool \<times> kernel" where
  "alloc_vma st len prot flags s =
     (case current_process s of
        None \<Rightarrow> (False, s)
      | Some p \<Rightarrow>
          (case position (\<lambda>v. \<not> vma_in_use v) (vmas p) of
             Some i \<Rightarrow> (True, current_process_mut (set_vma i (vm_region_new st len prot flags)) s)
           | None \<Rightarrow> (False, s)))"

text \<open>The reference to a region is its index in the table of the current process.\<close>

definition find_vma_exact :: "usize \<Rightarrow> usize \<Rightarrow> kernel \<Rightarrow> nat option" where
  "find_vma_exact st len s =
     (case current_process s of
        None \<Rightarrow> None
      | Some p \<Rightarrow> position (\<lambda>v. vma_in_use v \<and> vma_start v = st \<and> vma_len v = len) (vmas p))"

definition reserve_mmap_base :: "usize \<Rightarrow> kernel \<Rightarrow> usize option \<times> kernel" where
  "reserve_mmap_base len s =
     (case current_process s of
        None \<Rightarrow> (None, s)
      | Some p \<Rightarrow>
          let st = (next_mmap_base p + 0xFFF) AND NOT 0xFFF
          in case checked_add st len of
               None \<Rightarrow> (None, s)
             | Some fin \<Rightarrow> (Some st, current_process_mut (next_mmap_base_update (\<lambda>_. fin)) s))"

section \<open>Mapping system calls\<close>

definition PROT_EXEC :: u32 where "PROT_EXEC = 1"
definition PROT_WRITE :: u32 where "PROT_WRITE = 2"
definition MAP_SHARED :: u32 where "MAP_SHARED = 1"
definition MAP_PRIVATE :: u32 where "MAP_PRIVATE = 2"
definition MAP_FIXED :: u32 where "MAP_FIXED = 0x10"
definition MAP_ANONYMOUS :: u32 where "MAP_ANONYMOUS = 0x20"

lemmas mm_consts = PROT_EXEC_def PROT_WRITE_def MAP_SHARED_def MAP_PRIVATE_def MAP_FIXED_def
  MAP_ANONYMOUS_def

definition map_flags_from_prot :: "u32 \<Rightarrow> map_flags" where
  "map_flags_from_prot prot =
     \<lparr>mf_writable = (prot AND PROT_WRITE \<noteq> 0), mf_user = True, mf_executable = (prot AND PROT_EXEC \<noteq> 0)\<rparr>"

definition page_align_up :: "u64 \<Rightarrow> u64" where
  "page_align_up n = (n + 0xFFF) AND NOT 0xFFF"

definition zero_frame :: "u64 \<Rightarrow> kernel \<Rightarrow> kernel" where
  "zero_frame frame s = s\<lparr>MEM := zero_bytes (MEM s) frame 0x1000\<rparr>"

text \<open>
  The loop of \<^verbatim>\<open>brk\<close>; the result says whether all pages could be mapped. A loop that does not
  end is \<open>None\<close>.
\<close>

partial_function (option) brk_loop :: "u64 \<Rightarrow> u64 \<Rightarrow> kernel \<Rightarrow> (kernel, bool) outcome option" where
  "brk_loop page fin s =
     (if page < fin then
        (case alloc_frame s of
           (frame, s1) \<Rightarrow>
             if frame = 0 then Some (Done False s1)
             else case map_page_in (current_pml4 s1) page frame
                         \<lparr>mf_writable = True, mf_user = True, mf_executable = False\<rparr> s1 of
                    Done _ s2 \<Rightarrow> brk_loop (page + 0x1000) fin (zero_frame frame s2)
                  | Panicked \<Rightarrow> Some Panicked
                  | Faulted s2 \<Rightarrow> Some (Faulted s2)
                  | Waiting s2 \<Rightarrow> Some (Waiting s2))
      else Some (Done True s))"

text \<open>A call whose loop does not end stays in the waiting state.\<close>

definition brk_impl :: "u64 \<Rightarrow> u64 syscall" where
  "brk_impl addr s =
     (let cur = current_brk s
      in if addr = 0 then sys_ok cur s
         else if addr \<le> cur then sys_ok addr (set_brk addr s)
         else case brk_loop (page_align_up cur) (page_align_up addr) s of
                None \<Rightarrow> Waiting s
              | Some r \<Rightarrow>
                  obind r (\<lambda>ok s1. if ok then sys_ok addr (set_brk addr s1) else sys_ok cur s1))"

text \<open>\<^verbatim>\<open>(0..len).step_by(0x1000)\<close>\<close>

definition page_offsets :: "u64 \<Rightarrow> u64 list" where
  "page_offsets len = map (\<lambda>i. of_nat (i * 0x1000)) [0..<(unat len + 0xFFF) div 0x1000]"

definition unmap_and_free :: "u64 \<Rightarrow> u64 \<Rightarrow> kernel \<Rightarrow> kernel" where
  "unmap_and_free pml4 va s =
     (case unmap_page_in pml4 va s of
        (Some frame, s1) \<Rightarrow> free_frame frame s1
      | (None, s1) \<Rightarrow> s1)"

definition unmap_range :: "u64 \<Rightarrow> u64 \<Rightarrow> u64 \<Rightarrow> kernel \<Rightarrow> kernel" where
  "unmap_range pml4 st len s = fold (\<lambda>off. unmap_and_free pml4 (st + off)) (page_offsets len) s"

definition clear_vma :: "nat option \<Rightarrow> kernel \<Rightarrow> kernel" where
  "clear_vma i s =
     (case i of Some i \<Rightarrow> current_process_mut (set_vma i vm_region_empty) s | None \<Rightarrow> s)"

text \<open>One page of \<^verbatim>\<open>mmap\<close>: \<open>None\<close> is the early return when memory is exhausted.\<close>

definition map_new_page ::
  "u64 \<Rightarrow> u64 \<Rightarrow> u64 \<Rightarrow> u64 \<Rightarrow> map_flags \<Rightarrow> u8 list option \<Rightarrow> kernel \<Rightarrow> (kernel, unit option) outcome" where
  "map_new_page pml4 st len off flags seed s =
     (case alloc_frame s of
        (frame, s1) \<Rightarrow>
          if frame = 0 then
            let s2 = unmap_range pml4 st off s1
            in Done None (clear_vma (find_vma_exact st len s2) s2)
          else obind (map_page_in pml4 (st + off) frame flags s1) (\<lambda>_ s2.
            let s3 = zero_frame frame s2
            in case seed of
                 None \<Rightarrow> Done (Some ()) s3
               | Some bytes \<Rightarrow>
                   let src = min (unat off) (length bytes); fin = min (unat off + 0x1000) (length bytes)
                   in if src < fin
                      then obind (user_store (take (fin - src) (drop src bytes)) (st + off) s3) (\<lambda>_.
                             Done (Some ()))
                      else Done (Some ()) s3))"

primrec mmap_loop ::
  "u64 list \<Rightarrow> u64 \<Rightarrow> u64 \<Rightarrow> u64 \<Rightarrow> map_flags \<Rightarrow> u8 list option \<Rightarrow> u64 syscall" where
  "mmap_loop [] pml4 st len flags seed s = sys_ok st s"
| "mmap_loop (off # offs) pml4 st len flags seed s =
     obind (map_new_page pml4 st len off flags seed s) (\<lambda>r s1.
       case r of
         None \<Rightarrow> sys_err NoMem s1
       | Some _ \<Rightarrow> mmap_loop offs pml4 st len flags seed s1)"

text \<open>The contents of the file that the mapping starts with; \<open>fd\<close> is at least 0.\<close>

definition file_seed :: "bool \<Rightarrow> i32 \<Rightarrow> i64 \<Rightarrow> u64 \<Rightarrow> u8 list option syscall" where
  "file_seed anonymous fd off len s =
     (if anonymous then sys_ok None s
      else case fd_descriptor_info (nat (sint fd)) s of
             Some (DFile file_idx _) \<Rightarrow>
               sys_ok (Some (case read_range file_idx off len (FILESYSTEM s) of Some bs \<Rightarrow> bs | None \<Rightarrow> [])) s
           | _ \<Rightarrow> sys_err BadFd s)"

definition mmap_start :: "u64 \<Rightarrow> u64 \<Rightarrow> u32 \<Rightarrow> u64 syscall" where
  "mmap_start addr len flags =
     (if addr = 0 then sys_take (reserve_mmap_base len) Invalid
      else let a = addr AND NOT 0xFFF
           in sys_seq (\<lambda>s. ensure (flags AND MAP_FIXED \<noteq> 0 \<and> \<not> region_conflicts a len s) Invalid s) (\<lambda>_.
              sys_ok a))"

definition mmap_impl :: "u64 \<Rightarrow> u64 \<Rightarrow> u32 \<Rightarrow> u32 \<Rightarrow> i32 \<Rightarrow> i64 \<Rightarrow> u64 syscall" where
  "mmap_impl addr len prot flags fd off =
     sys_seq (ensure (len \<noteq> 0) Invalid) (\<lambda>_.
     sys_seq (ensure (flags AND (MAP_PRIVATE OR MAP_SHARED) \<noteq> 0) Invalid) (\<lambda>_.
     sys_seq (ensure (flags AND MAP_SHARED = 0) Unsupported) (\<lambda>_.
     let anonymous = (flags AND MAP_ANONYMOUS \<noteq> 0) in
     sys_seq (if anonymous then ensure (sint fd = -1 \<and> off = 0) Invalid
              else sys_seq (ensure (sint fd \<ge> 0) BadFd) (\<lambda>_.
                   ensure (sint off \<ge> 0 \<and> off AND 0xFFF = 0) Invalid)) (\<lambda>_.
     let len = page_align_up len in
     sys_seq (mmap_start addr len flags) (\<lambda>st.
     sys_seq (\<lambda>s. ensure (\<not> region_conflicts st len s) Invalid s) (\<lambda>_.
     sys_seq (sys_test (alloc_vma st len prot flags) Invalid) (\<lambda>_.
     sys_seq (file_seed anonymous fd off len) (\<lambda>seed s.
       mmap_loop (page_offsets len) (current_pml4 s) st len (map_flags_from_prot prot) seed s))))))))"

definition munmap_impl :: "u64 \<Rightarrow> u64 \<Rightarrow> u64 syscall" where
  "munmap_impl addr len =
     sys_seq (ensure (addr \<noteq> 0 \<and> len \<noteq> 0) Invalid) (\<lambda>_.
     let st = addr AND NOT 0xFFF; len = page_align_up len in
     sys_seq (sys_get (find_vma_exact st len) Invalid) (\<lambda>i.
     sys_seq (sys_modify (\<lambda>s. clear_vma (Some i) (unmap_range (current_pml4 s) st len s))) (\<lambda>_.
       sys_ok 0)))"

primrec protect_pages :: "u64 list \<Rightarrow> u64 \<Rightarrow> u64 \<Rightarrow> map_flags \<Rightarrow> kernel \<Rightarrow> bool \<times> kernel" where
  "protect_pages [] pml4 st flags s = (True, s)"
| "protect_pages (off # offs) pml4 st flags s =
     (case protect_page_in pml4 (st + off) flags s of
        (False, s1) \<Rightarrow> (False, s1)
      | (True, s1) \<Rightarrow> protect_pages offs pml4 st flags s1)"

definition mprotect_impl :: "u64 \<Rightarrow> u64 \<Rightarrow> u64 \<Rightarrow> u64 syscall" where
  "mprotect_impl addr len prot =
     sys_seq (ensure (addr \<noteq> 0 \<and> len \<noteq> 0) Invalid) (\<lambda>_.
     let st = addr AND NOT 0xFFF; len = page_align_up len in
     sys_seq (sys_get (find_vma_exact st len) Invalid) (\<lambda>i.
     sys_seq (\<lambda>s. sys_test (protect_pages (page_offsets len) (current_pml4 s) st
                      (map_flags_from_prot (ucast prot))) Invalid s) (\<lambda>_.
     sys_seq (sys_modify (current_process_mut (\<lambda>p. p\<lparr>vmas := (vmas p)[i := (vmas p ! i)\<lparr>vma_prot := ucast prot\<rparr>]\<rparr>))) (\<lambda>_.
       sys_ok 0))))"

definition sys_brk :: "u64 \<Rightarrow> kernel \<Rightarrow> (kernel, u64) outcome" where
  "sys_brk addr = sys_done (brk_impl addr)"

definition sys_mmap :: "u64 \<Rightarrow> u64 \<Rightarrow> u64 \<Rightarrow> u64 \<Rightarrow> u64 \<Rightarrow> u64 \<Rightarrow> kernel \<Rightarrow> (kernel, u64) outcome" where
  "sys_mmap addr len prot flags fd off =
     sys_done (mmap_impl addr len (ucast prot) (ucast flags) (ucast fd) off)"

definition sys_munmap :: "u64 \<Rightarrow> u64 \<Rightarrow> kernel \<Rightarrow> (kernel, u64) outcome" where
  "sys_munmap addr len = sys_done (munmap_impl addr len)"

definition sys_mprotect :: "u64 \<Rightarrow> u64 \<Rightarrow> u64 \<Rightarrow> kernel \<Rightarrow> (kernel, u64) outcome" where
  "sys_mprotect addr len prot = sys_done (mprotect_impl addr len prot)"

end
