(* ===== verification/VmMap.thy ===== *)
theory VmMap
  imports VmInv
begin

text \<open>
  What \<^verbatim>\<open>mmap\<close> and \<^verbatim>\<open>munmap\<close> do to the address space of the calling process. A page mapped by
  \<^verbatim>\<open>mmap\<close> is a cleared frame that was free before; the pages of the range get different frames and
  the rest of the mapping stays as it was. \<^verbatim>\<open>munmap\<close> removes the pages and frees the frames.
\<close>

unbundle bit_operations_syntax

section \<open>Taking a frame\<close>

lemma zero_free_frame_read:
  assumes "aspace_inv s pml4" "f < MAX_FRAMES" "f \<in> free_set (PMM s)" "k \<le> 3"
    and t: "table_at (MEM s) pml4 w k = Some t"
  shows "rd64 (zero_bytes (MEM s) (frame_addr f) 4096) (entry_addr t (vidx k w)) = rd64 (MEM s) (entry_addr t (vidx k w))"
proof -
  have "t \<noteq> frame_addr f"
    using aspace_table_used [OF assms(1,4) t] frame_addr_frame [OF assms(2)] assms(3) by auto
  then show ?thesis
    using assms by (intro rd64_zero_bytes_other slot_in_page_disjoint aspace_table_addr [OF assms(1,4) t] vidx_less) auto
qed

lemma take_frame:
  assumes inv: "aspace_inv s pml4" "pmm_inv (PMM s)"
  obtains (oom) "alloc_frame s = (0, s)" "free_set (PMM s) = {}"
    | (ok) f s' where "alloc_frame s = (frame_addr f, s')" "f \<in> free_set (PMM s)" "0 < f" "f < MAX_FRAMES"
      "frame_addr f \<noteq> 0" "free_set (PMM s') = free_set (PMM s) - {f}" "extends pml4 s s'"
      "\<And>a. unat a div PAGE_SIZE = f \<Longrightarrow> data_byte s' pml4 a \<and> MEM s' a = 0"
proof (cases "free_set (PMM s) = {}")
  case True
  with inv(2) show thesis by (intro oom) (simp_all add: alloc_frame_empty)
next
  case False
  define f where "f = Min (free_set (PMM s))"
  define s' where "s' = snd (alloc_frame s)"
  have fin: "finite (free_set (PMM s))" by (rule pmm.avail_finite [OF inv(2)])
  then have f: "f \<in> free_set (PMM s)" using False by (simp add: f_def)
  have fb: "0 < f" "f < MAX_FRAMES" using free_set_bounds [OF inv(2) f] by simp_all
  have a: "alloc_frame s = (frame_addr f, s')"
    using alloc_frame_least [OF inv(2) False] by (simp add: s'_def f_def)
  have m: "MEM s' = zero_bytes (MEM s) (frame_addr f) 4096" "free_set (PMM s') = free_set (PMM s) - {f}"
    "phys.more s' = phys.more s"
    using alloc_frame_least [OF inv(2) False] by (simp_all add: s'_def f_def)
  have tab: "table_at (MEM s') pml4 w k = table_at (MEM s) pml4 w k" if "k \<le> 3" for w k
    unfolding m using that zero_free_frame_read [OF inv(1) fb(2) f] by (intro table_at_cong) auto
  have rd: "rd64 (MEM s') (entry_addr t (vidx k w)) = rd64 (MEM s) (entry_addr t (vidx k w))"
    if "k \<le> 3" "table_at (MEM s) pml4 w k = Some t" for k w t
    unfolding m by (rule zero_free_frame_read [OF inv(1) fb(2) f that])
  have asp: "aspace_inv s' pml4"
  proof (rule aspace_invI, goal_cases)
    case (1 w k t)
    then show ?case using aspace_table_addr [OF inv(1), of k w t] aspace_table_used [OF inv(1), of k w t] tab
      by (simp add: m(2) del: PAGE_SIZE_def)
  next
    case (2 w x k j t)
    then show ?case using aspace_tree [OF inv(1), of k j w t x] tab by simp
  next
    case (3 w k t)
    then show ?case using aspace_present [OF inv(1), of k w t] tab rd [of k w t] by simp
  qed
  have leaf: "leaf_entry (MEM s') pml4 w = leaf_entry (MEM s) pml4 w" for w
    using tab [of 2 w] tab [of 3 w] rd [of 2 w] rd [of 3 w]
    by (auto simp: leaf_entry_def Let_def split: option.splits)
  have data: "data_byte s' pml4 a \<and> MEM s' a = MEM s a" if "data_byte s pml4 a" for a
  proof -
    have "unat a div PAGE_SIZE \<noteq> f" using that f by (auto simp: data_byte_def)
    then have "\<not> unat (a - frame_addr f) < 4096" using in_frame [OF fb(2)] by blast
    then have "MEM s' a = MEM s a" by (simp add: zero_bytes_def m(1))
    moreover have "data_byte s' pml4 a"
      using that tab unfolding data_byte_def m(2) by (metis DiffD1)
    ultimately show ?thesis by simp
  qed
  have new: "data_byte s' pml4 x \<and> MEM s' x = 0" if x: "unat x div PAGE_SIZE = f" for x
  proof -
    have "unat x = f * 4096 + unat x mod 4096" using x by (metis PAGE_SIZE_def div_mult_mod_eq)
    then have "unat (x - frame_addr f) = unat x mod 4096"
      using frame_addr_unat [OF fb(2)] by (subst unat_sub) (simp_all add: word_le_nat_alt)
    then have "MEM s' x = 0" by (simp add: m(1) zero_bytes_def)
    moreover have "data_byte s' pml4 x"
      unfolding data_byte_def x m(2) using aspace_table_used [OF inv(1)] f tab by auto
    ultimately show ?thesis by simp
  qed
  have "extends pml4 s s'"
    using asp leaf data alloc_frame_inv [OF inv(2)] m unfolding extends_def s'_def by auto
  moreover have "frame_addr f \<noteq> 0" using frame_addr_0_iff fb by auto
  ultimately show thesis using a f fb m(2) new by (intro ok)
qed

section \<open>Mapping a range\<close>

lemma extends_mapped: "extends pml4 s s1 \<Longrightarrow> mapped pml4 v e s1 s2 \<Longrightarrow> mapped pml4 v e s s2"
  unfolding extends_def mapped_def by auto

lemma zero_frame_zero:
  assumes "f < MAX_FRAMES" "\<And>a. unat a div PAGE_SIZE = f \<Longrightarrow> MEM s a = 0"
  shows "zero_frame (frame_addr f) s = s"
proof -
  have "zero_bytes (MEM s) (frame_addr f) 0x1000 = MEM s"
    using assms in_frame [OF assms(1)] by (auto simp: zero_bytes_def fun_eq_iff)
  then show ?thesis by (simp add: zero_frame_def)
qed

text \<open>The leaf entry that maps frame \<open>f\<close>.\<close>

abbreviation leaf_of :: "nat \<Rightarrow> map_flags \<Rightarrow> u64" where
  "leaf_of f flags \<equiv> frame_addr f OR PTE_PRESENT OR leaf_flags flags"

lemma map_new_page_ok:
  assumes inv: "aspace_inv s pml4" "pmm_inv (PMM s)" and huge: "\<not> huge_at (MEM s) pml4 (st + off)"
    and fin: "map_new_page pml4 st len off flags None s = Done (Some ()) s'"
  obtains f where "f \<in> free_set (PMM s)" "f \<notin> free_set (PMM s')" "f < MAX_FRAMES"
    "mapped pml4 (st + off) (leaf_of f flags) s s'"
    "\<And>a. unat a div PAGE_SIZE = f \<Longrightarrow> data_byte s' pml4 a \<and> MEM s' a = 0"
  using inv
proof (cases rule: take_frame)
  case oom
  with fin show thesis by (simp add: map_new_page_def Let_def)
next
  case (ok f s1)
  then have inv1: "aspace_inv s1 pml4" "pmm_inv (PMM s1)" by (simp_all add: extends_def)
  have nh: "\<not> huge_at (MEM s1) pml4 (st + off)" using huge ok(7) by (simp add: extends_def huge_at_def)
  from inv1 show thesis
  proof (cases rule: map_page_in_cases [where v = "st + off" and phys = "frame_addr f" and flags = flags])
    case oom
    with fin ok show thesis by (simp add: map_new_page_def)
  next
    case (huge s2)
    with nh show thesis by simp
  next
    case m: (ok s2)
    have zero: "data_byte s2 pml4 a \<and> MEM s2 a = 0" if "unat a div PAGE_SIZE = f" for a
      using ok(8) [OF that] m(3) by (simp add: mapped_def)
    then have "s' = s2"
      using fin ok(1,5) m(1) zero_frame_zero [OF ok(4), of s2] by (simp add: map_new_page_def Let_def)
    moreover have "f \<notin> free_set (PMM s2)" using m(3) ok(6) unfolding mapped_def by blast
    ultimately show thesis using ok(2,4) zero extends_mapped [OF ok(7) m(3)] by (intro that) auto
  qed
qed

definition pages_apart :: "u64 \<Rightarrow> u64 list \<Rightarrow> bool" where
  "pages_apart st offs \<longleftrightarrow>
     (\<forall>i < length offs. \<forall>j < length offs. i \<noteq> j \<longrightarrow> \<not> same_page (st + offs ! i) (st + offs ! j))"

text \<open>The frames \<open>fs\<close> back the pages at \<open>offs\<close>; everything else is as in the old state.\<close>

definition range_mapped ::
  "u64 \<Rightarrow> u64 \<Rightarrow> u64 list \<Rightarrow> map_flags \<Rightarrow> nat list \<Rightarrow> kernel \<Rightarrow> kernel \<Rightarrow> bool" where
  "range_mapped pml4 st offs flags fs s s' \<longleftrightarrow>
     aspace_inv s' pml4 \<and> pmm_inv (PMM s') \<and> phys.more s' = phys.more s \<and>
     free_set (PMM s') \<subseteq> free_set (PMM s) \<and>
     length fs = length offs \<and> distinct fs \<and> set fs \<subseteq> free_set (PMM s) - free_set (PMM s') \<and>
     (\<forall>i < length offs. leaf_entry (MEM s') pml4 (st + offs ! i) = Some (False, leaf_of (fs ! i) flags)) \<and>
     (\<forall>f \<in> set fs. \<forall>a. unat a div PAGE_SIZE = f \<longrightarrow> data_byte s' pml4 a \<and> MEM s' a = 0) \<and>
     (\<forall>w. (\<forall>off \<in> set offs. \<not> same_page (st + off) w) \<longrightarrow>
        leaf_entry (MEM s') pml4 w = leaf_entry (MEM s) pml4 w) \<and>
     (\<forall>a. data_byte s pml4 a \<longrightarrow> data_byte s' pml4 a \<and> MEM s' a = MEM s a)"

lemma range_mapped_Cons:
  assumes m: "mapped pml4 (st + off) (leaf_of f flags) s s1"
    and f: "f \<in> free_set (PMM s)" "f \<notin> free_set (PMM s1)"
      "\<And>a. unat a div PAGE_SIZE = f \<Longrightarrow> data_byte s1 pml4 a \<and> MEM s1 a = 0"
    and r: "range_mapped pml4 st offs flags fs s1 s'" and apart: "\<And>x. x \<in> set offs \<Longrightarrow> \<not> same_page (st + x) (st + off)"
  shows "range_mapped pml4 st (off # offs) flags (f # fs) s s'"
proof -
  note r' = r [unfolded range_mapped_def] and m' = m [unfolded mapped_def]
  have fs: "f \<notin> set fs" "set (f # fs) \<subseteq> free_set (PMM s) - free_set (PMM s')" using r' f m' by auto
  have "leaf_entry (MEM s') pml4 (st + off) = Some (False, leaf_of f flags)"
    using r' m' apart by simp
  then have "\<forall>i < length (off # offs). leaf_entry (MEM s') pml4 (st + (off # offs) ! i) =
      Some (False, leaf_of ((f # fs) ! i) flags)"
    using r' by (simp add: nth_Cons split: nat.split)
  moreover have "\<forall>g \<in> set (f # fs). \<forall>a. unat a div PAGE_SIZE = g \<longrightarrow> data_byte s' pml4 a \<and> MEM s' a = 0"
    using r' f(3) by auto
  moreover have "\<forall>w. (\<forall>x \<in> set (off # offs). \<not> same_page (st + x) w) \<longrightarrow>
      leaf_entry (MEM s') pml4 w = leaf_entry (MEM s) pml4 w"
    using r' m' by simp
  moreover have "\<forall>a. data_byte s pml4 a \<longrightarrow> data_byte s' pml4 a \<and> MEM s' a = MEM s a"
    using r' m' by simp
  moreover have "free_set (PMM s') \<subseteq> free_set (PMM s)" using r' m' by blast
  ultimately show ?thesis using r' m' fs unfolding range_mapped_def by simp
qed

lemma mmap_loop_ok:
  assumes "aspace_inv s pml4" "pmm_inv (PMM s)" "\<forall>off \<in> set offs. \<not> huge_at (MEM s) pml4 (st + off)"
    and "pages_apart st offs" "mmap_loop offs pml4 st len flags None s = Done (Inr a) s'"
  shows "a = st \<and> (\<exists>fs. range_mapped pml4 st offs flags fs s s')"
  using assms
proof (induction offs arbitrary: s)
  case Nil
  then show ?case by (simp add: sys_ok_def range_mapped_def)
next
  case (Cons off offs)
  from Cons.prems(5) obtain s1 where s1: "map_new_page pml4 st len off flags None s = Done (Some ()) s1"
    "mmap_loop offs pml4 st len flags None s1 = Done (Inr a) s'"
    by (auto simp: obind_Done_iff sys_err_def split: option.splits)
  obtain f where f: "f \<in> free_set (PMM s)" "f \<notin> free_set (PMM s1)"
    "mapped pml4 (st + off) (leaf_of f flags) s s1"
    "\<And>a. unat a div PAGE_SIZE = f \<Longrightarrow> data_byte s1 pml4 a \<and> MEM s1 a = 0"
    by (rule map_new_page_ok [OF Cons.prems(1,2) _ s1(1)]) (use Cons.prems(3) in auto)
  have apart: "\<not> same_page (st + x) (st + off)" if "x \<in> set offs" for x
  proof -
    obtain i where "i < length offs" "x = offs ! i" using \<open>x \<in> set offs\<close> by (auto simp: in_set_conv_nth)
    then show ?thesis using Cons.prems(4) [unfolded pages_apart_def, rule_format, of "Suc i" 0] by simp
  qed
  have "pages_apart st offs"
    unfolding pages_apart_def using Cons.prems(4) [unfolded pages_apart_def, rule_format, of "Suc _" "Suc _"] by auto
  moreover have "\<forall>x \<in> set offs. \<not> huge_at (MEM s1) pml4 (st + x)"
    using f(3) Cons.prems(3) by (auto simp: mapped_def huge_at_def)
  moreover have "aspace_inv s1 pml4" "pmm_inv (PMM s1)" using f(3) by (simp_all add: mapped_def)
  ultimately obtain fs where "a = st" "range_mapped pml4 st offs flags fs s1 s'"
    using Cons.IH s1(2) by blast
  then show ?case using range_mapped_Cons [OF f(3,1,2,4) _ apart] by blast
qed

section \<open>The pages of a range\<close>

lemma bit_vidx: "bit (vidx k v) j \<longleftrightarrow> j < 9 \<and> bit v (39 - 9 * k + j)"
proof -
  have "bit (0x1FF :: u64) j \<longleftrightarrow> j < 9"
    using bit_mask_iff [of 9 j, where 'a = u64] by (auto simp: mask_eq_exp_minus_1)
  then show ?thesis by (auto simp: vidx_def bit_simps)
qed

lemma same_page_number:
  assumes "same_page v w"
  shows "(unat v div 4096) mod 2 ^ 36 = (unat w div 4096) mod 2 ^ 36"
proof -
  have eq: "bit v (39 - 9 * k + j) = bit w (39 - 9 * k + j)" if "k < 4" "j < 9" for k j
    using assms that bit_vidx [of k v j] bit_vidx [of k w j] by (simp add: same_page_def)
  have "bit v (12 + i) = bit w (12 + i)" if i: "i < 36" for i
  proof -
    have "i div 9 < 4" "i mod 9 < 9" using i by (auto intro: less_mult_imp_div_less)
    moreover have "39 - 9 * (3 - i div 9) + i mod 9 = 12 + i"
      using \<open>i div 9 < 4\<close> div_mult_mod_eq [of i 9] by presburger
    ultimately show ?thesis using eq [of "3 - i div 9" "i mod 9"] by simp
  qed
  then have "take_bit 36 (drop_bit 12 v) = take_bit 36 (drop_bit 12 w)"
    by (intro bit_eqI) (auto simp: bit_simps)
  then have "take_bit 36 (drop_bit 12 (unat v)) = take_bit 36 (drop_bit 12 (unat w))"
    by (metis unat_drop_bit_eq unsigned_take_bit_eq)
  then show ?thesis by (simp add: take_bit_eq_mod drop_bit_eq_div)
qed

lemma page_number_offset: "(unat (st + of_nat (i * 0x1000)) div 4096) mod 2 ^ 36 = (unat st div 4096 + i) mod 2 ^ 36"
  for st :: u64
proof -
  have "unat (st + of_nat (i * 0x1000)) = take_bit 64 (unat st + i * 0x1000)"
    by (simp only: unat_word_ariths unat_of_nat take_bit_eq_mod mod_add_right_eq) simp
  then have "unat (st + of_nat (i * 0x1000)) div 4096 = take_bit 52 (drop_bit 12 (unat st + i * 0x1000))"
    using drop_bit_take_bit [of 12 64 "unat st + i * 0x1000"] by (simp add: drop_bit_eq_div)
  also have "\<dots> mod 2 ^ 36 = take_bit 36 (drop_bit 12 (unat st + i * 0x1000))"
    by (simp only: take_bit_take_bit flip: take_bit_eq_mod)
  also have "drop_bit 12 (unat st + i * 0x1000) = unat st div 4096 + i"
    by (simp add: drop_bit_eq_div)
  finally show ?thesis by (simp add: take_bit_eq_mod)
qed

lemma page_offsets_apart:
  assumes "unat len \<le> 2 ^ 48"
  shows "pages_apart st (page_offsets len)"
  unfolding pages_apart_def
proof (intro allI impI notI)
  fix i j
  assume ij: "i < length (page_offsets len)" "j < length (page_offsets len)" "i \<noteq> j"
    and same: "same_page (st + page_offsets len ! i) (st + page_offsets len ! j)"
  have b: "i < 2 ^ 36" "j < 2 ^ 36" using ij assms by (simp_all add: page_offsets_def)
  have "(unat st div 4096 + i) mod 2 ^ 36 = (unat st div 4096 + j) mod 2 ^ 36"
    using same_page_number [OF same] ij page_number_offset [of st i] page_number_offset [of st j]
    by (simp add: page_offsets_def)
  then show False
    using mod_window_distinct [of i j "2 ^ 36" "unat st div 4096"] mod_window_distinct [of j i "2 ^ 36" "unat st div 4096"]
      b ij(3) by (metis linorder_neqE_nat)
qed

section \<open>mmap\<close>

lemma sbind_ok_iff: "sbind m k = Done (Inr y) t \<longleftrightarrow> (\<exists>x s. m = Done (Inr x) s \<and> k x s = Done (Inr y) t)"
  by (auto simp: sbind_def obind_Done_iff split: sum.splits) (metis sum.exhaust)

lemma sys_seq_ok_iff: "sys_seq m k s = Done (Inr y) t \<longleftrightarrow> (\<exists>x s1. m s = Done (Inr x) s1 \<and> k x s1 = Done (Inr y) t)"
  by (simp add: sys_seq_def sbind_ok_iff)

lemma ensure_ok_iff: "ensure c e s = Done (Inr x) t \<longleftrightarrow> c \<and> t = s"
  by (auto simp: ensure_def)

text \<open>The process table apart, nothing changes.\<close>

definition only_processes :: "kernel \<Rightarrow> kernel \<Rightarrow> bool" where
  "only_processes s s' \<longleftrightarrow> s' = s\<lparr>PROCESSES := PROCESSES s'\<rparr>"

lemma only_processes_refl [simp]: "only_processes s s"
  by (simp add: only_processes_def)

lemma only_processes_trans:
  assumes "only_processes s s1" "only_processes s1 s2"
  shows "only_processes s s2"
proof -
  have "s2 = (s\<lparr>PROCESSES := PROCESSES s1\<rparr>)\<lparr>PROCESSES := PROCESSES s2\<rparr>"
    using assms by (metis only_processes_def)
  then show ?thesis by (simp add: only_processes_def)
qed

lemma only_processes_mut [simp]: "only_processes s (current_process_mut f s)"
  by (simp add: current_process_mut_def only_processes_def split: option.split)

lemma only_processes_same:
  assumes "only_processes s s'"
  shows "PMM s' = PMM s" "MEM s' = MEM s" "TASKS s' = TASKS s" "KERNEL_PML4 s' = KERNEL_PML4 s" "THREADS s' = THREADS s" "CURRENT s' = CURRENT s"
proof -
  have e: "s' = s\<lparr>PROCESSES := PROCESSES s'\<rparr>" using assms by (simp add: only_processes_def)
  show "PMM s' = PMM s" "MEM s' = MEM s" "TASKS s' = TASKS s" "KERNEL_PML4 s' = KERNEL_PML4 s" "THREADS s' = THREADS s" "CURRENT s' = CURRENT s"
    by (subst e, simp)+
qed

lemma only_processes_reserve:
  assumes "reserve_mmap_base len s = (r, s1)"
  shows "only_processes s s1"
  using assms by (auto simp: reserve_mmap_base_def Let_def split: option.splits)

lemma only_processes_alloc_vma:
  assumes "alloc_vma st len prot flags s = (b, s1)"
  shows "only_processes s s1"
  using assms by (auto simp: alloc_vma_def split: option.splits)

lemma alloc_vma_records:
  assumes "shape s" "alloc_vma st len prot flags s = (True, s1)"
  shows "find_vma_exact st len s1 \<noteq> None"
proof -
  obtain p i where p: "current_process s = Some p" and i: "position (\<lambda>v. \<not> vma_in_use v) (vmas p) = Some i"
    and s1: "s1 = current_process_mut (set_vma i (vm_region_new st len prot flags)) s"
    using assms(2) by (auto simp: alloc_vma_def split: option.splits)
  have "i < length (vmas p)" using i by (auto dest: position_SomeD)
  then have "vm_region_new st len prot flags \<in> set (vmas (set_vma i (vm_region_new st len prot flags) p))"
    by (simp add: set_vma_def set_update_memI)
  moreover have "current_process s1 = Some (set_vma i (vm_region_new st len prot flags) p)"
    unfolding s1 by (rule current_process_slot [OF assms(1) p]) blast
  ultimately show ?thesis
    by (simp add: find_vma_exact_def position_None_iff) (force simp: vm_region_new_def)
qed

lemma mmap_start_ok:
  assumes "mmap_start addr len flags s = Done (Inr st) s1"
  shows "only_processes s s1"
  using assms
  by (auto simp: mmap_start_def sys_seq_ok_iff ensure_ok_iff Let_def sys_take_def sys_ok_def
      intro: only_processes_reserve split: if_splits prod.splits option.splits)

end
