(* ===== verification/VmRegions.thy ===== *)
theory VmRegions
  imports VmMap
begin

text \<open>
  The memory regions of a process never overlap: the invariant of the region tables, that every
  operation on processes and every memory system call keeps it, and that it holds in every state
  reached from the initial tables.
\<close>

section \<open>The invariant\<close>

definition in_region :: "u64 \<Rightarrow> vm_region \<Rightarrow> bool" where
  "in_region a v \<longleftrightarrow> vma_in_use v \<and> vma_start v \<le> a \<and> a < saturating_add (vma_start v) (vma_len v)"

definition regions_apart :: "vm_region list \<Rightarrow> bool" where
  "regions_apart vs \<longleftrightarrow>
     (\<forall>i < length vs. \<forall>j < length vs. i \<noteq> j \<longrightarrow> vma_in_use (vs ! i) \<longrightarrow> vma_in_use (vs ! j) \<longrightarrow>
        \<not> overlaps (vma_start (vs ! i)) (vma_len (vs ! i)) (vma_start (vs ! j)) (vma_len (vs ! j)))"

text \<open>The region tables in the system.\<close>

definition vma_tables :: "kernel \<Rightarrow> vm_region list set" where
  "vma_tables s = {vmas p |p. Some p \<in> set (PROCESSES s)}"

definition vm_inv :: "kernel \<Rightarrow> bool" where
  "vm_inv s \<longleftrightarrow> (\<forall>vs \<in> vma_tables s. regions_apart vs)"

lemma overlaps_sym: "overlaps a l b m = overlaps b m a l"
  by (auto simp: overlaps_def Let_def)

lemma regions_apart_address:
  assumes "regions_apart vs" "i < length vs" "j < length vs" "in_region a (vs ! i)" "in_region a (vs ! j)"
  shows "i = j"
proof (rule ccontr)
  assume "i \<noteq> j"
  with assms have "\<not> overlaps (vma_start (vs ! i)) (vma_len (vs ! i)) (vma_start (vs ! j)) (vma_len (vs ! j))"
    by (simp add: regions_apart_def in_region_def)
  with assms(4,5) show False
    by (simp add: overlaps_def Let_def in_region_def) (meson le_less_trans not_less)
qed

lemma regions_apart_update:
  assumes "regions_apart vs"
    and "\<And>w. vma_in_use v \<Longrightarrow> w \<in> set vs \<Longrightarrow> vma_in_use w \<Longrightarrow> \<not> overlaps (vma_start v) (vma_len v) (vma_start w) (vma_len w)"
  shows "regions_apart (vs[i := v])"
  unfolding regions_apart_def length_list_update
proof (intro allI impI)
  fix j k
  assume jk: "j < length vs" "k < length vs" "j \<noteq> k" "vma_in_use (vs[i := v] ! j)" "vma_in_use (vs[i := v] ! k)"
  then consider "i \<noteq> j" "i \<noteq> k" | "i = j" "i \<noteq> k" | "i \<noteq> j" "i = k" by blast
  then show "\<not> overlaps (vma_start (vs[i := v] ! j)) (vma_len (vs[i := v] ! j))
      (vma_start (vs[i := v] ! k)) (vma_len (vs[i := v] ! k))"
  proof cases
    case 1
    then show ?thesis using jk assms(1) by (simp add: regions_apart_def)
  next
    case 2
    then show ?thesis using jk assms(2) by simp
  next
    case 3
    then show ?thesis using jk assms(2) [of "vs ! j"] by (simp add: overlaps_sym)
  qed
qed

lemma regions_apart_empty: "regions_apart (replicate n vm_region_empty)"
  by (simp add: regions_apart_def vm_region_empty_def)

lemma regions_apart_prot:
  assumes "regions_apart vs"
  shows "regions_apart (vs[i := (vs ! i)\<lparr>vma_prot := pr\<rparr>])"
proof (cases "i < length vs")
  case True
  then have "vma_start (vs[i := (vs ! i)\<lparr>vma_prot := pr\<rparr>] ! j) = vma_start (vs ! j)"
    "vma_len (vs[i := (vs ! i)\<lparr>vma_prot := pr\<rparr>] ! j) = vma_len (vs ! j)"
    "vma_in_use (vs[i := (vs ! i)\<lparr>vma_prot := pr\<rparr>] ! j) = vma_in_use (vs ! j)" for j
    by (simp_all add: nth_list_update)
  then show ?thesis using assms by (simp add: regions_apart_def)
next
  case False
  then show ?thesis using assms by (simp add: not_less list_update_beyond)
qed

lemma vm_inv_subset:
  assumes "vm_inv s" "\<And>p. Some p \<in> set (PROCESSES s') \<Longrightarrow> regions_apart (vmas p) \<or> (\<exists>q. Some q \<in> set (PROCESSES s) \<and> vmas p = vmas q)"
  shows "vm_inv s'"
  using assms by (fastforce simp: vm_inv_def vma_tables_def)

lemma vm_inv_same: "vm_inv s \<Longrightarrow> PROCESSES s' = PROCESSES s \<Longrightarrow> vm_inv s'"
  by (simp add: vm_inv_def vma_tables_def)

lemma vm_inv_update:
  assumes "vm_inv s" "PROCESSES s' = (PROCESSES s)[g := x]" "\<And>p. x = Some p \<Longrightarrow> regions_apart (vmas p)"
  shows "vm_inv s'"
proof (rule vm_inv_subset [OF assms(1)])
  fix p assume "Some p \<in> set (PROCESSES s')"
  then have "Some p \<in> insert x (set (PROCESSES s))"
    using set_update_subset_insert [of "PROCESSES s" g x] assms(2) by auto
  then show "regions_apart (vmas p) \<or> (\<exists>q. Some q \<in> set (PROCESSES s) \<and> vmas p = vmas q)"
    using assms(3) by auto
qed

lemma vm_inv_keep:
  assumes "vm_inv s" "PROCESSES s' = (PROCESSES s)[g := Some p']" "PROCESSES s ! g = Some p"
    and "regions_apart (vmas p) \<Longrightarrow> regions_apart (vmas p')"
  shows "vm_inv s'"
proof (cases "g < length (PROCESSES s)")
  case True
  then have "regions_apart (vmas p)"
    using assms(1,3) by (force simp: vm_inv_def vma_tables_def in_set_conv_nth)
  then show ?thesis using vm_inv_update [OF assms(1,2)] assms(4) by simp
next
  case False
  then have "PROCESSES s' = PROCESSES s" using assms(2) by (simp add: not_less list_update_beyond)
  then show ?thesis by (rule vm_inv_same [OF assms(1)])
qed

lemma vm_inv_mut:
  assumes "vm_inv s" "\<And>p. current_process s = Some p \<Longrightarrow> regions_apart (vmas p) \<Longrightarrow> regions_apart (vmas (f p))"
  shows "vm_inv (current_process_mut f s)"
proof (cases "current_process s")
  case None
  then have "current_process_mut f s = s"
    by (auto simp: current_process_mut_def current_process_def split: option.splits)
  then show ?thesis using assms(1) by simp
next
  case (Some p)
  then obtain th where th: "current_thread s = Some th" "PROCESSES s ! group_slot th = Some p"
    by (auto simp: current_process_def split: option.splits)
  then have "PROCESSES (current_process_mut f s) = (PROCESSES s)[group_slot th := Some (f p)]"
    by (simp add: current_process_mut_def)
  then show ?thesis using vm_inv_keep [OF assms(1) _ th(2)] assms(2) [OF Some] by blast
qed

section \<open>Creating and ending processes\<close>

lemma fold_fork_retain_PROCESSES: "PROCESSES (fold fork_retain ts s) = PROCESSES s"
  by (induction ts arbitrary: s) (simp_all add: fork_retain_def split: fd_target.split)

lemma release_fds_PROCESSES: "PROCESSES (release_fds ts s) = PROCESSES s"
proof -
  have "PROCESSES (release_fd_target t s) = PROCESSES s" for t s
    by (simp add: release_fd_target_def fd_open_release_def release_read_def release_write_def
        Let_def split: fd_target.split)
  then have "PROCESSES (fold release_fd_target ts s) = PROCESSES s"
    by (induction ts arbitrary: s) simp_all
  then show ?thesis by (simp add: release_fds_def)
qed

lemma end_group_PROCESSES: "PROCESSES (fold (end_group_thread g own) is s) = PROCESSES s"
  by (induction "is" arbitrary: s) simp_all

lemma vm_inv_spawn: "vm_inv s \<Longrightarrow> vm_inv (snd (spawn_named slot nm s))"
  by (rule vm_inv_update [of s _ slot]) (auto simp: spawn_named_def Let_def regions_apart_empty)

lemma vm_inv_fork:
  assumes "vm_inv s" "shape s" "fork_current slot s = Done q s'"
  shows "vm_inv s'"
proof -
  obtain parent where p: "current_process s = Some parent"
    and s': "PROCESSES s' = (PROCESSES s)[slot := Some (process_fork_from parent (NEXT_PID s))]"
    using assms(3) by (auto simp: fork_current_def Let_def fold_fork_retain_PROCESSES split: option.splits)
  obtain g where "g < MAX_TASKS" "PROCESSES s ! g = Some parent"
    by (rule current_process_slot [OF assms(2) p])
  then have "Some parent \<in> set (PROCESSES s)"
    using assms(2) by (metis nth_mem shape_def)
  then have "regions_apart (vmas (process_fork_from parent (NEXT_PID s)))"
    using assms(1) by (auto simp: vm_inv_def vma_tables_def process_fork_from_def)
  then show ?thesis using vm_inv_update [OF assms(1) s'] by simp
qed

lemma vm_inv_reap: "vm_inv s \<Longrightarrow> vm_inv (snd (reap_slot slot s))"
  by (auto simp: reap_slot_def Let_def release_fds_PROCESSES intro: vm_inv_update [of s _ slot None]
      split: option.split)

lemma vm_inv_exit:
  assumes "vm_inv s"
  shows "vm_inv (snd (exit_thread code whole s))"
proof -
  have mut: "PROCESSES (current_thread_mut f s) = PROCESSES s" for f
    by (simp add: current_thread_mut_def split: option.split)
  show ?thesis
    by (auto simp: exit_thread_def Let_def mut end_group_PROCESSES split: option.split
        intro: vm_inv_same [OF assms] vm_inv_keep [OF assms])
qed

lemma vm_inv_switch:
  assumes "vm_inv s" "next_task_switch s = Done sw s'"
  shows "vm_inv s'"
proof (rule vm_inv_same [OF assms(1)])
  have "PROCESSES (snd (retire_current s)) = PROCESSES s"
    by (simp add: retire_current_def Let_def task_slot_reaped_def split: option.split)
  then show "PROCESSES s' = PROCESSES s"
    using assms(2) by (auto simp: next_task_switch_def Let_def split: option.splits prod.splits)
qed

lemma vm_inv_thread:
  assumes "vm_inv s" "spawn_thread_in_group slot c fsb s = Done q s'"
  shows "vm_inv s'"
  using assms(2)
  by (auto simp: spawn_thread_in_group_def Let_def intro: vm_inv_keep [OF assms(1)] split: option.splits)

section \<open>The memory system calls\<close>

text \<open>
  What the memory system calls need of an invariant of the kernel for all of them to keep it: it
  does not speak of physical memory, and it survives the changes to the process structure.
\<close>

locale mm_invariant =
  fixes I :: "kernel \<Rightarrow> bool"
  assumes phys: "I s \<Longrightarrow> phys.more s' = phys.more s \<Longrightarrow> I s'"
    and set_brk: "I s \<Longrightarrow> I (set_brk a s)"
    and reserve: "I s \<Longrightarrow> I (snd (reserve_mmap_base len s))"
    and alloc: "I s \<Longrightarrow> \<not> region_conflicts st len s \<Longrightarrow> I (snd (alloc_vma st len pr fl s))"
    and clear: "I s \<Longrightarrow> I (clear_vma i s)"
    and prot: "I s \<Longrightarrow> I (current_process_mut (\<lambda>p. p\<lparr>vmas := (vmas p)[j := (vmas p ! j)\<lparr>vma_prot := x\<rparr>]\<rparr>) s)"
begin

lemma leaves_map_page_in: "I s \<Longrightarrow> leaves I (map_page_in pml4 v f fl s)"
  by (rule map_page_in_outcome [of pml4 v f fl s]) (auto dest: more_map_page_in intro: phys)

lemma alloc_frame_I: "I s \<Longrightarrow> I (snd (alloc_frame s))"
  by (rule phys [OF _ more_alloc_frame])

lemma zero_frame_I: "I s \<Longrightarrow> I (zero_frame f s)"
  by (erule phys) (simp add: zero_frame_def)

lemma unmap_and_free_I: "I s \<Longrightarrow> I (unmap_and_free pml4 v s)"
  using more_unmap_page_in [of pml4 v s]
  by (auto simp: unmap_and_free_def more_free_frame intro: phys [of s] split: prod.split option.split)

lemma unmap_range_I: "I s \<Longrightarrow> I (unmap_range pml4 st len s)"
proof -
  have "I s \<Longrightarrow> I (fold (\<lambda>off. unmap_and_free pml4 (st + off)) offs s)" for offs
    by (induction offs arbitrary: s) (simp_all add: unmap_and_free_I)
  then show "I s \<Longrightarrow> I (unmap_range pml4 st len s)" by (simp add: unmap_range_def)
qed

lemma user_store_I: "I s \<Longrightarrow> leaves I (user_store bs va s)"
proof (induction bs arbitrary: va s)
  case (Cons b bs)
  have "I (s\<lparr>MEM := m\<rparr>)" for m by (rule phys [OF Cons.prems]) simp
  then show ?case using Cons by (auto split: option.split)
qed simp

lemma map_new_page_I:
  assumes "I s"
  shows "leaves I (map_new_page pml4 st len off flags seed s)"
proof -
  obtain frame s1 where a: "alloc_frame s = (frame, s1)" by (cases "alloc_frame s")
  have s1: "I s1" using alloc_frame_I [OF assms] by (simp add: a)
  have "leaves I (obind (user_store bs v (zero_frame frame t)) (\<lambda>_. Done (Some ())))" if "I t" for bs v t
    by (rule leaves_bind [OF user_store_I [OF zero_frame_I [OF that]]]) simp
  then have "leaves I (obind (map_page_in pml4 (st + off) frame flags s1) (\<lambda>_ s2.
      let s3 = zero_frame frame s2
      in case seed of
           None \<Rightarrow> Done (Some ()) s3
         | Some bytes \<Rightarrow>
             let src = min (unat off) (length bytes); fin = min (unat off + 0x1000) (length bytes)
             in if src < fin
                then obind (user_store (take (fin - src) (drop src bytes)) (st + off) s3) (\<lambda>_. Done (Some ()))
                else Done (Some ()) s3))"
    by (intro leaves_bind [OF leaves_map_page_in [OF s1]]) (simp add: Let_def zero_frame_I split: option.split)
  then show ?thesis
    using unmap_range_I [OF s1] by (simp add: map_new_page_def a Let_def clear)
qed

lemma mmap_loop_I: "I s \<Longrightarrow> leaves I (mmap_loop offs pml4 st len flags seed s)"
proof (induction offs arbitrary: s)
  case (Cons off offs)
  have "leaves I (map_new_page pml4 st len off flags seed s)" using Cons.prems by (rule map_new_page_I)
  then show ?case
    using Cons.IH by (auto simp: sys_err_def intro!: leaves_obind split: option.split)
qed (simp add: sys_ok_def)

lemma brk_loop_I:
  assumes "brk_loop page fin s = Some r" "I s"
  shows "leaves I r"
proof -
  have "I s \<longrightarrow> leaves I r"
  proof (rule brk_loop.raw_induct [OF _ assms(1)])
    fix rec :: "u64 \<Rightarrow> u64 \<Rightarrow> kernel \<Rightarrow> (kernel, bool) outcome option" and page fin s r
    assume IH: "\<And>page fin s r. rec page fin s = Some r \<Longrightarrow> I s \<longrightarrow> leaves I r"
      and step: "(if page < fin then
        (case alloc_frame s of
           (frame, s1) \<Rightarrow>
             if frame = 0 then Some (Done False s1)
             else case map_page_in (current_pml4 s1) page frame
                         \<lparr>mf_writable = True, mf_user = True, mf_executable = False\<rparr> s1 of
                    Done _ s2 \<Rightarrow> rec (page + 0x1000) fin (zero_frame frame s2)
                  | Panicked \<Rightarrow> Some Panicked
                  | Faulted s2 \<Rightarrow> Some (Faulted s2)
                  | Waiting s2 \<Rightarrow> Some (Waiting s2))
      else Some (Done True s)) = Some r"
    obtain frame s1 where a: "alloc_frame s = (frame, s1)" by (cases "alloc_frame s")
    show "I s \<longrightarrow> leaves I r"
    proof
      assume "I s"
      then have "I s1" using alloc_frame_I [of s] by (simp add: a)
      then show "leaves I r"
        using step \<open>I s\<close> IH zero_frame_I
          leaves_map_page_in [OF \<open>I s1\<close>, of "current_pml4 s1" page frame
            "\<lparr>mf_writable = True, mf_user = True, mf_executable = False\<rparr>"]
        by (auto simp: a split: if_splits outcome.splits)
    qed
  qed
  then show ?thesis using assms(2) by blast
qed

lemma brk_I: "preserves I (sys_brk addr)"
proof -
  have "leaves I (brk_impl addr s)" if s: "I s" for s
  proof (cases "brk_loop (page_align_up (current_brk s)) (page_align_up addr) s")
    case None
    then show ?thesis using s by (simp add: brk_impl_def Let_def sys_ok_def set_brk)
  next
    case (Some r)
    have "leaves I (obind r (\<lambda>ok s1. if ok then sys_ok addr (set_brk addr s1) else sys_ok (current_brk s) s1))"
      by (rule leaves_bind [OF brk_loop_I [OF Some s]]) (simp add: sys_ok_def set_brk)
    then show ?thesis using s Some by (simp add: brk_impl_def Let_def sys_ok_def set_brk)
  qed
  then show ?thesis unfolding sys_brk_def by (intro preserves_done) (simp add: preserves_def)
qed

lemma guarded_alloc_I:
  assumes "\<And>u. preserves I (k u)"
  shows "preserves I (sys_seq (\<lambda>s. ensure (\<not> region_conflicts st len s) Invalid s)
    (\<lambda>_. sys_seq (sys_test (alloc_vma st len pr fl) Invalid) k))"
proof -
  have "leaves I (sys_seq (sys_test (alloc_vma st len pr fl) Invalid) k s)"
    if "I s" "\<not> region_conflicts st len s" for s
    using alloc [OF that, of pr fl] assms
    by (simp add: sys_seq_def sys_test_def sbind_def preserves_def split_beta)
  then show ?thesis
    by (simp add: preserves_def sys_seq_def sbind_def ensure_def)
qed

lemma mmap_start_I: "preserves I (mmap_start addr len flags)"
  unfolding mmap_start_def Let_def
  by (intro keep_rules preserves_take reserve) (simp_all add: preserves_def ensure_def)

lemma file_seed_I: "preserves I (file_seed anon fd off len)"
  by (simp add: preserves_def file_seed_def sys_ok_def sys_err_def split: option.split descriptor_info.split)

lemma mmap_I: "preserves I (sys_mmap addr len prot flags fd off)"
  unfolding sys_mmap_def mmap_impl_def Let_def
  by (intro keep_rules preserves_done guarded_alloc_I mmap_start_I file_seed_I)
    (simp_all add: preserves_def mmap_loop_I)

lemma munmap_I: "preserves I (sys_munmap addr len)"
  unfolding sys_munmap_def munmap_impl_def Let_def
  by (intro keep_rules preserves_done preserves_modify clear unmap_range_I)

lemma protect_pages_I: "I s \<Longrightarrow> I (snd (protect_pages offs pml4 st fl s))"
proof (induction offs arbitrary: s)
  case (Cons off offs)
  obtain b t where e: "protect_page_in pml4 (st + off) fl s = (b, t)" by (cases "protect_page_in pml4 (st + off) fl s")
  then have "I t" using phys [OF Cons.prems more_protect_page_in [of pml4 "st + off" fl s]] by simp
  then show ?case using Cons.IH by (cases b) (simp_all add: e)
qed simp

lemma mprotect_I: "preserves I (sys_mprotect addr len prot)"
proof -
  have "preserves I (\<lambda>s. sys_test (protect_pages offs (current_pml4 s) st fl) Invalid s)" for offs st fl
    by (simp add: preserves_def sys_test_def split_beta protect_pages_I)
  then show ?thesis
    unfolding sys_mprotect_def mprotect_impl_def Let_def
    by (intro keep_rules preserves_done preserves_modify prot)
qed

end

section \<open>The calls keep both invariants\<close>

lemma fd_inv_phys:
  assumes "fd_inv s" "phys.more s' = phys.more s"
  shows "fd_inv s'"
proof (rule fd_inv_quiet [OF assms(1)])
  have "OPEN_FILES s' = OPEN_FILES s" "PIPES s' = PIPES s"
    using assms(2) by (cases s, cases s', simp)+
  then show "quiet s s'"
    using kernel_more [OF assms(2)] by (simp add: quiet_def same_refs_def)
qed

lemma fd_inv_mut:
  assumes "fd_inv s" "\<And>p. fds (f p) = fds p \<and> fd_flags (f p) = fd_flags p"
  shows "fd_inv (current_process_mut f s)"
proof -
  have "same_refs s (current_process_mut f s)"
    using assms(2)
    by (auto simp: current_process_mut_def fd_table_def split: option.split intro!: same_refs_process)
  then show ?thesis
    by (intro fd_inv_quiet [OF assms(1)])
      (simp add: quiet_def only_processes_same [OF only_processes_mut])
qed

interpretation fd_mm: mm_invariant fd_inv
proof
  show "fd_inv s \<Longrightarrow> phys.more s' = phys.more s \<Longrightarrow> fd_inv s'" for s s' :: kernel
    by (rule fd_inv_phys)
  show "fd_inv s \<Longrightarrow> fd_inv (set_brk a s)" for s a
    unfolding set_brk_def by (rule fd_inv_mut) simp_all
  show "fd_inv s \<Longrightarrow> fd_inv (snd (reserve_mmap_base len s))" for s len
    by (auto simp: reserve_mmap_base_def Let_def intro: fd_inv_mut split: option.split)
  show "fd_inv s \<Longrightarrow> fd_inv (snd (alloc_vma st len pr fl s))" for s st len pr fl
    by (auto simp: alloc_vma_def set_vma_def intro: fd_inv_mut split: option.split)
  show "fd_inv s \<Longrightarrow> fd_inv (clear_vma i s)" for s i
    by (auto simp: clear_vma_def set_vma_def intro!: fd_inv_mut split: option.split)
  show "fd_inv s \<Longrightarrow> fd_inv (current_process_mut (\<lambda>p. p\<lparr>vmas := (vmas p)[j := (vmas p ! j)\<lparr>vma_prot := x\<rparr>]\<rparr>) s)"
    for s j x by (rule fd_inv_mut) simp_all
qed

lemma vm_inv_alloc:
  assumes "vm_inv s" "\<not> region_conflicts st len s"
  shows "vm_inv (snd (alloc_vma st len pr fl s))"
proof (cases "current_process s")
  case None
  then show ?thesis using assms(1) by (simp add: alloc_vma_def)
next
  case (Some p)
  have "regions_apart (vmas (set_vma i (vm_region_new st len pr fl) p))" if "regions_apart (vmas p)" for i
    unfolding set_vma_def using assms(2) Some
    by (auto intro!: regions_apart_update [OF that] simp: region_conflicts_def list_ex_iff vm_region_new_def)
  then have "vm_inv (current_process_mut (set_vma i (vm_region_new st len pr fl)) s)" for i
    by (intro vm_inv_mut [OF assms(1)]) (use Some in simp)
  then show ?thesis using assms(1) Some by (simp add: alloc_vma_def split: option.split)
qed

interpretation vm_mm: mm_invariant vm_inv
proof
  show "vm_inv s \<Longrightarrow> phys.more s' = phys.more s \<Longrightarrow> vm_inv s'" for s s' :: kernel
    using kernel_more(1) vm_inv_same by blast
  show "vm_inv s \<Longrightarrow> vm_inv (set_brk a s)" for s a
    unfolding set_brk_def by (rule vm_inv_mut) simp_all
  show "vm_inv s \<Longrightarrow> vm_inv (snd (reserve_mmap_base len s))" for s len
    by (auto simp: reserve_mmap_base_def Let_def intro: vm_inv_mut split: option.split)
  show "vm_inv s \<Longrightarrow> vm_inv (clear_vma i s)" for s i
    by (auto simp: clear_vma_def set_vma_def vm_region_empty_def intro!: vm_inv_mut regions_apart_update
        split: option.split)
  show "vm_inv s \<Longrightarrow> vm_inv (current_process_mut (\<lambda>p. p\<lparr>vmas := (vmas p)[j := (vmas p ! j)\<lparr>vma_prot := x\<rparr>]\<rparr>) s)"
    for s j x by (rule vm_inv_mut) (simp_all add: regions_apart_prot)
qed (rule vm_inv_alloc)

section \<open>Every reachable state\<close>

inductive vm_step :: "kernel \<Rightarrow> kernel \<Rightarrow> bool" where
  st_brk: "sys_brk addr s = Done r s' \<Longrightarrow> vm_step s s'"
| st_mmap: "sys_mmap addr len prot flags fd off s = Done r s' \<Longrightarrow> vm_step s s'"
| st_munmap: "sys_munmap addr len s = Done r s' \<Longrightarrow> vm_step s s'"
| st_mprotect: "sys_mprotect addr len prot s = Done r s' \<Longrightarrow> vm_step s s'"
| st_spawn: "slot < MAX_TASKS \<Longrightarrow> PROCESSES s ! slot = None \<Longrightarrow> vm_step s (snd (spawn_named slot nm s))"
| st_fork: "slot < MAX_TASKS \<Longrightarrow> PROCESSES s ! slot = None \<Longrightarrow> fork_current slot s = Done q s' \<Longrightarrow> vm_step s s'"
| st_thread: "slot < MAX_TASKS \<Longrightarrow> spawn_thread_in_group slot c fsb s = Done q s' \<Longrightarrow> vm_step s s'"
| st_exit: "vm_step s (snd (exit_thread code whole s))"
| st_switch: "next_task_switch s = Done sw s' \<Longrightarrow> vm_step s s'"
| st_reap: "slot < MAX_TASKS \<Longrightarrow> vm_step s (snd (reap_slot slot s))"

lemma preserves_Done: "preserves I m \<Longrightarrow> I s \<Longrightarrow> m s = Done r s' \<Longrightarrow> I s'"
  by (metis leaves.simps(1) preservesD)

lemma vm_step_fd_inv: "vm_step s s' \<Longrightarrow> fd_inv s \<Longrightarrow> fd_inv s'"
proof (induction rule: vm_step.induct)
  case (st_brk addr s r s')
  show ?case by (rule preserves_Done [OF fd_mm.brk_I st_brk(2,1)])
next
  case (st_mmap addr len prot flags fd off s r s')
  show ?case by (rule preserves_Done [OF fd_mm.mmap_I st_mmap(2,1)])
next
  case (st_munmap addr len s r s')
  show ?case by (rule preserves_Done [OF fd_mm.munmap_I st_munmap(2,1)])
next
  case (st_mprotect addr len prot s r s')
  show ?case by (rule preserves_Done [OF fd_mm.mprotect_I st_mprotect(2,1)])
next
  case (st_spawn slot s nm)
  then show ?case by (intro fd_step_inv [OF fd_step.st_spawn])
next
  case (st_fork slot s q s')
  show ?case by (rule fd_step_inv [OF fd_step.st_fork [OF st_fork(1-3)] st_fork(4)])
next
  case (st_thread slot c fsb s q s')
  show ?case by (rule fd_step_inv [OF fd_step.st_thread [OF st_thread(1,2)] st_thread(3)])
next
  case (st_exit s code whole)
  then show ?case by (rule fd_step_inv [OF fd_step.st_exit])
next
  case (st_switch s sw s')
  show ?case by (rule fd_step_inv [OF fd_step.st_switch [OF st_switch(1)] st_switch(2)])
next
  case (st_reap slot s)
  then show ?case by (intro fd_step_inv [OF fd_step.st_reap])
qed

lemma vm_step_vm_inv: "vm_step s s' \<Longrightarrow> fd_inv s \<Longrightarrow> vm_inv s \<Longrightarrow> vm_inv s'"
proof (induction rule: vm_step.induct)
  case (st_brk addr s r s')
  show ?case by (rule preserves_Done [OF vm_mm.brk_I st_brk(3,1)])
next
  case (st_mmap addr len prot flags fd off s r s')
  show ?case by (rule preserves_Done [OF vm_mm.mmap_I st_mmap(3,1)])
next
  case (st_munmap addr len s r s')
  show ?case by (rule preserves_Done [OF vm_mm.munmap_I st_munmap(3,1)])
next
  case (st_mprotect addr len prot s r s')
  show ?case by (rule preserves_Done [OF vm_mm.mprotect_I st_mprotect(3,1)])
next
  case (st_fork slot s q s')
  have "shape s" using st_fork(4) by (simp add: fd_inv_def)
  then show ?case by (rule vm_inv_fork [OF st_fork(5) _ st_fork(3)])
next
  case (st_thread slot c fsb s q s')
  show ?case by (rule vm_inv_thread [OF st_thread(4,2)])
next
  case (st_switch s sw s')
  show ?case by (rule vm_inv_switch [OF st_switch(3,1)])
qed (rule vm_inv_spawn vm_inv_exit vm_inv_reap, assumption)+

lemma vm_steps_inv: "vm_step\<^sup>*\<^sup>* s s' \<Longrightarrow> fd_inv s \<and> vm_inv s \<Longrightarrow> fd_inv s' \<and> vm_inv s'"
  by (induction rule: rtranclp_induct) (auto intro: vm_step_fd_inv vm_step_vm_inv)

lemma vm_inv_statics: "vm_inv (kernel_statics p m)"
  by (auto simp: vm_inv_def vma_tables_def)

text \<open>C3: in every state the kernel reaches from its initial tables by the memory system calls and by
  creating, forking, ending, scheduling and reaping processes, an address belongs to at most one
  memory region of a process.\<close>

theorem regions_never_overlap:
  assumes "vm_step\<^sup>*\<^sup>* (kernel_statics p m) s" "Some q \<in> set (PROCESSES s)"
    and "i < length (vmas q)" "j < length (vmas q)" "in_region a (vmas q ! i)" "in_region a (vmas q ! j)"
  shows "i = j"
proof -
  have "vm_inv s" using vm_steps_inv [OF assms(1)] fd_inv_statics vm_inv_statics by blast
  then have "regions_apart (vmas q)" using assms(2) by (auto simp: vm_inv_def vma_tables_def)
  then show ?thesis by (rule regions_apart_address [OF _ assms(3-6)])
qed

text \<open>The first mapping of a new process: one page at \<open>MMAP_BASE\<close>.\<close>

definition new_base :: "kernel \<Rightarrow> kernel" where
  "new_base s = current_process_mut (next_mmap_base_update (\<lambda>_. MMAP_BASE + 0x1000)) s"

definition new_region :: "u32 \<Rightarrow> kernel \<Rightarrow> kernel" where
  "new_region flags s = current_process_mut (set_vma 0 (vm_region_new MMAP_BASE 0x1000 3 flags)) (new_base s)"

definition fresh :: "kernel \<Rightarrow> bool" where
  "fresh s \<longleftrightarrow> fd_inv s \<and> (\<exists>p. current_process s = Some p \<and> fds p = default_fds \<and>
     vmas p = replicate MAX_VMAS vm_region_empty \<and> next_mmap_base p = MMAP_BASE)"

lemma current_process_mut_process:
  "fd_inv s \<Longrightarrow> current_process s = Some p \<Longrightarrow> current_process (current_process_mut f s) = Some (f p)"
  by (metis current_process_slot fd_inv_def)

lemma new_region_process:
  assumes "fresh s"
  obtains q where "current_process (new_region flags s) = Some q" "Some q \<in> set (PROCESSES (new_region flags s))"
    "fds q = default_fds" "vmas q = (replicate MAX_VMAS vm_region_empty)[0 := vm_region_new MMAP_BASE 0x1000 3 flags]"
proof -
  obtain p where p: "current_process s = Some p" "fds p = default_fds" "vmas p = replicate MAX_VMAS vm_region_empty"
    and inv: "fd_inv s" using assms by (auto simp: fresh_def)
  have inv1: "fd_inv (new_base s)" unfolding new_base_def by (rule fd_inv_mut [OF inv]) simp
  have p1: "current_process (new_base s) = Some (p\<lparr>next_mmap_base := MMAP_BASE + 0x1000\<rparr>)"
    unfolding new_base_def using current_process_mut_process [OF inv p(1)] by simp
  have inv2: "fd_inv (new_region flags s)"
    unfolding new_region_def by (rule fd_inv_mut [OF inv1]) (simp add: set_vma_def)
  have q: "current_process (new_region flags s) =
      Some (set_vma 0 (vm_region_new MMAP_BASE 0x1000 3 flags) (p\<lparr>next_mmap_base := MMAP_BASE + 0x1000\<rparr>))"
    (is "_ = Some ?q")
    unfolding new_region_def by (rule current_process_mut_process [OF inv1 p1])
  have sh: "shape (new_region flags s)" using inv2 by (simp add: fd_inv_def)
  obtain g where "g < MAX_TASKS" "PROCESSES (new_region flags s) ! g = Some ?q"
    by (rule current_process_slot [OF sh q])
  then have "Some ?q \<in> set (PROCESSES (new_region flags s))" using sh by (metis nth_mem shape_def)
  then show thesis using that q p by (simp add: set_vma_def)
qed

lemma fresh_mmap:
  assumes "fresh s"
  shows "reserve_mmap_base 0x1000 s = (Some MMAP_BASE, new_base s)"
    "\<not> region_conflicts MMAP_BASE 0x1000 (new_base s)"
    "alloc_vma MMAP_BASE 0x1000 3 flags (new_base s) = (True, new_region flags s)"
proof -
  obtain p where p: "current_process s = Some p" "vmas p = replicate MAX_VMAS vm_region_empty"
    "next_mmap_base p = MMAP_BASE" and inv: "fd_inv s" using assms by (auto simp: fresh_def)
  have p1: "current_process (new_base s) = Some (p\<lparr>next_mmap_base := MMAP_BASE + 0x1000\<rparr>)"
    unfolding new_base_def using current_process_mut_process [OF inv p(1)] by simp
  show "reserve_mmap_base 0x1000 s = (Some MMAP_BASE, new_base s)"
    by (simp add: reserve_mmap_base_def p checked_add_def MMAP_BASE_def new_base_def)
  show "\<not> region_conflicts MMAP_BASE 0x1000 (new_base s)"
    by (auto simp: region_conflicts_def list_ex_iff vm_region_empty_def p1 p(2))
  have "position (\<lambda>v. \<not> vma_in_use v) (replicate MAX_VMAS vm_region_empty) = Some 0"
    by (simp add: position_Some_iff MAX_VMAS_def vm_region_empty_def)
  then show "alloc_vma MMAP_BASE 0x1000 3 flags (new_base s) = (True, new_region flags s)"
    by (simp add: alloc_vma_def new_region_def p1 p(2))
qed

lemma fresh_example: "fresh fd_example"
  unfolding fresh_def using fd_step_inv [OF fd_example_step fd_inv_statics] fd_example_process by simp

lemma vm_example_mmap: "sys_mmap 0 0x1000 3 2 0 0 fd_example = Done (errno BadFd) (new_region 2 fd_example)"
proof -
  obtain q where "current_process (new_region 2 fd_example) = Some q" "fds q = default_fds"
    by (rule new_region_process [OF fresh_example])
  then have "fd_descriptor_info 0 (new_region 2 fd_example) = Some (DStdio 0)"
    by (simp add: fd_descriptor_info_def get_fd_target_def MAX_FDS_def default_fds_def)
  then show ?thesis
    using fresh_mmap [OF fresh_example]
    by (simp add: sys_mmap_def sys_done_def mmap_impl_def sys_defs sbind_def sys_result_defs mmap_start_def
        file_seed_def mm_consts page_align_up_def Let_def sys_ret_def)
qed

text \<open>
  The region that \<^verbatim>\<open>mmap\<close> records before it finds out that the descriptor is not a file.
\<close>

theorem regions_never_overlap_witness:
  "\<exists>s q. vm_step\<^sup>*\<^sup>* (kernel_statics pmm_new (\<lambda>_. 0)) s \<and> Some q \<in> set (PROCESSES s) \<and>
     in_region MMAP_BASE (vmas q ! 0) \<and> (\<forall>j < length (vmas q). in_region MMAP_BASE (vmas q ! j) \<longrightarrow> 0 = j)"
proof -
  have "vm_step (kernel_statics pmm_new (\<lambda>_. 0)) fd_example"
    unfolding fd_example_def by (rule vm_step.st_spawn) (simp_all add: MAX_TASKS_def)
  moreover have "vm_step fd_example (new_region 2 fd_example)" by (rule vm_step.st_mmap [OF vm_example_mmap])
  ultimately have run: "vm_step\<^sup>*\<^sup>* (kernel_statics pmm_new (\<lambda>_. 0)) (new_region 2 fd_example)"
    by (meson r_into_rtranclp rtranclp_trans)
  obtain q where q: "Some q \<in> set (PROCESSES (new_region 2 fd_example))"
    "vmas q = (replicate MAX_VMAS vm_region_empty)[0 := vm_region_new MMAP_BASE 0x1000 3 2]"
    by (rule new_region_process [OF fresh_example])
  have "0 < length (vmas q)" "in_region MMAP_BASE (vmas q ! 0)"
    by (simp_all add: q(2) MAX_VMAS_def in_region_def vm_region_new_def saturating_add_def MMAP_BASE_def)
  then show ?thesis using regions_never_overlap [OF run q(1)] run q(1) by blast
qed

section \<open>What a call to mmap does\<close>

lemma shape_mut:
  assumes "shape s" "\<And>p. fds (f p) = fds p \<and> fd_flags (f p) = fd_flags p"
  shows "shape (current_process_mut f s)"
proof (cases "current_process s")
  case None
  then have "current_process_mut f s = s"
    by (auto simp: current_process_mut_def current_process_def split: option.splits)
  then show ?thesis using assms(1) by simp
next
  case (Some p)
  obtain g where g: "length (fds p) = MAX_FDS" "length (fd_flags p) = MAX_FDS"
    "current_process_mut f s = s\<lparr>PROCESSES := (PROCESSES s)[g := Some (f p)]\<rparr>"
    by (rule current_process_slot [OF assms(1) Some]) blast
  show ?thesis by (rule shape_process [OF assms(1), of _ g "Some (f p)"]) (use g assms(2) in auto)
qed

lemma mmap_start_shape:
  assumes "mmap_start addr len flags s = Done (Inr st) s1" "shape s"
  shows "shape s1"
  using assms
  by (auto simp: mmap_start_def sys_seq_ok_iff ensure_ok_iff Let_def sys_take_def sys_ok_def
      reserve_mmap_base_def sys_option_def intro: shape_mut split: if_splits prod.splits option.splits)

lemma sys_test_ok_iff: "sys_test f e s = Done (Inr u) t \<longleftrightarrow> f s = (True, t)"
  by (auto simp: sys_test_def split: prod.splits if_splits)

text \<open>The state in which \<^verbatim>\<open>mmap\<close> starts to map pages.\<close>

lemma mmap_impl_ok:
  assumes "mmap_impl addr len prot flags fd off s = Done (Inr a) s'" "flags AND MAP_ANONYMOUS \<noteq> 0" "shape s"
  obtains st s2 where "only_processes s s2" "find_vma_exact st (page_align_up len) s2 \<noteq> None"
    "mmap_loop (page_offsets (page_align_up len)) (current_pml4 s2) st (page_align_up len) (map_flags_from_prot prot)
       None s2 = Done (Inr a) s'"
proof -
  obtain st s1 s2 where st: "mmap_start addr (page_align_up len) flags s = Done (Inr st) s1"
    and al: "alloc_vma st (page_align_up len) prot flags s1 = (True, s2)"
    and loop: "mmap_loop (page_offsets (page_align_up len)) (current_pml4 s2) st (page_align_up len)
       (map_flags_from_prot prot) None s2 = Done (Inr a) s'"
    using assms(1,2)
    by (auto simp: mmap_impl_def sys_seq_ok_iff ensure_ok_iff sys_test_ok_iff Let_def file_seed_def sys_ok_def)
  have "only_processes s s2"
    by (rule only_processes_trans [OF mmap_start_ok [OF st] only_processes_alloc_vma [OF al]])
  moreover have "find_vma_exact st (page_align_up len) s2 \<noteq> None"
    by (rule alloc_vma_records [OF mmap_start_shape [OF st assms(3)] al])
  ultimately show thesis using that loop by blast
qed

lemma mmap_loop_address: "mmap_loop offs pml4 st len flags seed s = Done (Inr a) s' \<Longrightarrow> a = st"
  by (induction offs arbitrary: s) (auto simp: sys_ok_def sys_err_def obind_Done_iff split: option.splits)

text \<open>C4: when an anonymous \<^verbatim>\<open>mmap\<close> returns an address, every page of the range from there is mapped
  with the requested protection to a frame of its own that was free before and holds only zeros,
  every other page of the address space keeps its mapping and every byte of memory in use its
  value, and the region is recorded in the process; of the tables of the kernel, only that of the
  processes changed.\<close>

theorem mmap_anonymous_correct:
  assumes "mmap_impl addr len prot flags fd off s = Done (Inr st) s'" "flags AND MAP_ANONYMOUS \<noteq> 0"
    and "shape s" "aspace_inv s (current_pml4 s)" "pmm_inv (PMM s)" "unat (page_align_up len) \<le> 2 ^ 48"
    and "\<forall>off \<in> set (page_offsets (page_align_up len)). \<not> huge_at (MEM s) (current_pml4 s) (st + off)"
  shows "find_vma_exact st (page_align_up len) s' \<noteq> None \<and>
    (\<exists>fs. range_mapped (current_pml4 s) st (page_offsets (page_align_up len)) (map_flags_from_prot prot) fs
       (s\<lparr>PROCESSES := PROCESSES s'\<rparr>) s')"
proof -
  obtain st2 s2 where s2: "only_processes s s2" "find_vma_exact st2 (page_align_up len) s2 \<noteq> None"
    and loop: "mmap_loop (page_offsets (page_align_up len)) (current_pml4 s2) st2 (page_align_up len)
       (map_flags_from_prot prot) None s2 = Done (Inr st) s'"
    by (rule mmap_impl_ok [OF assms(1-3)])
  note same = only_processes_same [OF s2(1)]
  have [simp]: "st2 = st" using mmap_loop_address [OF loop] by simp
  have pml4 [simp]: "current_pml4 s2 = current_pml4 s" by (simp add: current_pml4_def same split: option.split)
  have inv: "aspace_inv s2 (current_pml4 s)" using assms(4) by (simp only: aspace_inv_def same)
  obtain fs where fs: "range_mapped (current_pml4 s) st (page_offsets (page_align_up len)) (map_flags_from_prot prot) fs s2 s'"
    using mmap_loop_ok [OF inv _ _ page_offsets_apart [OF assms(6)] loop [simplified]] assms(5,7)
    by (auto simp: same)
  then have more: "phys.more s' = phys.more s2" by (simp add: range_mapped_def)
  have "s\<lparr>PROCESSES := PROCESSES s'\<rparr> = s2"
    using s2(1) kernel_more(1) [OF more] by (simp add: only_processes_def)
  moreover have "find_vma_exact st (page_align_up len) s' \<noteq> None"
    using s2(2) current_more [OF more] by (simp add: find_vma_exact_def)
  ultimately show ?thesis using fs by auto
qed

lemma map_new_page_succeeds:
  assumes inv: "aspace_inv s pml4" "pmm_inv (PMM s)" and huge: "\<not> huge_at (MEM s) pml4 (st + off)"
    and room: "4 \<le> card (free_set (PMM s))"
  shows "\<exists>s'. map_new_page pml4 st len off flags None s = Done (Some ()) s'"
  using inv
proof (cases rule: take_frame)
  case oom
  with room show ?thesis by simp
next
  case (ok f s1)
  then have inv1: "aspace_inv s1 pml4" "pmm_inv (PMM s1)" by (simp_all add: extends_def)
  have room1: "3 \<le> card (free_set (PMM s1))" using ok(2,6) room by (simp add: card_Diff_singleton)
  from inv1 show ?thesis
  proof (cases rule: map_page_in_cases [where v = "st + off" and phys = "frame_addr f" and flags = flags])
    case oom
    with room1 show ?thesis by simp
  qed (use ok in \<open>simp_all add: map_new_page_def Let_def\<close>)
qed

definition mm_example :: kernel where
  "mm_example = fd_example\<lparr>PMM := PMM pmm_example, KERNEL_PML4 := frame_addr 300\<rparr>"

lemma mm_example_phys:
  "aspace_inv mm_example (frame_addr 300)" "pmm_inv (PMM mm_example)" "card (free_set (PMM mm_example)) = 200"
  "\<not> huge_at (MEM mm_example) (frame_addr 300) v"
proof -
  have m: "MEM mm_example = MEM aspace_example" "PMM mm_example = PMM aspace_example"
    by (simp_all add: mm_example_def fd_example_def spawn_named_def Let_def aspace_example_def)
  show "aspace_inv mm_example (frame_addr 300)"
    using aspace_example_inv(1) by (simp only: aspace_inv_def m)
  show "pmm_inv (PMM mm_example)" unfolding m by (rule aspace_example_inv(2))
  show "\<not> huge_at (MEM mm_example) (frame_addr 300) v" unfolding m by (rule aspace_example_inv(4))
  have "PMM mm_example = PMM pmm_example" by (simp add: mm_example_def)
  then show "card (free_set (PMM mm_example)) = 200" by (simp only: pmm_example_free card_atLeastLessThan)
qed

lemma mm_example_fresh: "fresh mm_example"
proof -
  have "fd_inv mm_example"
    by (rule fd_inv_quiet [of fd_example])
      (use fresh_example in \<open>simp_all add: fresh_def quiet_def same_refs_def mm_example_def\<close>)
  moreover have "current_process mm_example = current_process fd_example"
    by (simp add: current_process_def current_thread_def current_task_slot_def mm_example_def split: option.split)
  ultimately show ?thesis using fresh_example by (simp add: fresh_def)
qed

lemma mm_example_pml4: "current_pml4 mm_example = frame_addr 300"
  by (simp add: current_pml4_def mm_example_def fd_example_def spawn_named_def Let_def MAX_TASKS_def)

lemma mm_example_mmap:
  "\<exists>s'. mmap_impl 0 0x1000 3 0x22 (- 1) 0 mm_example = Done (Inr MMAP_BASE) s'"
proof -
  let ?s = "new_region 0x22 mm_example"
  have same: "only_processes mm_example ?s"
    unfolding new_region_def new_base_def by (rule only_processes_trans [OF only_processes_mut only_processes_mut])
  note fields = only_processes_same [OF same]
  have pml4: "current_pml4 ?s = frame_addr 300"
    using mm_example_pml4 by (simp only: current_pml4_def fields)
  have "aspace_inv ?s (frame_addr 300)"
    using mm_example_phys(1) by (simp only: aspace_inv_def fields)
  then obtain s' where "map_new_page (frame_addr 300) MMAP_BASE 0x1000 0 (map_flags_from_prot 3) None ?s = Done (Some ()) s'"
    using map_new_page_succeeds [of ?s "frame_addr 300" MMAP_BASE 0 "0x1000" "map_flags_from_prot 3"] mm_example_phys
    by (auto simp: fields)
  then show ?thesis
    using fresh_mmap [OF mm_example_fresh] pml4
    by (simp add: mmap_impl_def sys_defs sbind_def sys_result_defs mmap_start_def page_offsets_def
        file_seed_def mm_consts page_align_up_def Let_def sys_ret_def)
qed

theorem mmap_anonymous_correct_witness:
  "\<exists>s' f. mmap_impl 0 0x1000 3 0x22 (- 1) 0 mm_example = Done (Inr MMAP_BASE) s' \<and>
     leaf_entry (MEM s') (frame_addr 300) MMAP_BASE = Some (False, leaf_of f (map_flags_from_prot 3))"
proof -
  obtain s' where s': "mmap_impl 0 0x1000 3 0x22 (- 1) 0 mm_example = Done (Inr MMAP_BASE) s'"
    using mm_example_mmap by blast
  have l: "page_align_up 0x1000 = 0x1000" "page_offsets 0x1000 = [0]"
    by (simp_all add: page_align_up_def page_offsets_def)
  have sh: "shape mm_example" using mm_example_fresh by (simp add: fresh_def fd_inv_def)
  show ?thesis
    using mmap_anonymous_correct [OF s' _ sh] mm_example_phys s'
    by (auto simp: mm_example_pml4 l mm_consts range_mapped_def)
qed

end
