(* ===== verification/Console.thy ===== *)
theory Console
  imports Pmm
begin

text \<open>
  The text console on the framebuffer (\<^verbatim>\<open>drivers/vga/mod.rs\<close>, \<^verbatim>\<open>drivers/vga/console.rs\<close>): the
  glyph renderer, rectangles, the cursor of user output with its control characters, and the window
  size. A pixel is a 32-bit cell of the framebuffer, numbered from its base; the font is the bytes
  from its base on. Every write to the framebuffer is shown to stay on the screen.
\<close>

unbundle bit_operations_syntax

definition BG_COLOR :: u32 where "BG_COLOR = 0xFF1A161F"
definition TEXT_COLOR :: u32 where "TEXT_COLOR = 0xFFE6E1CF"
definition CLOCK_COLOR :: u32 where "CLOCK_COLOR = 0xFFF5C2E7"

record console =
  FB_BASE :: usize
  FB_PITCH :: usize
  FB_WIDTH :: usize
  FB_HEIGHT :: usize
  FONT_BASE :: usize
  USERSPACE_CURSOR_X :: usize
  USERSPACE_CURSOR_Y :: usize
  GLOBAL_SCALE :: usize
  PIXELS :: "usize \<Rightarrow> u32"
  FONT :: "usize \<Rightarrow> u8"

definition console_statics :: "(usize \<Rightarrow> u32) \<Rightarrow> (usize \<Rightarrow> u8) \<Rightarrow> console" where
  "console_statics px font =
     \<lparr>FB_BASE = 0, FB_PITCH = 0, FB_WIDTH = 0, FB_HEIGHT = 0, FONT_BASE = 0, USERSPACE_CURSOR_X = 20,
      USERSPACE_CURSOR_Y = 0, GLOBAL_SCALE = 1, PIXELS = px, FONT = font\<rparr>"

definition init_global :: "boot_info \<Rightarrow> console \<Rightarrow> console" where
  "init_global b c =
     c\<lparr>FB_BASE := bi_fb_base b, FB_PITCH := ucast (bi_pitch b), FB_WIDTH := ucast (bi_width b),
       FB_HEIGHT := ucast (bi_height b), FONT_BASE := bi_font_base b\<rparr>"

section \<open>Drawing\<close>

definition plot :: "usize \<Rightarrow> usize \<Rightarrow> usize \<Rightarrow> u32 \<Rightarrow> console \<Rightarrow> console" where
  "plot fb_pitch px py color c = c\<lparr>PIXELS := (PIXELS c)(py * fb_pitch + px := color)\<rparr>"

text \<open>A little-endian word of the font header.\<close>

definition font_u32 :: "console \<Rightarrow> usize \<Rightarrow> usize" where
  "font_u32 c off = ucast (from_le_bytes [FONT c off, FONT c (off + 1), FONT c (off + 2), FONT c (off + 3)] :: u32)"

text \<open>The two loops over the pixels of one bit of a glyph.\<close>

definition plot_clamped :: "usize \<Rightarrow> usize \<Rightarrow> usize \<Rightarrow> u32 \<Rightarrow> console \<Rightarrow> console" where
  "plot_clamped fb_pitch px py color c =
     (if px \<ge> FB_WIDTH c \<or> py \<ge> FB_HEIGHT c then c else plot fb_pitch px py color c)"

definition plot_cell :: "usize \<Rightarrow> usize \<Rightarrow> usize \<Rightarrow> u32 \<Rightarrow> usize \<Rightarrow> console \<Rightarrow> console" where
  "plot_cell fb_pitch px py color scale =
     fold (\<lambda>(sy, sx). plot_clamped fb_pitch (px + of_nat sx) (py + of_nat sy) color)
       (List.product [0..<unat scale] [0..<unat scale])"

text \<open>
  One row of a glyph. The mask is a byte, so that the shift of \<^verbatim>\<open>0x80\<close> by a bit number of 8 or more
  shifts by its remainder.
\<close>

definition glyph_row :: "usize \<Rightarrow> usize \<Rightarrow> usize \<Rightarrow> u32 \<Rightarrow> usize \<Rightarrow> usize \<Rightarrow> u8 \<Rightarrow> console \<Rightarrow> console" where
  "glyph_row fb_pitch x py color scale font_width bitmask =
     fold (\<lambda>i c. if bitmask AND drop_bit (i mod 8) 0x80 \<noteq> 0
                 then plot_cell fb_pitch (x + of_nat i * scale) py color scale c else c) [0..<unat font_width]"

primrec glyph_rows ::
  "nat list \<Rightarrow> usize \<Rightarrow> usize \<Rightarrow> usize \<Rightarrow> u32 \<Rightarrow> usize \<Rightarrow> usize \<Rightarrow> usize \<Rightarrow> console \<Rightarrow> console" where
  "glyph_rows [] fb_pitch x y color scale font_width glyph c = c"
| "glyph_rows (row # rows) fb_pitch x y color scale font_width glyph c =
     (let py = y + of_nat row * scale
      in if py \<ge> FB_HEIGHT c then c
         else glyph_rows rows fb_pitch x y color scale font_width glyph
                (glyph_row fb_pitch x py color scale font_width (FONT c (glyph + of_nat row)) c))"

definition putchar_raw ::
  "usize \<Rightarrow> usize \<Rightarrow> usize \<Rightarrow> u32 \<Rightarrow> usize \<Rightarrow> usize \<Rightarrow> usize \<Rightarrow> usize \<Rightarrow> console \<Rightarrow> console" where
  "putchar_raw ch x y color scale base fb_pitch font c =
     (let header_size = font_u32 c 8; bytes_per_glyph = font_u32 c 20; font_height = font_u32 c 24;
          font_width = font_u32 c 28; num_glyphs = font_u32 c 16
      in if base = 0 \<or> font = 0 then c
         else if font_height = 0 \<or> font_height > 32 \<or> font_width = 0 \<or> font_width > 32 \<or>
                 bytes_per_glyph = 0 \<or> bytes_per_glyph > 256 \<or> num_glyphs = 0 then c
         else if x \<ge> FB_WIDTH c \<or> y \<ge> FB_HEIGHT c then c
         else let glyph_idx = min ch (num_glyphs - 1)
              in glyph_rows [0..<unat font_height] fb_pitch x y color scale font_width
                   (header_size + glyph_idx * bytes_per_glyph) c)"

text \<open>The loops of \<^verbatim>\<open>draw_rect_raw\<close>; both end at the edge of the screen.\<close>

primrec rect_row :: "nat list \<Rightarrow> usize \<Rightarrow> usize \<Rightarrow> usize \<Rightarrow> u32 \<Rightarrow> console \<Rightarrow> console" where
  "rect_row [] fb_pitch x py color c = c"
| "rect_row (dx # dxs) fb_pitch x py color c =
     (let px = x + of_nat dx
      in if px \<ge> FB_WIDTH c then c else rect_row dxs fb_pitch x py color (plot fb_pitch px py color c))"

primrec rect_rows :: "nat list \<Rightarrow> usize \<Rightarrow> usize \<Rightarrow> usize \<Rightarrow> usize \<Rightarrow> u32 \<Rightarrow> console \<Rightarrow> console" where
  "rect_rows [] fb_pitch x y w color c = c"
| "rect_rows (dy # dys) fb_pitch x y w color c =
     (let py = y + of_nat dy
      in if py \<ge> FB_HEIGHT c then c
         else rect_rows dys fb_pitch x y w color (rect_row [0..<unat w] fb_pitch x py color c))"

definition draw_rect_raw ::
  "usize \<Rightarrow> usize \<Rightarrow> usize \<Rightarrow> usize \<Rightarrow> u32 \<Rightarrow> usize \<Rightarrow> usize \<Rightarrow> console \<Rightarrow> console" where
  "draw_rect_raw x y w h color base fb_pitch c =
     (if base = 0 \<or> FB_WIDTH c = 0 \<or> FB_HEIGHT c = 0 then c
      else rect_rows [0..<unat h] fb_pitch x y w color c)"

definition draw_rect :: "usize \<Rightarrow> usize \<Rightarrow> usize \<Rightarrow> usize \<Rightarrow> u32 \<Rightarrow> console \<Rightarrow> console" where
  "draw_rect x y w h color c =
     (if FB_BASE c = 0 then c else draw_rect_raw x y w h color (FB_BASE c) (FB_PITCH c) c)"

definition putchar :: "usize \<Rightarrow> usize \<Rightarrow> usize \<Rightarrow> u32 \<Rightarrow> usize \<Rightarrow> console \<Rightarrow> console" where
  "putchar ch x y color scale c = putchar_raw ch x y color scale (FB_BASE c) (FB_PITCH c) (FONT_BASE c) c"

definition clear_from :: "usize \<Rightarrow> console \<Rightarrow> console" where
  "clear_from start_y c =
     (if FB_BASE c = 0 \<or> FB_WIDTH c = 0 \<or> FB_HEIGHT c \<le> start_y then c
      else draw_rect_raw 0 start_y (FB_WIDTH c) (FB_HEIGHT c - start_y) BG_COLOR (FB_BASE c) (FB_PITCH c) c)"

definition clear_line :: "usize \<Rightarrow> usize \<Rightarrow> console \<Rightarrow> console" where
  "clear_line y scale c =
     (if FB_BASE c = 0 \<or> FB_WIDTH c = 0 then c
      else draw_rect_raw 0 y (FB_WIDTH c) (16 * scale) BG_COLOR (FB_BASE c) (FB_PITCH c) c)"

section \<open>The console\<close>

definition set_userspace_cursor :: "usize \<Rightarrow> usize \<Rightarrow> console \<Rightarrow> console" where
  "set_userspace_cursor x y c = c\<lparr>USERSPACE_CURSOR_X := x, USERSPACE_CURSOR_Y := y\<rparr>"

definition get_userspace_cursor_y :: "console \<Rightarrow> usize" where
  "get_userspace_cursor_y c = USERSPACE_CURSOR_Y c"

definition set_font_scale :: "usize \<Rightarrow> console \<Rightarrow> console" where
  "set_font_scale scale c = c\<lparr>GLOBAL_SCALE := max 1 (min scale 4)\<rparr>"

definition get_font_scale :: "console \<Rightarrow> usize" where
  "get_font_scale c = GLOBAL_SCALE c"

definition to_u16 :: "usize \<Rightarrow> 16 word" where
  "to_u16 v = ucast (min v 0xFFFF)"

definition tty_winsize :: "console \<Rightarrow> 16 word \<times> 16 word \<times> 16 word \<times> 16 word" where
  "tty_winsize c =
     (let scale = max (get_font_scale c) 1;
          cols = saturating_sub (FB_WIDTH c) 40 div (8 * scale);
          rows = saturating_sub (FB_HEIGHT c) 120 div (16 * scale)
      in (to_u16 rows, to_u16 cols, to_u16 (FB_WIDTH c), to_u16 (FB_HEIGHT c)))"

definition clear_terminal_area :: "console \<Rightarrow> console" where
  "clear_terminal_area c =
     (if FB_BASE c = 0 \<or> FB_WIDTH c = 0 \<or> FB_HEIGHT c \<le> 120 then c
      else draw_rect_raw 0 120 (FB_WIDTH c) (FB_HEIGHT c - 120) BG_COLOR (FB_BASE c) (FB_PITCH c) c)"

definition MARGIN_LEFT :: usize where "MARGIN_LEFT = 20"
definition START_Y :: usize where "START_Y = 120"

text \<open>The step to the next line, which clears the terminal when the screen is full.\<close>

definition next_line :: "usize \<Rightarrow> usize \<Rightarrow> console \<Rightarrow> usize \<times> console" where
  "next_line char_h y c =
     (let y' = y + char_h
      in if y' + char_h \<ge> FB_HEIGHT c then (START_Y, clear_terminal_area c) else (y', c))"

definition wrap_line :: "usize \<Rightarrow> usize \<Rightarrow> usize \<Rightarrow> usize \<Rightarrow> console \<Rightarrow> usize \<times> usize \<times> console" where
  "wrap_line char_w char_h x y c =
     (if x + char_w \<ge> FB_WIDTH c
      then (case next_line char_h y c of (y', c') \<Rightarrow> (MARGIN_LEFT, y', c')) else (x, y, c))"

text \<open>The loops that erase the cell to the left of the cursor.\<close>

primrec erase_row :: "nat list \<Rightarrow> usize \<Rightarrow> usize \<Rightarrow> console \<Rightarrow> console" where
  "erase_row [] x py c = c"
| "erase_row (px # pxs) x py c =
     (if x + of_nat px \<ge> FB_WIDTH c then c
      else erase_row pxs x py (plot (FB_PITCH c) (x + of_nat px) py BG_COLOR c))"

primrec erase_rows :: "nat list \<Rightarrow> usize \<Rightarrow> usize \<Rightarrow> usize \<Rightarrow> console \<Rightarrow> console" where
  "erase_rows [] char_w x y c = c"
| "erase_rows (i # is) char_w x y c =
     (if y + of_nat i \<ge> FB_HEIGHT c then c
      else erase_rows is char_w x y (erase_row [0..<unat char_w] x (y + of_nat i) c))"

definition write_at :: "u8 \<Rightarrow> usize \<Rightarrow> usize \<Rightarrow> console \<Rightarrow> usize \<times> usize \<times> console" where
  "write_at b x y c =
     (let char_w = 8 * GLOBAL_SCALE c; char_h = 16 * GLOBAL_SCALE c
      in if b = 0 then (x, y, c)
         else if b = 0x0A then (case next_line char_h y c of (y', c') \<Rightarrow> (MARGIN_LEFT, y', c'))
         else if b = 0x0D then (MARGIN_LEFT, y, c)
         else if b = 0x09 then
           let tab_w = char_w * 4
           in wrap_line char_w char_h ((x - MARGIN_LEFT + tab_w) div tab_w * tab_w + MARGIN_LEFT) y c
         else if b = 0x08 then
           if x \<ge> MARGIN_LEFT + char_w
           then (x - char_w, y, erase_rows [0..<unat (y + char_h) - unat y] char_w (x - char_w) y c)
           else (x, y, c)
         else if \<not> (0x20 \<le> b \<and> b \<le> 0x7E) then (x, y, c)
         else
           let c1 = (if y + char_h \<le> FB_HEIGHT c \<and> x + char_w \<le> FB_WIDTH c
                     then putchar_raw (ucast b) x y TEXT_COLOR (GLOBAL_SCALE c) (FB_BASE c) (FB_PITCH c)
                            (FONT_BASE c) c
                     else c)
           in wrap_line char_w char_h (x + char_w) y c1)"

definition write_byte_to_fb :: "u8 \<Rightarrow> console \<Rightarrow> console" where
  "write_byte_to_fb b c =
     (if FB_BASE c = 0 \<or> FONT_BASE c = 0 \<or> FB_WIDTH c = 0 \<or> FB_HEIGHT c = 0 then c
      else
        let y = (if USERSPACE_CURSOR_Y c = 0 then 120 else USERSPACE_CURSOR_Y c)
        in case write_at b (USERSPACE_CURSOR_X c) y c of
             (x', y', c') \<Rightarrow> set_userspace_cursor x' y' c')"

text \<open>The writer of the kernel: a position of its own, no wrapping.\<close>

record text_cursor =
  con_x :: usize
  con_y :: usize
  con_color :: u32
  con_scale :: usize

definition console_put :: "usize \<Rightarrow> text_cursor \<times> console \<Rightarrow> text_cursor \<times> console" where
  "console_put ch = (\<lambda>(k, c).
     if ch = 0x0A then (k\<lparr>con_x := 20, con_y := con_y k + 16 * con_scale k\<rparr>, c)
     else (k\<lparr>con_x := con_x k + 8 * con_scale k\<rparr>, putchar ch (con_x k) (con_y k) (con_color k) (con_scale k) c))"

definition write_str :: "usize list \<Rightarrow> text_cursor \<times> console \<Rightarrow> text_cursor \<times> console" where
  "write_str s = fold console_put s"

section \<open>Drawing stays on the screen\<close>

definition on_screen :: "console \<Rightarrow> usize \<Rightarrow> bool" where
  "on_screen c i \<longleftrightarrow> (\<exists>px py. px < FB_WIDTH c \<and> py < FB_HEIGHT c \<and> i = py * FB_PITCH c + px)"

text \<open>\<open>c'\<close> differs from \<open>c\<close> by pixels of the screen only.\<close>

definition draws :: "console \<Rightarrow> console \<Rightarrow> bool" where
  "draws c c' \<longleftrightarrow> (\<exists>ps. c' = c\<lparr>PIXELS := ps\<rparr>) \<and> (\<forall>i. PIXELS c' i \<noteq> PIXELS c i \<longrightarrow> on_screen c i)"

lemma drawsD:
  assumes "draws c c'"
  shows "FB_BASE c' = FB_BASE c" "FB_PITCH c' = FB_PITCH c" "FB_WIDTH c' = FB_WIDTH c" "FB_HEIGHT c' = FB_HEIGHT c"
    "FONT_BASE c' = FONT_BASE c" "GLOBAL_SCALE c' = GLOBAL_SCALE c"
  using assms by (auto simp: draws_def)

lemma draws_refl [simp, intro]: "draws c c"
proof -
  have "c = c\<lparr>PIXELS := PIXELS c\<rparr>" by simp
  then show ?thesis unfolding draws_def by blast
qed

lemma draws_trans:
  assumes "draws c d" "draws d e"
  shows "draws c e"
proof -
  obtain ps qs where d: "d = c\<lparr>PIXELS := ps\<rparr>" and e: "e = d\<lparr>PIXELS := qs\<rparr>"
    using assms by (auto simp: draws_def)
  have eq: "on_screen d i = on_screen c i" for i by (simp add: d on_screen_def)
  have "on_screen c i" if "PIXELS e i \<noteq> PIXELS c i" for i
    using assms that eq unfolding draws_def by (cases "PIXELS d i = PIXELS c i") auto
  moreover have "e = c\<lparr>PIXELS := qs\<rparr>" by (simp add: d e)
  ultimately show ?thesis unfolding draws_def by blast
qed

lemma draws_plot: "px < FB_WIDTH c \<Longrightarrow> py < FB_HEIGHT c \<Longrightarrow> draws c (plot (FB_PITCH c) px py color c)"
  by (auto simp: draws_def plot_def on_screen_def)

lemma draws_fold:
  assumes "\<And>x d. FB_PITCH d = p \<Longrightarrow> draws d (f x d)" "FB_PITCH c = p"
  shows "draws c (fold f xs c)"
  using assms(2)
proof (induction xs arbitrary: c)
  case (Cons x xs)
  have step: "draws c (f x c)" by (rule assms(1) [OF Cons.prems])
  have "draws (f x c) (fold f xs (f x c))"
    by (rule Cons.IH) (simp add: drawsD(2) [OF step] Cons.prems)
  then show ?case using draws_trans [OF step] by simp
qed simp

lemma draws_plot_clamped: "FB_PITCH c = p \<Longrightarrow> draws c (plot_clamped p px py color c)"
  by (auto simp: plot_clamped_def not_le intro!: draws_plot)

lemma draws_plot_cell: "FB_PITCH c = p \<Longrightarrow> draws c (plot_cell p px py color scale c)"
  unfolding plot_cell_def
  by (rule draws_fold [where p = p]) (auto simp: split_beta intro: draws_plot_clamped)

lemma draws_glyph_row: "FB_PITCH c = p \<Longrightarrow> draws c (glyph_row p x py color scale fw bitmask c)"
  unfolding glyph_row_def
  by (rule draws_fold [where p = p]) (auto intro: draws_plot_cell)

lemma draws_glyph_rows: "FB_PITCH c = p \<Longrightarrow> draws c (glyph_rows rows p x y color scale fw glyph c)"
proof (induction rows arbitrary: c)
  case (Cons row rows)
  let ?d = "glyph_row p x (y + of_nat row * scale) color scale fw (FONT c (glyph + of_nat row)) c"
  have step: "draws c ?d" by (rule draws_glyph_row [OF Cons.prems])
  have "draws ?d (glyph_rows rows p x y color scale fw glyph ?d)"
    by (rule Cons.IH) (simp add: drawsD(2) [OF step] Cons.prems)
  then show ?case using draws_trans [OF step] by (simp add: Let_def)
qed simp

lemma draws_putchar_raw: "FB_PITCH c = p \<Longrightarrow> draws c (putchar_raw ch x y color scale base p font c)"
  by (simp add: putchar_raw_def Let_def draws_glyph_rows)

lemma draws_rect_row: "FB_PITCH c = p \<Longrightarrow> py < FB_HEIGHT c \<Longrightarrow> draws c (rect_row dxs p x py color c)"
proof (induction dxs arbitrary: c)
  case (Cons dx dxs)
  show ?case
  proof (cases "x + of_nat dx \<ge> FB_WIDTH c")
    case False
    let ?d = "plot p (x + of_nat dx) py color c"
    have step: "draws c ?d" using False Cons.prems by (auto simp: not_le intro!: draws_plot)
    have "draws ?d (rect_row dxs p x py color ?d)"
      by (rule Cons.IH) (simp_all add: drawsD(2,4) [OF step] Cons.prems)
    then show ?thesis using draws_trans [OF step] False by (simp add: Let_def)
  qed (simp add: Let_def)
qed simp

lemma draws_rect_rows: "FB_PITCH c = p \<Longrightarrow> draws c (rect_rows dys p x y w color c)"
proof (induction dys arbitrary: c)
  case (Cons dy dys)
  show ?case
  proof (cases "y + of_nat dy \<ge> FB_HEIGHT c")
    case False
    let ?d = "rect_row [0..<unat w] p x (y + of_nat dy) color c"
    have step: "draws c ?d" using False Cons.prems by (auto simp: not_le intro!: draws_rect_row)
    have "draws ?d (rect_rows dys p x y w color ?d)"
      by (rule Cons.IH) (simp add: drawsD(2) [OF step] Cons.prems)
    then show ?thesis using draws_trans [OF step] False by (simp add: Let_def)
  qed (simp add: Let_def)
qed simp

lemma draws_draw_rect_raw: "FB_PITCH c = p \<Longrightarrow> draws c (draw_rect_raw x y w h color base p c)"
  by (simp add: draw_rect_raw_def draws_rect_rows)

lemma draws_draw_rect: "draws c (draw_rect x y w h color c)"
  by (simp add: draw_rect_def draws_draw_rect_raw)

lemma draws_putchar: "draws c (putchar ch x y color scale c)"
  by (simp add: putchar_def draws_putchar_raw)

lemma draws_clear_terminal_area: "draws c (clear_terminal_area c)"
  by (simp add: clear_terminal_area_def draws_draw_rect_raw)

lemma draws_erase_row: "py < FB_HEIGHT c \<Longrightarrow> draws c (erase_row pxs x py c)"
proof (induction pxs arbitrary: c)
  case (Cons px pxs)
  show ?case
  proof (cases "x + of_nat px \<ge> FB_WIDTH c")
    case False
    let ?d = "plot (FB_PITCH c) (x + of_nat px) py BG_COLOR c"
    have step: "draws c ?d" using False Cons.prems by (auto simp: not_le intro!: draws_plot)
    have "draws ?d (erase_row pxs x py ?d)"
      by (rule Cons.IH) (simp add: drawsD(4) [OF step] Cons.prems)
    then show ?thesis using draws_trans [OF step] False by simp
  qed simp
qed simp

lemma draws_erase_rows: "draws c (erase_rows is char_w x y c)"
proof (induction "is" arbitrary: c)
  case (Cons i "is")
  show ?case
  proof (cases "y + of_nat i \<ge> FB_HEIGHT c")
    case False
    let ?d = "erase_row [0..<unat char_w] x (y + of_nat i) c"
    have step: "draws c ?d" using False by (auto simp: not_le intro!: draws_erase_row)
    show ?thesis using draws_trans [OF step Cons.IH] False by simp
  qed simp
qed simp

lemma draws_next_line: "draws c (snd (next_line char_h y c))"
  by (simp add: next_line_def Let_def draws_clear_terminal_area)

lemma draws_wrap_line: "draws c (snd (snd (wrap_line char_w char_h x y c)))"
  using draws_next_line [of c char_h y] by (simp add: wrap_line_def split_beta)

lemma draws_write_at: "draws c (snd (snd (write_at b x y c)))"
proof -
  let ?p = "putchar_raw (ucast b) x y TEXT_COLOR (GLOBAL_SCALE c) (FB_BASE c) (FB_PITCH c) (FONT_BASE c) c"
  have "draws c ?p" by (rule draws_putchar_raw) simp
  then have "draws c (snd (snd (wrap_line w h x' y ?p)))" for w h x'
    by (rule draws_trans) (rule draws_wrap_line)
  then show ?thesis
    using draws_next_line draws_wrap_line draws_erase_rows
    by (auto simp: write_at_def Let_def split_beta)
qed

lemma write_byte_draws: "\<exists>d x y. draws c d \<and> write_byte_to_fb b c = set_userspace_cursor x y d"
proof (cases "FB_BASE c = 0 \<or> FONT_BASE c = 0 \<or> FB_WIDTH c = 0 \<or> FB_HEIGHT c = 0")
  case True
  have "c = set_userspace_cursor (USERSPACE_CURSOR_X c) (USERSPACE_CURSOR_Y c) c"
    by (simp add: set_userspace_cursor_def)
  then show ?thesis using True by (auto simp: write_byte_to_fb_def)
next
  case False
  let ?y = "if USERSPACE_CURSOR_Y c = 0 then 120 else USERSPACE_CURSOR_Y c"
  let ?r = "write_at b (USERSPACE_CURSOR_X c) ?y c"
  have "write_byte_to_fb b c = set_userspace_cursor (fst ?r) (fst (snd ?r)) (snd (snd ?r))"
    using False by (simp add: write_byte_to_fb_def Let_def split_beta)
  then show ?thesis using draws_write_at by blast
qed

lemma on_screen_bounds:
  assumes "on_screen c i" "unat (FB_WIDTH c) \<le> unat (FB_PITCH c)" "unat (FB_PITCH c) * unat (FB_HEIGHT c) < 2 ^ 64"
  shows "unat i < unat (FB_PITCH c) * unat (FB_HEIGHT c) \<and> unat i mod unat (FB_PITCH c) < unat (FB_WIDTH c)"
proof -
  obtain px py where p: "px < FB_WIDTH c" "py < FB_HEIGHT c" and i: "i = py * FB_PITCH c + px"
    using assms(1) by (auto simp: on_screen_def)
  let ?w = "unat (FB_WIDTH c)" and ?h = "unat (FB_HEIGHT c)" and ?p = "unat (FB_PITCH c)"
  have x: "unat px < ?w" and y: "unat py < ?h" using p by (simp_all add: word_less_nat_alt)
  have less: "unat py * ?p + unat px < ?p * ?h"
  proof -
    have "unat py * ?p + unat px < unat py * ?p + ?p" using x assms(2) by simp
    also have "\<dots> = Suc (unat py) * ?p" by simp
    also have "\<dots> \<le> ?h * ?p" using y by (intro mult_right_mono) auto
    finally show ?thesis by (simp add: mult.commute)
  qed
  have "unat i = unat py * ?p + unat px"
    using less assms(3) by (simp add: i unat_word_ariths)
  then show ?thesis using less x assms(2) by simp
qed

text \<open>C36: The console never writes outside the screen: printing a byte at the user cursor, drawing a
  rectangle or drawing a character, with any arguments, changes only pixels that lie inside the
  framebuffer and in its visible columns, when the pitch is at least the width and the framebuffer
  fits in the address space.\<close>

theorem console_writes_on_screen:
  assumes "c' = write_byte_to_fb b c \<or> c' = draw_rect x y w h color c \<or> c' = putchar ch x y color scale c"
    and "PIXELS c' i \<noteq> PIXELS c i"
    and "unat (FB_WIDTH c) \<le> unat (FB_PITCH c)" "unat (FB_PITCH c) * unat (FB_HEIGHT c) < 2 ^ 64"
  shows "unat i < unat (FB_PITCH c) * unat (FB_HEIGHT c) \<and> unat i mod unat (FB_PITCH c) < unat (FB_WIDTH c)"
proof -
  have "\<exists>d u v. draws c d \<and> (c' = d \<or> c' = set_userspace_cursor u v d)"
    using assms(1) write_byte_draws [of c b] draws_draw_rect [of c x y w h color]
      draws_putchar [of c ch x y color scale] by blast
  then obtain d where "draws c d" "PIXELS c' = PIXELS d" by (auto simp: set_userspace_cursor_def)
  then have "on_screen c i" using assms(2) by (simp add: draws_def)
  then show ?thesis by (rule on_screen_bounds [OF _ assms(3,4)])
qed

text \<open>A screen of three by two pixels whose rows are four cells apart.\<close>

definition console_example :: console where
  "console_example =
     (console_statics (\<lambda>_. 0) (\<lambda>_. 0))\<lparr>FB_BASE := 0x1000, FB_PITCH := 4, FB_WIDTH := 3, FB_HEIGHT := 2\<rparr>"

theorem console_writes_on_screen_witness:
  "PIXELS (draw_rect 2 1 7 7 BG_COLOR console_example) 6 \<noteq> PIXELS console_example 6 \<and>
   (6 :: nat) < 4 * 2 \<and> (6 :: nat) mod 4 < 3"
proof -
  have changed: "PIXELS (draw_rect 2 1 7 7 BG_COLOR console_example) 6 \<noteq> PIXELS console_example 6"
    by code_simp
  have "unat (6 :: usize) < unat (FB_PITCH console_example) * unat (FB_HEIGHT console_example) \<and>
    unat (6 :: usize) mod unat (FB_PITCH console_example) < unat (FB_WIDTH console_example)"
    by (rule console_writes_on_screen [of _ 0 console_example 2 1 7 7 BG_COLOR 0 1])
      (use changed in \<open>simp_all add: console_example_def console_statics_def\<close>)
  then show ?thesis using changed by (simp add: console_example_def console_statics_def)
qed

section \<open>The user cursor\<close>

text \<open>
  The cell at the cursor is on the screen, below the header. A position with \<open>y = 0\<close> has not been
  set yet and stands for the first line.
\<close>

definition cursor_ok :: "console \<Rightarrow> bool" where
  "cursor_ok c \<longleftrightarrow>
     20 \<le> unat (USERSPACE_CURSOR_X c) \<and>
     unat (USERSPACE_CURSOR_X c) + 8 * unat (GLOBAL_SCALE c) < unat (FB_WIDTH c) \<and>
     (USERSPACE_CURSOR_Y c = 0 \<or>
      120 \<le> unat (USERSPACE_CURSOR_Y c) \<and>
      unat (USERSPACE_CURSOR_Y c) + 16 * unat (GLOBAL_SCALE c) < unat (FB_HEIGHT c))"

definition screen_ok :: "console \<Rightarrow> bool" where
  "screen_ok c \<longleftrightarrow>
     1 \<le> unat (GLOBAL_SCALE c) \<and> unat (GLOBAL_SCALE c) \<le> 4 \<and>
     unat (FB_WIDTH c) < 2 ^ 32 \<and> unat (FB_HEIGHT c) < 2 ^ 32 \<and>
     20 + 8 * unat (GLOBAL_SCALE c) < unat (FB_WIDTH c) \<and> 120 + 16 * unat (GLOBAL_SCALE c) < unat (FB_HEIGHT c)"

definition pos_ok :: "console \<Rightarrow> usize \<Rightarrow> usize \<Rightarrow> bool" where
  "pos_ok c x y \<longleftrightarrow>
     20 \<le> unat x \<and> unat x + 8 * unat (GLOBAL_SCALE c) < unat (FB_WIDTH c) \<and>
     120 \<le> unat y \<and> unat y + 16 * unat (GLOBAL_SCALE c) < unat (FB_HEIGHT c)"

lemma unat_add_no_wrap: "unat a + unat b < 2 ^ 64 \<Longrightarrow> unat (a + b :: u64) = unat a + unat b"
  by (simp add: unat_word_ariths)

lemma unat_cell:
  assumes "screen_ok c"
  shows "unat (8 * GLOBAL_SCALE c) = 8 * unat (GLOBAL_SCALE c)" "unat (16 * GLOBAL_SCALE c) = 16 * unat (GLOBAL_SCALE c)"
  using assms by (simp_all add: screen_ok_def unat_word_ariths)

lemma next_line_ok:
  assumes "screen_ok c" "120 \<le> unat y" "unat y + 16 * unat (GLOBAL_SCALE c) < unat (FB_HEIGHT c)"
    and "next_line (16 * GLOBAL_SCALE c) y c = (y', c')"
  shows "120 \<le> unat y' \<and> unat y' + 16 * unat (GLOBAL_SCALE c) < unat (FB_HEIGHT c)"
proof -
  have h: "unat (16 * GLOBAL_SCALE c) = 16 * unat (GLOBAL_SCALE c)" by (rule unat_cell(2) [OF assms(1)])
  have one: "unat (y + 16 * GLOBAL_SCALE c) = unat y + 16 * unat (GLOBAL_SCALE c)"
    using assms(1,3) h by (subst unat_add_no_wrap) (auto simp: screen_ok_def)
  have two: "unat (y + 16 * GLOBAL_SCALE c + 16 * GLOBAL_SCALE c) = unat y + 32 * unat (GLOBAL_SCALE c)"
    using assms(1,3) h one by (subst unat_add_no_wrap) (auto simp: screen_ok_def)
  show ?thesis
    using assms one two
    by (auto simp: next_line_def Let_def START_Y_def screen_ok_def word_le_nat_alt split: if_splits)
qed

lemma wrap_line_ok:
  assumes "screen_ok c" "20 \<le> unat x" "unat x < 2 ^ 33" "120 \<le> unat y"
    "unat y + 16 * unat (GLOBAL_SCALE c) < unat (FB_HEIGHT c)"
    and "wrap_line (8 * GLOBAL_SCALE c) (16 * GLOBAL_SCALE c) x y c = (x', y', c')"
  shows "pos_ok c x' y'"
proof -
  have w: "unat (8 * GLOBAL_SCALE c) = 8 * unat (GLOBAL_SCALE c)" by (rule unat_cell(1) [OF assms(1)])
  have x: "unat (x + 8 * GLOBAL_SCALE c) = unat x + 8 * unat (GLOBAL_SCALE c)"
    using assms(1,3) w by (subst unat_add_no_wrap) (auto simp: screen_ok_def)
  show ?thesis
  proof (cases "x + 8 * GLOBAL_SCALE c \<ge> FB_WIDTH c")
    case True
    obtain y2 c2 where n: "next_line (16 * GLOBAL_SCALE c) y c = (y2, c2)" by fastforce
    have "x' = 20" "y' = y2" using assms(6) True n by (auto simp: wrap_line_def MARGIN_LEFT_def)
    then show ?thesis
      using next_line_ok [OF assms(1,4,5) n] assms(1) by (simp add: pos_ok_def screen_ok_def)
  next
    case False
    then have "x' = x" "y' = y" using assms(6) by (auto simp: wrap_line_def)
    then show ?thesis using False assms x by (simp add: pos_ok_def word_le_nat_alt not_le)
  qed
qed

lemma draws_ok:
  assumes "draws c d"
  shows "screen_ok d = screen_ok c" "pos_ok d x y = pos_ok c x y"
  using drawsD [OF assms] by (simp_all add: screen_ok_def pos_ok_def)

lemma tab_stop_ok:
  assumes "screen_ok c" "20 \<le> unat x" "unat x < 2 ^ 32"
  defines "t \<equiv> 8 * GLOBAL_SCALE c * 4"
  shows "20 \<le> unat ((x - MARGIN_LEFT + t) div t * t + MARGIN_LEFT)"
    "unat ((x - MARGIN_LEFT + t) div t * t + MARGIN_LEFT) < 2 ^ 33"
proof -
  have t: "unat t = 32 * unat (GLOBAL_SCALE c)"
    using assms(1) unat_cell(1) [OF assms(1)] by (simp add: t_def screen_ok_def unat_word_ariths)
  have le: "unat t \<le> 128" using assms(1) t by (simp add: screen_ok_def)
  have "unat (x - 20) = unat x - 20" using assms(2) by (simp add: unat_sub word_le_nat_alt)
  then have a: "unat (x - 20 + t) = unat x - 20 + unat t"
    using assms(3) le by (subst unat_add_no_wrap) auto
  have m: "unat ((x - 20 + t) div t * t) = unat (x - 20 + t) div unat t * unat t"
  proof -
    have "unat (x - 20 + t) div unat t * unat t \<le> unat (x - 20 + t)" by simp
    also have "\<dots> < 2 ^ 64" using unsigned_less [of "x - 20 + t"] by simp
    finally show ?thesis by (simp add: unat_mult_lem unat_div unat_word_ariths(2))
  qed
  have bound: "unat ((x - 20 + t) div t * t) \<le> unat x + 108"
  proof -
    have "unat ((x - 20 + t) div t * t) \<le> unat (x - 20 + t)" unfolding m by simp
    then show ?thesis using a le assms(2) by simp
  qed
  have sum: "unat ((x - 20 + t) div t * t + 20) = unat ((x - 20 + t) div t * t) + 20"
    using bound assms(3) by (subst unat_add_no_wrap) auto
  show "20 \<le> unat ((x - MARGIN_LEFT + t) div t * t + MARGIN_LEFT)"
    using sum by (simp add: MARGIN_LEFT_def)
  show "unat ((x - MARGIN_LEFT + t) div t * t + MARGIN_LEFT) < 2 ^ 33"
    using sum bound assms(3) by (simp add: MARGIN_LEFT_def)
qed

lemma print_ok:
  assumes "screen_ok c" "pos_ok c x y" "draws c d"
    and "wrap_line (8 * GLOBAL_SCALE c) (16 * GLOBAL_SCALE c) (x + 8 * GLOBAL_SCALE c) y d = (x', y', c')"
  shows "pos_ok c x' y'"
proof -
  have w: "unat (8 * GLOBAL_SCALE c) = 8 * unat (GLOBAL_SCALE c)" by (rule unat_cell(1) [OF assms(1)])
  have x: "unat (x + 8 * GLOBAL_SCALE c) = unat x + 8 * unat (GLOBAL_SCALE c)"
    using assms(1,2) w by (subst unat_add_no_wrap) (auto simp: screen_ok_def pos_ok_def)
  have g: "GLOBAL_SCALE d = GLOBAL_SCALE c" "FB_HEIGHT d = FB_HEIGHT c" "FB_WIDTH d = FB_WIDTH c" using drawsD [OF assms(3)] by simp_all
  have "pos_ok d x' y'"
    by (rule wrap_line_ok [of d "x + 8 * GLOBAL_SCALE c" y _ _ c'])
      (use assms x in \<open>auto simp: draws_ok(1) [OF assms(3)] g pos_ok_def screen_ok_def\<close>)
  then show ?thesis by (simp add: draws_ok(2) [OF assms(3)])
qed

lemma backspace_ok:
  assumes "screen_ok c" "pos_ok c x y" "x \<ge> MARGIN_LEFT + 8 * GLOBAL_SCALE c"
  shows "pos_ok c (x - 8 * GLOBAL_SCALE c) y"
proof -
  have w: "unat (8 * GLOBAL_SCALE c) = 8 * unat (GLOBAL_SCALE c)" by (rule unat_cell(1) [OF assms(1)])
  have "unat (MARGIN_LEFT + 8 * GLOBAL_SCALE c) = 20 + 8 * unat (GLOBAL_SCALE c)"
    using assms(1) w by (subst unat_add_no_wrap) (auto simp: MARGIN_LEFT_def screen_ok_def)
  then have ge: "20 + 8 * unat (GLOBAL_SCALE c) \<le> unat x" using assms(3) by (simp add: word_le_nat_alt)
  then have "unat (x - 8 * GLOBAL_SCALE c) = unat x - 8 * unat (GLOBAL_SCALE c)"
    using w by (subst unat_sub) (simp_all add: word_le_nat_alt)
  then show ?thesis using assms(2) ge by (simp add: pos_ok_def)
qed

lemma write_at_ok:
  assumes "screen_ok c" "pos_ok c x y" "write_at b x y c = (x', y', c')"
  shows "pos_ok c x' y'"
proof -
  have pos: "20 \<le> unat x" "unat x < 2 ^ 32" "120 \<le> unat y" "unat y + 16 * unat (GLOBAL_SCALE c) < unat (FB_HEIGHT c)"
    using assms(1,2) by (auto simp: pos_ok_def screen_ok_def)
  have home: "pos_ok c MARGIN_LEFT y2" if "120 \<le> unat y2 \<and> unat y2 + 16 * unat (GLOBAL_SCALE c) < unat (FB_HEIGHT c)" for y2
    using that assms(1) by (simp add: pos_ok_def screen_ok_def MARGIN_LEFT_def)
  let ?w = "8 * GLOBAL_SCALE c" and ?h = "16 * GLOBAL_SCALE c"
  consider (nul) "b = 0" | (nl) "b = 0x0A" | (cr) "b = 0x0D" | (tab) "b = 9" | (bs) "b = 8"
    | (skip) "b \<notin> {0, 0x0A, 0x0D, 9, 8}" "\<not> (0x20 \<le> b \<and> b \<le> 0x7E)"
    | (print) "b \<notin> {0, 0x0A, 0x0D, 9, 8}" "0x20 \<le> b \<and> b \<le> 0x7E" by blast
  then show ?thesis
  proof cases
    case nl
    then have "next_line ?h y c = (y', c')" "x' = MARGIN_LEFT"
      using assms(3) by (simp_all add: write_at_def Let_def split_beta prod_eq_iff)
    then show ?thesis using home next_line_ok [OF assms(1) pos(3,4)] by simp
  next
    case tab
    then have "wrap_line ?w ?h ((x - MARGIN_LEFT + ?w * 4) div (?w * 4) * (?w * 4) + MARGIN_LEFT) y c = (x', y', c')"
      using assms(3) by (simp add: write_at_def Let_def)
    then show ?thesis by (rule wrap_line_ok [OF assms(1) tab_stop_ok [OF assms(1) pos(1,2)] pos(3,4)])
  next
    case bs
    show ?thesis
    proof (cases "x \<ge> MARGIN_LEFT + ?w")
      case True
      then have "x' = x - ?w" "y' = y" using assms(3) bs by (simp_all add: write_at_def Let_def)
      then show ?thesis using backspace_ok [OF assms(1,2) True] by simp
    next
      case False
      then show ?thesis using assms(2,3) bs by (simp add: write_at_def Let_def)
    qed
  next
    case print
    define d where "d = (if y + ?h \<le> FB_HEIGHT c \<and> x + ?w \<le> FB_WIDTH c
      then putchar_raw (ucast b) x y TEXT_COLOR (GLOBAL_SCALE c) (FB_BASE c) (FB_PITCH c) (FONT_BASE c) c else c)"
    have "draws c d" by (simp add: d_def draws_putchar_raw)
    moreover have "wrap_line ?w ?h (x + ?w) y d = (x', y', c')"
      using assms(3) print unfolding write_at_def d_def Let_def by simp
    ultimately show ?thesis using print_ok [OF assms(1,2)] by blast
  qed (use assms(2,3) home pos in \<open>simp_all add: write_at_def Let_def\<close>)
qed

text \<open>C37: On a screen that holds the header and at least one cell, the user cursor never leaves the
  screen: from a position on the screen or the initial one, whatever bytes are printed, the cell at
  the cursor is fully visible and below the header.\<close>

theorem console_cursor_stays:
  assumes "screen_ok c" "cursor_ok c"
  shows "screen_ok (fold write_byte_to_fb bs c) \<and> cursor_ok (fold write_byte_to_fb bs c)"
  using assms
proof (induction bs arbitrary: c)
  case (Cons b bs)
  let ?y = "if USERSPACE_CURSOR_Y c = 0 then 120 else USERSPACE_CURSOR_Y c"
  obtain x' y' c' where w: "write_at b (USERSPACE_CURSOR_X c) ?y c = (x', y', c')" by (cases "write_at b (USERSPACE_CURSOR_X c) ?y c")
  have pos: "pos_ok c (USERSPACE_CURSOR_X c) ?y"
    using Cons.prems by (auto simp: cursor_ok_def pos_ok_def screen_ok_def)
  have d: "draws c c'" using draws_write_at [of c b "USERSPACE_CURSOR_X c" ?y] w by simp
  have "pos_ok c' x' y'" using write_at_ok [OF Cons.prems(1) pos w] by (simp add: draws_ok(2) [OF d])
  moreover have "screen_ok c'" using Cons.prems(1) by (simp add: draws_ok(1) [OF d])
  ultimately have ok: "screen_ok (set_userspace_cursor x' y' c')" "cursor_ok (set_userspace_cursor x' y' c')"
    by (auto simp: set_userspace_cursor_def screen_ok_def cursor_ok_def pos_ok_def)
  have "write_byte_to_fb b c = c \<or> write_byte_to_fb b c = set_userspace_cursor x' y' c'"
    using w by (auto simp: write_byte_to_fb_def Let_def split: prod.splits)
  then have "screen_ok (write_byte_to_fb b c)" "cursor_ok (write_byte_to_fb b c)"
    using ok Cons.prems by auto
  then show ?case using Cons.IH by simp
qed simp

theorem console_cursor_stays_witness:
  "cursor_ok (fold write_byte_to_fb [0x41, 0x09, 0x0A, 0x08]
     (console_example\<lparr>FB_WIDTH := 640, FB_HEIGHT := 480, FB_PITCH := 640, FONT_BASE := 1\<rparr>))"
proof -
  let ?c = "console_example\<lparr>FB_WIDTH := 640, FB_HEIGHT := 480, FB_PITCH := 640, FONT_BASE := 1\<rparr>"
  have "screen_ok ?c" "cursor_ok ?c"
    by (simp_all add: screen_ok_def cursor_ok_def console_example_def console_statics_def)
  from console_cursor_stays [OF this] show ?thesis by blast
qed

end
