(* ===== verification/Descriptors.thy ===== *)
theory Descriptors
  imports Memory
begin

text \<open>
  The tables the processor reads: the interrupt descriptor table (\<^verbatim>\<open>arch/amd64/idt.rs\<close>) and the
  global descriptor table with the task state segment (\<^verbatim>\<open>arch/amd64/gdt.rs\<close>). The addresses that
  the linker gives to the handlers and to the tables are parameters. Loading the tables into the
  processor and the register pushes of the handlers are assembly and have no counterpart here.
\<close>

unbundle bit_operations_syntax

section \<open>Interrupts\<close>

definition SEG_KCODE :: u16 where "SEG_KCODE = 0x08"
definition SEG_KDATA :: u16 where "SEG_KDATA = 0x10"
definition SEG_UDATA :: u16 where "SEG_UDATA = 0x18 OR 3"
definition SEG_UCODE :: u16 where "SEG_UCODE = 0x20 OR 3"
definition SEG_TSS :: u16 where "SEG_TSS = 0x28"

record idt_entry =
  offset_low :: u16
  selector :: u16
  gate_options :: u16
  offset_mid :: u16
  offset_high :: u32
  idt_zero :: u32

definition idt_missing :: idt_entry where
  "idt_missing =
     \<lparr>offset_low = 0, selector = 0, gate_options = 0, offset_mid = 0, offset_high = 0, idt_zero = 0\<rparr>"

definition set_handler :: "u64 \<Rightarrow> idt_entry \<Rightarrow> idt_entry" where
  "set_handler addr e =
     e\<lparr>offset_low := ucast addr, selector := SEG_KCODE, gate_options := 0x8E00,
       offset_mid := ucast (drop_bit 16 addr), offset_high := ucast (drop_bit 32 addr), idt_zero := 0\<rparr>"

definition idt_static :: "idt_entry list" where
  "idt_static = replicate 256 idt_missing"

text \<open>\<open>stubs\<close> are the addresses of the 32 exception stubs.\<close>

definition idt_init :: "u64 list \<Rightarrow> u64 \<Rightarrow> u64 \<Rightarrow> idt_entry list \<Rightarrow> idt_entry list" where
  "idt_init stubs pit_interrupt keyboard_interrupt idt =
     (let t = fold (\<lambda>(vector, handler) t. t[vector := set_handler handler (t ! vector)]) (enumerate 0 stubs) idt;
          t1 = t[32 := set_handler pit_interrupt (t ! 32)]
      in t1[33 := set_handler keyboard_interrupt (t1 ! 33)])"

section \<open>Segments\<close>

record gdt_entry =
  gdt_limit_low :: u16
  gdt_base_low :: u16
  gdt_base_mid :: u8
  gdt_access :: u8
  gdt_granul :: u8
  gdt_base_high :: u8

definition gdt_entry_new :: "u8 \<Rightarrow> u8 \<Rightarrow> gdt_entry" where
  "gdt_entry_new access flags =
     \<lparr>gdt_limit_low = 0xFFFF, gdt_base_low = 0, gdt_base_mid = 0, gdt_access = access,
      gdt_granul = push_bit 4 flags OR 0x0F, gdt_base_high = 0\<rparr>"

definition gdt_encode :: "gdt_entry \<Rightarrow> u64" where
  "gdt_encode e =
     from_le_bytes (to_le_bytes 2 (gdt_limit_low e) @ to_le_bytes 2 (gdt_base_low e) @
       [gdt_base_mid e, gdt_access e, gdt_granul e, gdt_base_high e])"

record tss_descriptor =
  tss_limit_low :: u16
  tss_base_0_15 :: u16
  tss_base_16_23 :: u8
  tss_access :: u8
  tss_limit_flags :: u8
  tss_base_24_31 :: u8
  tss_base_32_63 :: u32
  tss_reserved :: u32

definition tss_descriptor_new :: "u64 \<Rightarrow> u32 \<Rightarrow> tss_descriptor" where
  "tss_descriptor_new base limit =
     \<lparr>tss_limit_low = ucast (limit AND 0xFFFF), tss_base_0_15 = ucast (base AND 0xFFFF),
      tss_base_16_23 = ucast (drop_bit 16 base AND 0xFF), tss_access = 0x89,
      tss_limit_flags = ucast (drop_bit 16 limit AND 0xF), tss_base_24_31 = ucast (drop_bit 24 base AND 0xFF),
      tss_base_32_63 = ucast (drop_bit 32 base), tss_reserved = 0\<rparr>"

definition tss_descriptor_bytes :: "tss_descriptor \<Rightarrow> u8 list" where
  "tss_descriptor_bytes d =
     to_le_bytes 2 (tss_limit_low d) @ to_le_bytes 2 (tss_base_0_15 d) @
     [tss_base_16_23 d, tss_access d, tss_limit_flags d, tss_base_24_31 d] @
     to_le_bytes 4 (tss_base_32_63 d) @ to_le_bytes 4 (tss_reserved d)"

definition TSS_SIZE :: nat where "TSS_SIZE = 104"

definition gdt_init :: "u64 \<Rightarrow> u64 list" where
  "gdt_init tss_base =
     (let tss = tss_descriptor_bytes (tss_descriptor_new tss_base (of_nat (TSS_SIZE - 1)))
      in [0,
          gdt_encode (gdt_entry_new (0x80 OR 0x00 OR 0x10 OR 0x08 OR 0x02) (0x2 OR 0x8)),
          gdt_encode (gdt_entry_new (0x80 OR 0x00 OR 0x10 OR 0x02) (0x4 OR 0x8)),
          gdt_encode (gdt_entry_new (0x80 OR 0x60 OR 0x10 OR 0x02) (0x4 OR 0x8)),
          gdt_encode (gdt_entry_new (0x80 OR 0x60 OR 0x10 OR 0x08 OR 0x02) (0x2 OR 0x8)),
          from_le_bytes (take 8 tss), from_le_bytes (drop 8 tss)])"

section \<open>What the processor reads\<close>

text \<open>The address and the present bit of a gate, and the base of the task state segment.\<close>

definition gate_address :: "idt_entry \<Rightarrow> u64" where
  "gate_address e =
     ucast (offset_low e) OR push_bit 16 (ucast (offset_mid e)) OR push_bit 32 (ucast (offset_high e))"

definition gate_present :: "idt_entry \<Rightarrow> bool" where
  "gate_present e \<longleftrightarrow> bit (gate_options e) 15"

definition tss_base_of :: "tss_descriptor \<Rightarrow> u64" where
  "tss_base_of d =
     ucast (tss_base_0_15 d) OR push_bit 16 (ucast (tss_base_16_23 d)) OR push_bit 24 (ucast (tss_base_24_31 d)) OR
     push_bit 32 (ucast (tss_base_32_63 d))"

lemma gate_address_set_handler [simp]: "gate_address (set_handler addr e) = addr"
proof (rule bit_word_eqI)
  fix n assume n: "n < LENGTH(64)"
  consider "n < 16" | "16 \<le> n" "n < 32" | "32 \<le> n" by linarith
  then show "bit (gate_address (set_handler addr e)) n = bit addr n"
    using n
    by cases
      (simp_all add: gate_address_def set_handler_def bit_or_iff bit_push_bit_iff bit_unsigned_iff bit_drop_bit_eq less_diff_conv2)
qed

lemma tss_base_of_new: "tss_base_of (tss_descriptor_new base limit) = base"
proof (rule bit_word_eqI)
  fix n assume n: "n < LENGTH(64)"
  have masks: "(0xFF :: u64) = mask 8" "(0xFFFF :: u64) = mask 16" by (simp_all add: mask_eq_exp_minus_1)
  consider "n < 16" | "16 \<le> n" "n < 24" | "24 \<le> n" "n < 32" | "32 \<le> n" by linarith
  then show "bit (tss_base_of (tss_descriptor_new base limit)) n = bit base n"
    using n
    by cases
      (simp_all add: tss_base_of_def tss_descriptor_new_def bit_or_iff bit_and_iff bit_push_bit_iff bit_unsigned_iff
        bit_drop_bit_eq masks bit_mask_iff less_diff_conv2)
qed

lemma fold_set_handlers:
  assumes "distinct (map fst hs)" "\<forall>(v, h) \<in> set hs. v < length t"
  shows "fold (\<lambda>(v, h) t. t[v := set_handler h (t ! v)]) hs t ! k =
    (case map_of hs k of Some h \<Rightarrow> set_handler h (t ! k) | None \<Rightarrow> t ! k)"
  using assms
proof (induction hs arbitrary: t)
  case (Cons x hs)
  obtain v h where x: "x = (v, h)" by (cases x)
  have "v \<notin> dom (map_of hs)" using Cons.prems(1) by (simp add: x dom_map_of_conv_image_fst)
  then show ?case
    using Cons.IH [of "t[v := set_handler h (t ! v)]"] Cons.prems
    by (cases "k = v") (auto simp: x domIff split: option.splits)
qed simp

lemma map_of_enumerate: "map_of (enumerate 0 xs) k = (if k < length xs then Some (xs ! k) else None)"
  by (cases "k < length xs") (auto simp: map_of_eq_None_iff in_set_enumerate_eq intro!: map_of_is_SomeI)

lemma length_fold_update: "length (fold (\<lambda>(v, h) t. t[v := f h (t ! v)]) hs t) = length t"
  by (induction hs arbitrary: t) (auto simp: split_beta)

lemma idt_init_nth:
  assumes "length stubs = 32" "v < 256"
  shows "idt_init stubs pit kbd idt_static ! v =
    (if v < 32 then set_handler (stubs ! v) idt_missing
     else if v = 32 then set_handler pit idt_missing else if v = 33 then set_handler kbd idt_missing
     else idt_missing)"
proof -
  let ?t = "fold (\<lambda>(v, h) t. t[v := set_handler h (t ! v)]) (enumerate 0 stubs) idt_static"
  have "distinct (map fst (enumerate 0 stubs))" by simp
  moreover have "\<forall>(v, h) \<in> set (enumerate 0 stubs). v < length idt_static"
    using assms(1) by (auto simp: in_set_enumerate_eq idt_static_def)
  ultimately have t: "?t ! k = (if k < 32 then set_handler (stubs ! k) (idt_static ! k) else idt_static ! k)" for k
    using assms(1) by (simp add: fold_set_handlers map_of_enumerate)
  have len: "length ?t = 256" by (simp add: length_fold_update idt_static_def)
  show ?thesis
    using assms(2) t len by (simp add: idt_init_def Let_def nth_list_update idt_static_def)
qed

text \<open>C38: After the interrupt table is set up, the gate of every exception, of the timer and of the
  keyboard is present, runs in the kernel code segment and reassembles to exactly the address of its
  handler; every other gate is absent. The descriptor of the task state segment reassembles to its
  base.\<close>

theorem descriptor_tables_correct:
  assumes "length stubs = 32" "v < 256"
  shows "(let e = idt_init stubs pit kbd idt_static ! v in
      gate_present e = (v < 34) \<and>
      (v < 34 \<longrightarrow> selector e = SEG_KCODE \<and>
         gate_address e = (if v < 32 then stubs ! v else if v = 32 then pit else kbd))) \<and>
    tss_base_of (tss_descriptor_new base limit) = base"
proof -
  have "bit (0x8E00 :: u16) 15" by (simp add: bit_iff_odd drop_bit_eq_div)
  then have p: "gate_present (set_handler h idt_missing)" "\<not> gate_present idt_missing"
    "selector (set_handler h idt_missing) = SEG_KCODE" for h
    by (simp_all add: gate_present_def set_handler_def idt_missing_def)
  have "v = 33" if "\<not> v < 32" "v \<noteq> 32" "v < 34" using that by simp
  then show ?thesis
    by (auto simp: Let_def idt_init_nth [OF assms] p tss_base_of_new)
qed

theorem descriptor_tables_correct_witness:
  "let e = idt_init (replicate 32 0xFFFFFFFF80100000) 7 9 idt_static ! 14 in
     gate_present e \<and> gate_address e = 0xFFFFFFFF80100000"
  using descriptor_tables_correct [of "replicate 32 0xFFFFFFFF80100000" 14 7 9 0 0]
  by (simp add: Let_def)

end
