(* ===== verification/Signals.thy ===== *)
theory Signals
  imports SysBase
begin

text \<open>
  Signals (\<^verbatim>\<open>syscall/process.rs\<close>): sets of signals, sending a signal to a process or a thread,
  delivering one when a system call returns, the return from a handler, and the system calls that
  install handlers and change the mask. The register frame that a system call saves on the kernel
  stack is memory of the kernel: its address \<open>fp\<close> is a kernel address, and a field is the word at
  its offset.
\<close>

unbundle bit_operations_syntax

section \<open>Constants\<close>

definition SIGSET_SIZE :: u64 where "SIGSET_SIZE = 128"
definition SA_RESTORER :: u64 where "SA_RESTORER = 0x04000000"
definition SA_ONSTACK :: u64 where "SA_ONSTACK = 0x08000000"
definition SIG_BLOCK :: u64 where "SIG_BLOCK = 0"
definition SIG_UNBLOCK :: u64 where "SIG_UNBLOCK = 1"
definition SIG_SETMASK :: u64 where "SIG_SETMASK = 2"
definition SIGKILL :: nat where "SIGKILL = 9"
definition SIGCHLD :: nat where "SIGCHLD = 17"
definition SS_DISABLE :: i32 where "SS_DISABLE = 2"
definition RT_SIGRETURN :: u64 where "RT_SIGRETURN = 15"

lemmas signal_consts = SIGSET_SIZE_def SA_RESTORER_def SA_ONSTACK_def SIG_BLOCK_def SIG_UNBLOCK_def
  SIG_SETMASK_def SIGKILL_def SIGCHLD_def SS_DISABLE_def RT_SIGRETURN_def

section \<open>The saved registers\<close>

text \<open>Offsets of the fields of \<^verbatim>\<open>SyscallFrame\<close> that the code uses, and its size.\<close>

definition FRAME_R9 :: u64 where "FRAME_R9 = 40"
definition FRAME_R8 :: u64 where "FRAME_R8 = 48"
definition FRAME_RDI :: u64 where "FRAME_RDI = 64"
definition FRAME_RAX :: u64 where "FRAME_RAX = 88"
definition FRAME_RCX :: u64 where "FRAME_RCX = 96"
definition FRAME_R10 :: u64 where "FRAME_R10 = 112"
definition FRAME_SIZE :: nat where "FRAME_SIZE = 120"

lemmas frame_consts = FRAME_R9_def FRAME_R8_def FRAME_RDI_def FRAME_RAX_def FRAME_RCX_def FRAME_R10_def
  FRAME_SIZE_def

definition frame_get :: "u64 \<Rightarrow> u64 \<Rightarrow> kernel \<Rightarrow> u64" where
  "frame_get off fp s = rd64 (MEM s) (v2p (fp + off))"

definition frame_set :: "u64 \<Rightarrow> u64 \<Rightarrow> u64 \<Rightarrow> kernel \<Rightarrow> kernel" where
  "frame_set off fp v s = s\<lparr>MEM := wr64 (MEM s) (v2p (fp + off)) v\<rparr>"

definition frame_bytes :: "u64 \<Rightarrow> kernel \<Rightarrow> u8 list" where
  "frame_bytes fp s = rd_bytes (MEM s) (v2p fp) FRAME_SIZE"

definition current_frame :: "u64 \<Rightarrow> u64 syscall" where
  "current_frame fp = sys_seq (ensure (fp \<noteq> 0) Invalid) (\<lambda>_. sys_ok fp)"

section \<open>Sets of signals\<close>

definition sig_bit :: "nat \<Rightarrow> nat \<times> u64" where
  "sig_bit sig = ((sig - 1) div 64, push_bit ((sig - 1) mod 64) 1)"

definition sigset_contains :: "sig_set \<Rightarrow> nat \<Rightarrow> bool" where
  "sigset_contains ss sig = (case sig_bit sig of (idx, b) \<Rightarrow> (ss ! idx) AND b \<noteq> 0)"

definition sigset_add :: "nat \<Rightarrow> sig_set \<Rightarrow> sig_set" where
  "sigset_add sig ss = (case sig_bit sig of (idx, b) \<Rightarrow> ss[idx := (ss ! idx) OR b])"

definition sigset_remove :: "nat \<Rightarrow> sig_set \<Rightarrow> sig_set" where
  "sigset_remove sig ss = (case sig_bit sig of (idx, b) \<Rightarrow> ss[idx := (ss ! idx) AND NOT b])"

definition sanitize_sigmask :: "sig_set \<Rightarrow> sig_set" where
  "sanitize_sigmask ss = sigset_remove SIGKILL ss"

text \<open>The loops over the words of two sets.\<close>

definition sigset_union :: "sig_set \<Rightarrow> sig_set \<Rightarrow> sig_set" where
  "sigset_union a b = map2 (OR) a b"

definition sigset_minus :: "sig_set \<Rightarrow> sig_set \<Rightarrow> sig_set" where
  "sigset_minus a b = map2 (\<lambda>x y. x AND NOT y) a b"

text \<open>Structures in user memory are arrays of words.\<close>

primrec u64s_of :: "nat \<Rightarrow> u8 list \<Rightarrow> u64 list" where
  "u64s_of 0 bs = []"
| "u64s_of (Suc n) bs = from_le_bytes (take 8 bs) # u64s_of n (drop 8 bs)"

definition u64s_bytes :: "u64 list \<Rightarrow> u8 list" where
  "u64s_bytes ws = concat (map (to_le_bytes 8) ws)"

definition sigaction_of :: "u8 list \<Rightarrow> sig_action" where
  "sigaction_of bs =
     (let ws = u64s_of 19 bs
      in \<lparr>sa_handler = ws ! 0, sa_flags = ws ! 1, sa_restorer = ws ! 2, sa_mask = drop 3 ws\<rparr>)"

definition sigaction_bytes :: "sig_action \<Rightarrow> u8 list" where
  "sigaction_bytes a = u64s_bytes ([sa_handler a, sa_flags a, sa_restorer a] @ sa_mask a)"

section \<open>Sending\<close>

definition upd_process :: "nat \<Rightarrow> (process \<Rightarrow> process) \<Rightarrow> kernel \<Rightarrow> kernel" where
  "upd_process slot f s =
     (case PROCESSES s ! slot of
        Some p \<Rightarrow> s\<lparr>PROCESSES := (PROCESSES s)[slot := Some (f p)]\<rparr>
      | None \<Rightarrow> s)"

definition upd_thread :: "nat \<Rightarrow> (thread \<Rightarrow> thread) \<Rightarrow> kernel \<Rightarrow> kernel" where
  "upd_thread slot f s =
     (case THREADS s ! slot of
        Some th \<Rightarrow> s\<lparr>THREADS := (THREADS s)[slot := Some (f th)]\<rparr>
      | None \<Rightarrow> s)"

definition queue_signal :: "nat \<Rightarrow> nat \<Rightarrow> kernel \<Rightarrow> bool \<times> kernel" where
  "queue_signal slot sig s =
     (PROCESSES s ! slot \<noteq> None, upd_process slot (sig_pending_update (sigset_add sig)) s)"

definition queue_thread_signal :: "nat \<Rightarrow> nat \<Rightarrow> kernel \<Rightarrow> bool \<times> kernel" where
  "queue_thread_signal slot sig s =
     (THREADS s ! slot \<noteq> None, upd_thread slot (thr_sig_pending_update (sigset_add sig)) s)"

definition notify_parent_exit :: "nat \<Rightarrow> kernel \<Rightarrow> kernel" where
  "notify_parent_exit parent s =
     (if parent = 0 then s
      else case find_slot_by_pid parent s of
             Some slot \<Rightarrow> snd (queue_signal slot SIGCHLD s)
           | None \<Rightarrow> s)"

definition signal_default_ignored :: "nat \<Rightarrow> bool" where
  "signal_default_ignored sig \<longleftrightarrow> sig = SIGCHLD"

definition signal_default_terminates :: "nat \<Rightarrow> bool" where
  "signal_default_terminates sig \<longleftrightarrow> \<not> signal_default_ignored sig"

text \<open>One iteration of the loop over \<^verbatim>\<open>THREADS\<close> in \<^verbatim>\<open>terminate_process_group\<close>.\<close>

definition terminate_thread :: "nat \<Rightarrow> nat \<Rightarrow> kernel \<Rightarrow> kernel" where
  "terminate_thread g slot s =
     (case THREADS s ! slot of
        None \<Rightarrow> s
      | Some th \<Rightarrow>
          if group_slot th \<noteq> g then s
          else kill_task slot (s\<lparr>THREADS := (THREADS s)[slot := Some (th\<lparr>thread_st := TZombie\<rparr>)]\<rparr>))"

definition terminate_process_group :: "nat \<Rightarrow> nat \<Rightarrow> kernel \<Rightarrow> kernel" where
  "terminate_process_group g sig s =
     (let parent = (case PROCESSES s ! g of Some p \<Rightarrow> parent_pid p | None \<Rightarrow> 0);
          s1 = upd_process g (\<lambda>p. p\<lparr>proc_state := PZombie, exit_code := 128 + of_nat sig, thread_count := 0\<rparr>) s;
          s2 = fold (terminate_thread g) [0..<length (THREADS s1)] s1
      in notify_parent_exit parent s2)"

section \<open>Delivery\<close>

definition deliverable :: "process \<Rightarrow> thread \<Rightarrow> nat \<Rightarrow> bool" where
  "deliverable p th sig \<longleftrightarrow>
     (sigset_contains (thr_sig_pending th) sig \<or> sigset_contains (sig_pending p) sig) \<and>
     \<not> sigset_contains (sig_mask th) sig"

text \<open>The search for a signal: its number, and whether it was sent to the thread.\<close>

definition choose_signal :: "process \<Rightarrow> thread \<Rightarrow> (nat \<times> bool) option" where
  "choose_signal p th =
     map_option (\<lambda>sig. (sig, sigset_contains (thr_sig_pending th) sig)) (first_such (deliverable p th) 1 65)"

definition take_signal :: "nat \<Rightarrow> bool \<Rightarrow> kernel \<Rightarrow> kernel" where
  "take_signal sig directed =
     (if directed then current_thread_mut (thr_sig_pending_update (sigset_remove sig))
      else current_process_mut (sig_pending_update (sigset_remove sig)))"

text \<open>The stack the handler runs on.\<close>

definition signal_stack :: "sig_action \<Rightarrow> thread \<Rightarrow> u64 \<Rightarrow> u64 syscall" where
  "signal_stack action th fp =
     (if sa_flags action AND SA_ONSTACK \<noteq> 0 \<and> ss_flags (sig_altstack th) AND SS_DISABLE = 0
      then sys_seq (sys_get (\<lambda>_. checked_add (ss_sp (sig_altstack th)) (ss_size (sig_altstack th))) Range) (\<lambda>sp.
           sys_seq (sys_modify (current_thread_mut (on_altstack_update (\<lambda>_. True)))) (\<lambda>_. sys_ok sp))
      else sys_seq (sys_read (frame_get FRAME_R10 fp)) (\<lambda>sp.
           sys_seq (sys_modify (current_thread_mut (on_altstack_update (\<lambda>_. False)))) (\<lambda>_. sys_ok sp)))"

definition handler_mask :: "nat \<Rightarrow> sig_action \<Rightarrow> sig_set \<Rightarrow> sig_set" where
  "handler_mask sig action msk = sanitize_sigmask (sigset_union (sigset_add sig msk) (sa_mask action))"

definition enter_handler :: "nat \<Rightarrow> sig_action \<Rightarrow> u64 \<Rightarrow> u64 \<Rightarrow> kernel \<Rightarrow> kernel" where
  "enter_handler sig action fp restorer_ptr =
     frame_set FRAME_R10 fp restorer_ptr \<circ> frame_set FRAME_RCX fp (sa_handler action) \<circ>
     frame_set FRAME_RDI fp (of_nat sig) \<circ>
     current_thread_mut (\<lambda>th. th\<lparr>saved_sig_mask := sig_mask th, sig_mask := handler_mask sig action (sig_mask th),
        in_signal_handler := True\<rparr>)"

definition run_handler :: "nat \<Rightarrow> sig_action \<Rightarrow> thread \<Rightarrow> u64 \<Rightarrow> u64 syscall" where
  "run_handler sig action th frame_ptr =
     sys_seq (ensure (sa_restorer action \<noteq> 0) Invalid) (\<lambda>_.
     sys_seq (current_frame frame_ptr) (\<lambda>fp.
     sys_seq (signal_stack action th fp) (\<lambda>user_rsp.
     sys_seq (sys_get (\<lambda>_. checked_sub user_rsp (8 + of_nat FRAME_SIZE)) Fault) (\<lambda>signal_frame_ptr.
     sys_seq (ensure (user_range_ok signal_frame_ptr (8 + of_nat FRAME_SIZE)) Fault) (\<lambda>_.
     sys_seq (sys_await_test (copy_struct_to_user signal_frame_ptr (to_le_bytes 8 (sa_restorer action))) Fault) (\<lambda>_.
     sys_seq (sys_await_test (\<lambda>s. copy_struct_to_user (signal_frame_ptr + 8) (frame_bytes fp s) s) Fault) (\<lambda>_.
     sys_seq (sys_modify (enter_handler sig action fp signal_frame_ptr)) (\<lambda>_.
       sys_ok 0))))))))"

definition deliver_pending_signal :: "u64 \<Rightarrow> u64 syscall" where
  "deliver_pending_signal frame_ptr =
     sys_seq (sys_get current_process Invalid) (\<lambda>process.
     sys_seq (sys_get current_thread Invalid) (\<lambda>thread.
       if in_signal_handler thread then sys_ok 0
       else case choose_signal process thread of
              None \<Rightarrow> sys_ok 0
            | Some (sig, directed) \<Rightarrow>
                sys_seq (sys_modify (take_signal sig directed)) (\<lambda>_.
                let action = sig_handlers process ! sig
                in if sa_handler action = 0 then
                     if signal_default_ignored sig then sys_ok 0
                     else if signal_default_terminates sig
                     then sys_seq (sys_modify (terminate_process_group (group_slot thread) sig)) (\<lambda>_. sys_ok 0)
                     else sys_ok 0
                   else run_handler sig action thread frame_ptr)))"

definition finish_syscall :: "u64 \<Rightarrow> u64 \<Rightarrow> u64 \<Rightarrow> kernel \<Rightarrow> (kernel, u64) outcome" where
  "finish_syscall num frame_ptr ret s =
     (let s1 = (if frame_ptr \<noteq> 0 then frame_set FRAME_RAX frame_ptr ret s else s);
          rax = (\<lambda>t. if frame_ptr \<noteq> 0 then frame_get FRAME_RAX frame_ptr t else ret)
      in if num = RT_SIGRETURN then Done (rax s1) s1
         else obind (deliver_pending_signal frame_ptr s1) (\<lambda>_ s2. Done (rax s2) s2))"

section \<open>System calls\<close>

definition syscall_kill_impl :: "u64 \<Rightarrow> u64 \<Rightarrow> u64 syscall" where
  "syscall_kill_impl p sig =
     sys_seq (sys_get (find_slot_by_pid (unat p)) NoEntry) (\<lambda>slot.
       if sig = 0 then sys_ok 0
       else sys_seq (ensure (sig < 65) Invalid) (\<lambda>_.
         if unat sig = SIGKILL then sys_seq (sys_modify (terminate_process_group slot SIGKILL)) (\<lambda>_. sys_ok 0)
         else sys_seq (sys_test (queue_signal slot (unat sig)) NoEntry) (\<lambda>_. sys_ok 0)))"

definition syscall_tkill_impl :: "u64 \<Rightarrow> u64 \<Rightarrow> u64 syscall" where
  "syscall_tkill_impl t sig =
     sys_seq (ensure (t \<noteq> 0) Invalid) (\<lambda>_.
     sys_seq (ensure (sig < 65) Invalid) (\<lambda>_.
     sys_seq (sys_get (find_thread_slot_by_tid (unat t)) NoEntry) (\<lambda>slot.
       if sig = 0 then sys_ok 0
       else if unat sig = SIGKILL then
         sys_seq (sys_get (\<lambda>s. map_option group_slot (THREADS s ! slot)) NoEntry) (\<lambda>g.
         sys_seq (sys_modify (terminate_process_group g SIGKILL)) (\<lambda>_. sys_ok 0))
       else sys_seq (sys_test (queue_thread_signal slot (unat sig)) NoEntry) (\<lambda>_. sys_ok 0))))"

definition syscall_tgkill_impl :: "u64 \<Rightarrow> u64 \<Rightarrow> u64 \<Rightarrow> u64 syscall" where
  "syscall_tgkill_impl tgid t sig =
     sys_seq (ensure (tgid \<noteq> 0 \<and> t \<noteq> 0) Invalid) (\<lambda>_.
     sys_seq (sys_get (find_thread_slot_by_tid (unat t)) NoEntry) (\<lambda>slot.
     sys_seq (sys_get (\<lambda>s. THREADS s ! slot) NoEntry) (\<lambda>thread.
     sys_seq (sys_get (\<lambda>s. PROCESSES s ! group_slot thread) NoEntry) (\<lambda>process.
     sys_seq (ensure (pid process = unat tgid) NoEntry) (\<lambda>_.
       syscall_tkill_impl t sig)))))"

definition install_action :: "u64 \<Rightarrow> u64 \<Rightarrow> unit syscall" where
  "install_action sig act =
     sys_seq (sys_await (copy_struct_from_user 152 act) Fault) (\<lambda>bs.
     let new_action = sigaction_of bs in
     sys_seq (ensure (sa_flags new_action AND NOT (SA_RESTORER OR SA_ONSTACK) = 0) Unsupported) (\<lambda>_.
     sys_seq (if sa_handler new_action \<noteq> 0 then
                sys_seq (ensure (sa_flags new_action AND SA_RESTORER \<noteq> 0) Invalid) (\<lambda>_.
                  ensure (sa_restorer new_action \<noteq> 0) Invalid)
              else sys_ok ()) (\<lambda>_.
       sys_modify (current_process_mut (\<lambda>p. p\<lparr>sig_handlers := (sig_handlers p)[unat sig := new_action]\<rparr>)))))"

definition syscall_rt_sigaction_impl :: "u64 \<Rightarrow> u64 \<Rightarrow> u64 \<Rightarrow> u64 \<Rightarrow> u64 syscall" where
  "syscall_rt_sigaction_impl sig act oldact sigsetsize =
     sys_seq (ensure (sig > 0 \<and> sig < 65) Invalid) (\<lambda>_.
     sys_seq (ensure (sigsetsize = SIGSET_SIZE) Invalid) (\<lambda>_.
     sys_seq (sys_get current_process Invalid) (\<lambda>process.
     sys_seq (if oldact \<noteq> 0
              then sys_await_test (copy_struct_to_user oldact (sigaction_bytes (sig_handlers process ! unat sig))) Fault
              else sys_ok ()) (\<lambda>_.
     sys_seq (if act \<noteq> 0 then install_action sig act else sys_ok ()) (\<lambda>_.
       sys_ok 0)))))"

definition new_mask :: "u64 \<Rightarrow> sig_set \<Rightarrow> sig_set \<Rightarrow> sig_set" where
  "new_mask how new_set msk =
     sanitize_sigmask (if how = SIG_BLOCK then sigset_union msk new_set
       else if how = SIG_UNBLOCK then sigset_minus msk new_set
       else new_set)"

definition syscall_rt_sigprocmask_impl :: "u64 \<Rightarrow> u64 \<Rightarrow> u64 \<Rightarrow> u64 \<Rightarrow> u64 syscall" where
  "syscall_rt_sigprocmask_impl how set_ptr oldset sigsetsize =
     sys_seq (ensure (sigsetsize = SIGSET_SIZE) Invalid) (\<lambda>_.
     sys_seq (ensure (how = SIG_BLOCK \<or> how = SIG_UNBLOCK \<or> how = SIG_SETMASK) Invalid) (\<lambda>_.
     sys_seq (sys_get current_thread Invalid) (\<lambda>thread.
     sys_seq (if oldset \<noteq> 0 then sys_await_test (copy_struct_to_user oldset (u64s_bytes (sig_mask thread))) Fault
              else sys_ok ()) (\<lambda>_.
     sys_seq (if set_ptr \<noteq> 0 then
                sys_seq (sys_await (copy_struct_from_user 128 set_ptr) Fault) (\<lambda>bs.
                  sys_modify (current_thread_mut (sig_mask_update (new_mask how (sanitize_sigmask (u64s_of 16 bs))))))
              else sys_ok ()) (\<lambda>_.
       sys_ok 0)))))"

definition syscall_rt_sigreturn_impl :: "u64 \<Rightarrow> u64 syscall" where
  "syscall_rt_sigreturn_impl frame_ptr =
     sys_seq (current_frame frame_ptr) (\<lambda>fp.
     sys_seq (\<lambda>s. sys_await (copy_struct_from_user FRAME_SIZE (frame_get FRAME_R10 fp s)) Fault s) (\<lambda>bs.
     sys_seq (sys_modify (\<lambda>s. s\<lparr>MEM := wr_bytes (MEM s) (v2p fp) bs\<rparr>)) (\<lambda>_.
     sys_seq (sys_get current_thread Invalid) (\<lambda>_.
     sys_seq (sys_modify (current_thread_mut (\<lambda>th.
        th\<lparr>sig_mask := saved_sig_mask th, in_signal_handler := False, on_altstack := False\<rparr>))) (\<lambda>_.
       sys_read (frame_get FRAME_RAX fp))))))"

definition syscall_kill :: "u64 \<Rightarrow> u64 \<Rightarrow> kernel \<Rightarrow> (kernel, u64) outcome" where
  "syscall_kill p sig = sys_done (syscall_kill_impl p sig)"

definition syscall_tkill :: "u64 \<Rightarrow> u64 \<Rightarrow> kernel \<Rightarrow> (kernel, u64) outcome" where
  "syscall_tkill t sig = sys_done (syscall_tkill_impl t sig)"

definition syscall_tgkill :: "u64 \<Rightarrow> u64 \<Rightarrow> u64 \<Rightarrow> kernel \<Rightarrow> (kernel, u64) outcome" where
  "syscall_tgkill tgid t sig = sys_done (syscall_tgkill_impl tgid t sig)"

definition syscall_rt_sigaction :: "u64 \<Rightarrow> u64 \<Rightarrow> u64 \<Rightarrow> u64 \<Rightarrow> kernel \<Rightarrow> (kernel, u64) outcome" where
  "syscall_rt_sigaction sig act oldact sz = sys_done (syscall_rt_sigaction_impl sig act oldact sz)"

definition syscall_rt_sigprocmask :: "u64 \<Rightarrow> u64 \<Rightarrow> u64 \<Rightarrow> u64 \<Rightarrow> kernel \<Rightarrow> (kernel, u64) outcome" where
  "syscall_rt_sigprocmask how set_ptr oldset sz = sys_done (syscall_rt_sigprocmask_impl how set_ptr oldset sz)"

definition syscall_rt_sigreturn :: "u64 \<Rightarrow> kernel \<Rightarrow> (kernel, u64) outcome" where
  "syscall_rt_sigreturn fp = sys_done (syscall_rt_sigreturn_impl fp)"

end
