(* ===== verification/Futex.thy ===== *)
theory Futex
  imports Signals
begin

text \<open>
  Futexes and robust lists (\<^verbatim>\<open>syscall/process.rs\<close>). A waiter occupies an entry of
  \<^verbatim>\<open>FUTEX_WAITERS\<close> until it is woken, finds the word changed or runs out of time; \<open>futex_poll\<close> is
  one round of its loop, and the waiting outcome stands for the yield at the end of the round.
\<close>

unbundle bit_operations_syntax

section \<open>Constants\<close>

definition FUTEX_WAIT :: u64 where "FUTEX_WAIT = 0"
definition FUTEX_WAKE :: u64 where "FUTEX_WAKE = 1"
definition FUTEX_PRIVATE_FLAG :: u64 where "FUTEX_PRIVATE_FLAG = 128"
definition FUTEX_CMD_MASK :: u64 where "FUTEX_CMD_MASK = NOT FUTEX_PRIVATE_FLAG"
definition FUTEX_OWNER_DIED :: u32 where "FUTEX_OWNER_DIED = 0x40000000"
definition FUTEX_TID_MASK :: u32 where "FUTEX_TID_MASK = 0x3fffffff"
definition MAX_FUTEX_WAITERS :: nat where "MAX_FUTEX_WAITERS = 16"
definition ROBUST_LIST_LIMIT :: nat where "ROBUST_LIST_LIMIT = 64"
definition ROBUST_HEAD_SIZE :: nat where "ROBUST_HEAD_SIZE = 24"

lemmas futex_consts = FUTEX_WAIT_def FUTEX_WAKE_def FUTEX_PRIVATE_FLAG_def FUTEX_CMD_MASK_def
  FUTEX_OWNER_DIED_def FUTEX_TID_MASK_def MAX_FUTEX_WAITERS_def ROBUST_LIST_LIMIT_def
  ROBUST_HEAD_SIZE_def

section \<open>Waiting\<close>

definition set_waiter :: "nat \<Rightarrow> futex_waiter \<Rightarrow> kernel \<Rightarrow> kernel" where
  "set_waiter slot w s = s\<lparr>FUTEX_WAITERS := (FUTEX_WAITERS s)[slot := w]\<rparr>"

record time_spec =
  tv_sec :: i64
  tv_nsec :: i64

definition time_spec_of :: "u8 list \<Rightarrow> time_spec" where
  "time_spec_of bs = \<lparr>tv_sec = from_le_bytes (take 8 bs), tv_nsec = from_le_bytes (take 8 (drop 8 bs))\<rparr>"

definition timeout_ticks :: "u64 \<Rightarrow> u64 option syscall" where
  "timeout_ticks timeout_ptr =
     (if timeout_ptr = 0 then sys_ok None
      else sys_seq (sys_await (copy_struct_from_user 16 timeout_ptr) Fault) (\<lambda>bs.
        let timeout = time_spec_of bs in
        sys_seq (ensure (sint (tv_sec timeout) \<ge> 0 \<and> sint (tv_nsec timeout) \<ge> 0) Invalid) (\<lambda>_.
          sys_ok (Some (div_ceil (saturating_add (saturating_mul (tv_sec timeout) 1000000000) (tv_nsec timeout))
            10000000)))))"

definition futex_poll :: "nat \<Rightarrow> u64 \<Rightarrow> u32 \<Rightarrow> u64 \<Rightarrow> u64 option \<Rightarrow> u64 syscall" where
  "futex_poll slot uaddr expected start limit s =
     (if \<not> fw_in_use (FUTEX_WAITERS s ! slot) then sys_ok 0 s
      else sbind (sys_await (copy_struct_from_user 4 uaddr) Fault s) (\<lambda>bs s1.
        if from_le_bytes bs \<noteq> expected then sys_err Again (set_waiter slot futex_waiter_empty s1)
        else case limit of
               Some l \<Rightarrow>
                 if saturating_sub (TICKS s1) start \<ge> l
                 then sys_err TimedOut (set_waiter slot futex_waiter_empty s1)
                 else Waiting s1
             | None \<Rightarrow> Waiting s1))"

definition futex_wait :: "u64 \<Rightarrow> u32 \<Rightarrow> u64 \<Rightarrow> u64 syscall" where
  "futex_wait uaddr expected timeout_ptr =
     sys_seq (sys_await (copy_struct_from_user 4 uaddr) Fault) (\<lambda>bs.
       if from_le_bytes bs \<noteq> expected then sys_err Again
       else
         sys_seq (timeout_ticks timeout_ptr) (\<lambda>limit.
         sys_seq (sys_get (\<lambda>s. position (\<lambda>w. \<not> fw_in_use w) (FUTEX_WAITERS s)) NoMem) (\<lambda>slot.
         sys_seq (sys_modify (set_waiter slot \<lparr>fw_in_use = True, fw_addr = uaddr\<rparr>)) (\<lambda>_.
         sys_seq (sys_read TICKS) (\<lambda>start.
           futex_poll slot uaddr expected start limit)))))"

section \<open>Waking\<close>

text \<open>The loop over the waiters; \<open>woke\<close> counts those woken so far.\<close>

primrec futex_wake_loop :: "u64 \<Rightarrow> nat \<Rightarrow> nat \<Rightarrow> futex_waiter list \<Rightarrow> nat \<times> futex_waiter list" where
  "futex_wake_loop uaddr count woke [] = (woke, [])"
| "futex_wake_loop uaddr count woke (w # ws) =
     (if \<not> fw_in_use w \<or> fw_addr w \<noteq> uaddr then
        (case futex_wake_loop uaddr count woke ws of (n, ws') \<Rightarrow> (n, w # ws'))
      else if Suc woke = count then (Suc woke, w\<lparr>fw_in_use := False\<rparr> # ws)
      else (case futex_wake_loop uaddr count (Suc woke) ws of (n, ws') \<Rightarrow> (n, w\<lparr>fw_in_use := False\<rparr> # ws')))"

definition futex_wake :: "u64 \<Rightarrow> nat \<Rightarrow> kernel \<Rightarrow> nat \<times> kernel" where
  "futex_wake uaddr count s =
     (case futex_wake_loop uaddr count 0 (FUTEX_WAITERS s) of (n, ws) \<Rightarrow> (n, s\<lparr>FUTEX_WAITERS := ws\<rparr>))"

definition syscall_futex_impl :: "u64 \<Rightarrow> u64 \<Rightarrow> u64 \<Rightarrow> u64 \<Rightarrow> u64 syscall" where
  "syscall_futex_impl uaddr futex_op val timeout_ptr =
     sys_seq (ensure (user_range_ok uaddr 4) Fault) (\<lambda>_.
       let op = futex_op AND FUTEX_CMD_MASK
       in if op = FUTEX_WAIT then futex_wait uaddr (ucast val) timeout_ptr
          else if op = FUTEX_WAKE
          then (\<lambda>s. case futex_wake uaddr (unat val) s of (n, s1) \<Rightarrow> sys_ok (of_nat n) s1)
          else sys_err Unsupported)"

definition syscall_futex :: "u64 \<Rightarrow> u64 \<Rightarrow> u64 \<Rightarrow> u64 \<Rightarrow> kernel \<Rightarrow> (kernel, u64) outcome" where
  "syscall_futex uaddr op val timeout_ptr = sys_done (syscall_futex_impl uaddr op val timeout_ptr)"

section \<open>Robust lists\<close>

record robust_list_head =
  rl_next :: u64
  rl_futex_offset :: i64
  rl_pending :: u64

definition robust_head_of :: "u8 list \<Rightarrow> robust_list_head" where
  "robust_head_of bs =
     \<lparr>rl_next = from_le_bytes (take 8 bs), rl_futex_offset = from_le_bytes (take 8 (drop 8 bs)),
      rl_pending = from_le_bytes (take 8 (drop 16 bs))\<rparr>"

definition wake_robust_futex :: "u64 \<Rightarrow> u32 \<Rightarrow> kernel \<Rightarrow> (kernel, unit) outcome" where
  "wake_robust_futex uaddr t s =
     (if \<not> user_range_ok uaddr 4 then Done () s
      else obind (copy_struct_from_user 4 uaddr s) (\<lambda>r s1.
        case r of
          None \<Rightarrow> Done () s1
        | Some bs \<Rightarrow>
            let word = from_le_bytes bs
            in if word AND FUTEX_TID_MASK \<noteq> t then Done () s1
               else obind (copy_struct_to_user uaddr
                             (to_le_bytes 4 ((word AND NOT FUTEX_TID_MASK) OR FUTEX_OWNER_DIED)) s1) (\<lambda>_ s2.
                      Done () (snd (futex_wake uaddr 1 s2)))))"

definition robust_futex_addr :: "i64 \<Rightarrow> u64 \<Rightarrow> u64" where
  "robust_futex_addr off node =
     (if sint off \<ge> 0 then saturating_add node off else saturating_sub node (- off))"

text \<open>The walk over the list, for at most \<open>n\<close> more nodes.\<close>

primrec robust_loop :: "nat \<Rightarrow> u64 \<Rightarrow> i64 \<Rightarrow> u32 \<Rightarrow> u64 \<Rightarrow> kernel \<Rightarrow> (kernel, unit) outcome" where
  "robust_loop 0 head_ptr off t node s = Done () s"
| "robust_loop (Suc n) head_ptr off t node s =
     (if node = 0 \<or> node = head_ptr then Done () s
      else obind (wake_robust_futex (robust_futex_addr off node) t s) (\<lambda>_ s1.
           obind (copy_struct_from_user 8 node s1) (\<lambda>r s2.
             case r of
               None \<Rightarrow> Done () s2
             | Some bs \<Rightarrow> robust_loop n head_ptr off t (from_le_bytes bs) s2)))"

definition release_robust_list :: "kernel \<Rightarrow> (kernel, unit) outcome" where
  "release_robust_list s =
     (case current_thread s of
        None \<Rightarrow> Done () s
      | Some th \<Rightarrow>
          if robust_list_head th = 0 \<or> robust_list_len th \<noteq> of_nat ROBUST_HEAD_SIZE then Done () s
          else
            let t = of_nat (tid th); head_ptr = robust_list_head th
            in obind (copy_struct_from_user ROBUST_HEAD_SIZE head_ptr s) (\<lambda>r s1.
                 case r of
                   None \<Rightarrow> Done () s1
                 | Some bs \<Rightarrow>
                     let head = robust_head_of bs
                     in obind (robust_loop ROBUST_LIST_LIMIT head_ptr (rl_futex_offset head) t (rl_next head) s1) (\<lambda>_ s2.
                          if rl_pending head \<noteq> 0
                          then wake_robust_futex (robust_futex_addr (rl_futex_offset head) (rl_pending head)) t s2
                          else Done () s2)))"

definition clear_child_tid_and_wake :: "kernel \<Rightarrow> (kernel, unit) outcome" where
  "clear_child_tid_and_wake s =
     obind (release_robust_list s) (\<lambda>_ s1.
       case current_thread s1 of
         None \<Rightarrow> Done () s1
       | Some th \<Rightarrow>
           if clear_child_tid th = 0 then Done () s1
           else obind (copy_struct_to_user (clear_child_tid th) (to_le_bytes 4 (0 :: u32)) s1) (\<lambda>_ s2.
                  Done () (snd (futex_wake (clear_child_tid th) 1 s2))))"

definition syscall_set_robust_list_impl :: "u64 \<Rightarrow> u64 \<Rightarrow> u64 syscall" where
  "syscall_set_robust_list_impl head len =
     sys_seq (ensure (head \<noteq> 0) Fault) (\<lambda>_.
     sys_seq (ensure (unat len = ROBUST_HEAD_SIZE) Invalid) (\<lambda>_.
     sys_seq (ensure (user_range_ok head len) Fault) (\<lambda>_.
     sys_seq (sys_get current_thread Invalid) (\<lambda>_.
     sys_seq (sys_modify (current_thread_mut (\<lambda>th. th\<lparr>robust_list_head := head, robust_list_len := len\<rparr>))) (\<lambda>_.
       sys_ok 0)))))"

definition syscall_get_robust_list_impl :: "u64 \<Rightarrow> u64 \<Rightarrow> u64 \<Rightarrow> u64 syscall" where
  "syscall_get_robust_list_impl p head_ptr len_ptr =
     sys_seq (ensure (head_ptr \<noteq> 0 \<and> len_ptr \<noteq> 0) Fault) (\<lambda>_.
     sys_seq (if p = 0 then sys_get current_task_slot Invalid
              else sys_get (find_thread_slot_by_tid (unat p)) NoEntry) (\<lambda>slot.
     sys_seq (sys_get (\<lambda>s. THREADS s ! slot) NoEntry) (\<lambda>thread.
     sys_seq (sys_await_test (copy_struct_to_user head_ptr (to_le_bytes 8 (robust_list_head thread))) Fault) (\<lambda>_.
     sys_seq (sys_await_test (copy_struct_to_user len_ptr (to_le_bytes 8 (robust_list_len thread))) Fault) (\<lambda>_.
       sys_ok 0)))))"

definition syscall_set_robust_list :: "u64 \<Rightarrow> u64 \<Rightarrow> kernel \<Rightarrow> (kernel, u64) outcome" where
  "syscall_set_robust_list head len = sys_done (syscall_set_robust_list_impl head len)"

definition syscall_get_robust_list :: "u64 \<Rightarrow> u64 \<Rightarrow> u64 \<Rightarrow> kernel \<Rightarrow> (kernel, u64) outcome" where
  "syscall_get_robust_list p head_ptr len_ptr = sys_done (syscall_get_robust_list_impl p head_ptr len_ptr)"

section \<open>How many are woken\<close>

definition waits_at :: "u64 \<Rightarrow> futex_waiter \<Rightarrow> bool" where
  "waits_at uaddr w \<longleftrightarrow> fw_in_use w \<and> fw_addr w = uaddr"

definition woken :: "u64 \<Rightarrow> futex_waiter \<Rightarrow> futex_waiter \<Rightarrow> bool" where
  "woken uaddr w w' \<longleftrightarrow> w' = w \<or> waits_at uaddr w \<and> w' = w\<lparr>fw_in_use := False\<rparr>"

lemma futex_wake_loop_count:
  assumes "futex_wake_loop uaddr count woke ws = (n, ws')" "woke < count \<or> count = 0"
  shows "n = woke + (let k = count_if (waits_at uaddr) ws in if count = 0 then k else min (count - woke) k) \<and>
    count_if (waits_at uaddr) ws' + n = count_if (waits_at uaddr) ws + woke \<and> list_all2 (woken uaddr) ws ws'"
  using assms
proof (induction ws arbitrary: woke n ws')
  case Nil
  then show ?case by (simp add: count_if_def)
next
  case (Cons w ws)
  show ?case
  proof (cases "waits_at uaddr w")
    case False
    with Cons.prems Cons.IH [of woke] show ?thesis
      by (auto simp: waits_at_def count_if_def woken_def Let_def split: prod.splits)
  next
    case True
    then show ?thesis
      using Cons.prems Cons.IH [of "Suc woke"]
      by (auto simp: waits_at_def count_if_def woken_def Let_def min_def list_all2_refl split: prod.splits if_splits)
  qed
qed

text \<open>C13: Waking at an address wakes as many threads as asked for, or all that wait there when fewer
  do, and returns their number; a count of 0 wakes all of them. That many waiters fewer are left at
  the address, and no entry changes other than a waiter there that is released.\<close>

theorem futex_wake_exact:
  "let k = count_if (waits_at uaddr) (FUTEX_WAITERS s); r = futex_wake uaddr count s
   in fst r = (if count = 0 then k else min count k) \<and>
      count_if (waits_at uaddr) (FUTEX_WAITERS (snd r)) = k - fst r \<and>
      list_all2 (woken uaddr) (FUTEX_WAITERS s) (FUTEX_WAITERS (snd r))"
proof -
  obtain n ws where w: "futex_wake_loop uaddr count 0 (FUTEX_WAITERS s) = (n, ws)" by fastforce
  from futex_wake_loop_count [OF w] show ?thesis by (auto simp: futex_wake_def w Let_def)
qed

end
