(* ===== verification/SysMisc.thy ===== *)
theory SysMisc
  imports Futex
begin

text \<open>
  System information, limits, the alternate signal stack, thread-local storage and random numbers
  (\<^verbatim>\<open>syscall/sys.rs\<close>), time (\<^verbatim>\<open>syscall/time.rs\<close>, \<^verbatim>\<open>hw/pit.rs\<close>) and the stubs of the socket layer
  (\<^verbatim>\<open>syscall/net.rs\<close>). The bytes of padding in \<^verbatim>\<open>StackT\<close> and \<^verbatim>\<open>SysInfo\<close>, which the source leaves
  undefined, are 0. A sleeping call is waiting; \<open>sleep_poll\<close> is one round of its loop.
\<close>

unbundle bit_operations_syntax

section \<open>System information\<close>

definition uts_field :: "string \<Rightarrow> u8 list" where
  "uts_field v = map of_char v @ replicate (65 - length v) 0"

definition utsname_new :: "u8 list" where
  "utsname_new =
     uts_field ''CoreOS'' @ uts_field ''localhost'' @ uts_field ''0.1.0'' @
     uts_field ''#1 SMP Sat Mar 21 2026'' @ uts_field ''x86_64'' @ uts_field ''(none)''"

definition syscall_uname_impl :: "u64 \<Rightarrow> u64 syscall" where
  "syscall_uname_impl buf =
     sys_seq (ensure (buf \<noteq> 0) Fault) (\<lambda>_.
     sys_seq (sys_await_test (copy_struct_to_user buf utsname_new) Fault) (\<lambda>_.
       sys_ok 0))"

definition uptime_seconds :: "kernel \<Rightarrow> u64" where
  "uptime_seconds s = TICKS s div 100"

definition sysinfo_bytes :: "kernel \<Rightarrow> u8 list" where
  "sysinfo_bytes s =
     to_le_bytes 8 (uptime_seconds s) @ replicate 24 0 @ to_le_bytes 8 (of_nat (total_bytes s) :: u64) @
     to_le_bytes 8 (of_nat (free_bytes s) :: u64) @ replicate 32 0 @
     to_le_bytes 2 (of_nat (active_process_count s) :: 16 word) @ replicate 6 0 @ replicate 16 0 @
     to_le_bytes 4 (1 :: u32) @ replicate 12 0"

definition syscall_sysinfo_impl :: "u64 \<Rightarrow> u64 syscall" where
  "syscall_sysinfo_impl info_ptr =
     sys_seq (sys_read sysinfo_bytes) (\<lambda>info.
     sys_seq (sys_await_test (copy_struct_to_user info_ptr info) Fault) (\<lambda>_.
       sys_ok 0))"

section \<open>Limits\<close>

definition RLIM_INFINITY :: u64 where "RLIM_INFINITY = NOT 0"
definition RLIMIT_NOFILE :: i32 where "RLIMIT_NOFILE = 7"
definition RLIMIT_STACK :: i32 where "RLIMIT_STACK = 3"
definition RLIMIT_AS :: i32 where "RLIMIT_AS = 9"
definition RLIMIT_DATA :: i32 where "RLIMIT_DATA = 2"
definition RLIMIT_CORE :: i32 where "RLIMIT_CORE = 4"

definition rlimit_for :: "i32 \<Rightarrow> (u64 \<times> u64) option" where
  "rlimit_for resource =
     (if resource = RLIMIT_NOFILE then Some (1024, 4096)
      else if resource = RLIMIT_STACK then Some (8 * 1024 * 1024, RLIM_INFINITY)
      else if resource = RLIMIT_AS \<or> resource = RLIMIT_DATA then Some (RLIM_INFINITY, RLIM_INFINITY)
      else if resource = RLIMIT_CORE then Some (0, RLIM_INFINITY)
      else None)"

definition syscall_getrlimit_impl :: "i32 \<Rightarrow> u64 \<Rightarrow> u64 syscall" where
  "syscall_getrlimit_impl resource rlim =
     sys_seq (ensure (rlim \<noteq> 0) Fault) (\<lambda>_.
     sys_seq (sys_get (\<lambda>_. rlimit_for resource) Invalid) (\<lambda>(cur, hi).
     sys_seq (sys_await_test (copy_struct_to_user rlim (u64s_bytes [cur, hi])) Fault) (\<lambda>_.
       sys_ok 0)))"

definition syscall_setrlimit :: "i32 \<Rightarrow> u64 \<Rightarrow> kernel \<Rightarrow> (kernel, u64) outcome" where
  "syscall_setrlimit resource rlim = sys_done (sys_ok 0)"

definition syscall_prlimit64_impl :: "i32 \<Rightarrow> i32 \<Rightarrow> u64 \<Rightarrow> u64 \<Rightarrow> u64 syscall" where
  "syscall_prlimit64_impl p resource new_limit old_limit =
     sys_seq (\<lambda>s. ensure (p = 0 \<or> unat (scast p :: usize) = current_pid s) NoEntry s) (\<lambda>_.
     sys_seq (if old_limit \<noteq> 0 then syscall_getrlimit_impl resource old_limit else sys_ok 0) (\<lambda>_.
       sys_ok 0))"

section \<open>The current directory\<close>

definition ROOT_DIR :: "u8 list" where "ROOT_DIR = [0x2F, 0]"

definition syscall_getcwd_impl :: "u64 \<Rightarrow> u64 \<Rightarrow> u64 syscall" where
  "syscall_getcwd_impl buf sz =
     sys_seq (ensure (buf \<noteq> 0) Fault) (\<lambda>_.
     sys_seq (ensure (sz \<ge> of_nat (length ROOT_DIR)) Range) (\<lambda>_.
     sys_seq (sys_await_test (copy_to_user buf ROOT_DIR) Fault) (\<lambda>_.
       sys_ok buf)))"

definition syscall_chdir_impl :: "u64 \<Rightarrow> u64 syscall" where
  "syscall_chdir_impl path_ptr =
     sys_seq (sys_await (copy_cstr_from_user path_ptr) Fault) (\<lambda>raw.
       if raw = [0x2F] then sys_ok 0
       else
         sys_seq (sys_await (copy_path_cstr_from_user path_ptr) Fault) (\<lambda>name.
         sys_seq (ensure (name = ''.'') NoEntry) (\<lambda>_.
           sys_ok 0)))"

section \<open>The alternate signal stack\<close>

definition stack_t_bytes :: "stack_t \<Rightarrow> u8 list" where
  "stack_t_bytes st =
     to_le_bytes 8 (ss_sp st) @ to_le_bytes 4 (ss_flags st) @ replicate 4 0 @ to_le_bytes 8 (ss_size st)"

definition stack_t_of :: "u8 list \<Rightarrow> stack_t" where
  "stack_t_of bs =
     \<lparr>ss_sp = from_le_bytes (take 8 bs), ss_flags = from_le_bytes (take 4 (drop 8 bs)),
      ss_size = from_le_bytes (take 8 (drop 16 bs))\<rparr>"

definition install_altstack :: "u64 \<Rightarrow> unit syscall" where
  "install_altstack ss_ptr =
     sys_seq (sys_await (copy_struct_from_user 24 ss_ptr) Fault) (\<lambda>bs.
     let new_stack = stack_t_of bs in
     sys_seq (if ss_flags new_stack AND 2 \<noteq> 0 then sys_ok stack_disabled
              else sys_seq (ensure (ss_sp new_stack \<noteq> 0 \<and> ss_size new_stack \<noteq> 0) Invalid) (\<lambda>_.
                     sys_ok (new_stack\<lparr>ss_flags := 0\<rparr>))) (\<lambda>st.
       sys_modify (current_thread_mut (\<lambda>th. th\<lparr>sig_altstack := st\<rparr>))))"

definition syscall_sigaltstack_impl :: "u64 \<Rightarrow> u64 \<Rightarrow> u64 syscall" where
  "syscall_sigaltstack_impl ss_ptr old_ss_ptr =
     sys_seq (sys_get current_thread Invalid) (\<lambda>thread.
     let current = (if on_altstack thread then (sig_altstack thread)\<lparr>ss_flags := ss_flags (sig_altstack thread) OR 1\<rparr>
                    else sig_altstack thread) in
     sys_seq (if old_ss_ptr \<noteq> 0 then sys_await_test (copy_struct_to_user old_ss_ptr (stack_t_bytes current)) Fault
              else sys_ok ()) (\<lambda>_.
     sys_seq (if ss_ptr \<noteq> 0 then install_altstack ss_ptr else sys_ok ()) (\<lambda>_.
       sys_ok 0)))"

section \<open>Thread-local storage\<close>

definition ARCH_SET_FS :: u64 where "ARCH_SET_FS = 0x1002"
definition ARCH_GET_FS :: u64 where "ARCH_GET_FS = 0x1003"

definition syscall_arch_prctl_impl :: "u64 \<Rightarrow> u64 \<Rightarrow> u64 syscall" where
  "syscall_arch_prctl_impl code addr =
     (if code = ARCH_SET_FS then
        sys_seq (ensure (addr < USER_TOP) Invalid) (\<lambda>_.
        sys_seq (sys_get current_thread Invalid) (\<lambda>_.
        sys_seq (sys_modify (\<lambda>s. (current_thread_mut (\<lambda>th. th\<lparr>fs_base := addr\<rparr>) s)\<lparr>FS_BASE := addr\<rparr>)) (\<lambda>_.
          sys_ok 0)))
      else if code = ARCH_GET_FS then
        sys_seq (ensure (addr \<noteq> 0) Fault) (\<lambda>_.
        sys_seq (sys_read current_fs_base) (\<lambda>base.
        sys_seq (sys_await_test (copy_struct_to_user addr (to_le_bytes 8 base)) Fault) (\<lambda>_.
          sys_ok 0)))
      else sys_err Invalid)"

section \<open>Random numbers\<close>

definition GRND_NONBLOCK :: u64 where "GRND_NONBLOCK = 1"
definition GRND_RANDOM :: u64 where "GRND_RANDOM = 2"

definition xorshift :: "u64 \<Rightarrow> u64" where
  "xorshift state =
     (let a = state XOR push_bit 13 state; b = a XOR drop_bit 7 a in b XOR push_bit 17 b)"

definition rng_seed :: "kernel \<Rightarrow> u64" where
  "rng_seed s = TICKS s XOR push_bit 32 (of_nat (current_pid s)) XOR 0x9E3779B97F4A7C15"

definition next_random_u64 :: "kernel \<Rightarrow> u64 \<times> kernel" where
  "next_random_u64 s =
     (let state = xorshift (if RNG_STATE s = 0 then rng_seed s else RNG_STATE s)
      in (state, s\<lparr>RNG_STATE := state\<rparr>))"

text \<open>The loop that fills the buffer; \<open>rest\<close> holds the bytes not used yet of the last number.\<close>

primrec random_loop :: "nat \<Rightarrow> u64 \<Rightarrow> kernel \<Rightarrow> u8 list \<times> kernel" where
  "random_loop 0 rest s = ([], s)"
| "random_loop (Suc n) rest s =
     (case (if rest = 0 then next_random_u64 s else (rest, s)) of
        (rest', s1) \<Rightarrow> (case random_loop n (drop_bit 8 rest') s1 of (bs, s2) \<Rightarrow> (ucast rest' # bs, s2)))"

definition syscall_getrandom_impl :: "u64 \<Rightarrow> u64 \<Rightarrow> u64 \<Rightarrow> u64 syscall" where
  "syscall_getrandom_impl buf_ptr len flags =
     sys_seq (ensure (flags AND NOT (GRND_NONBLOCK OR GRND_RANDOM) = 0) Invalid) (\<lambda>_.
     sys_seq (ensure (user_range_ok buf_ptr len) Fault) (\<lambda>_.
     sys_seq (\<lambda>s. case random_loop (unat len) 0 s of (bs, s1) \<Rightarrow> sys_ok bs s1) (\<lambda>bytes.
     sys_seq (sys_await_test (copy_to_user buf_ptr bytes) Fault) (\<lambda>_.
       sys_ok len))))"

section \<open>Time\<close>

definition CLOCK_REALTIME :: u64 where "CLOCK_REALTIME = 0"
definition CLOCK_MONOTONIC :: u64 where "CLOCK_MONOTONIC = 1"
definition NANOS_PER_SEC :: u64 where "NANOS_PER_SEC = 1000000000"
definition PIT_HZ :: u64 where "PIT_HZ = 100"
definition TIMER_ABSTIME :: u64 where "TIMER_ABSTIME = 1"

lemmas time_consts = CLOCK_REALTIME_def CLOCK_MONOTONIC_def NANOS_PER_SEC_def PIT_HZ_def TIMER_ABSTIME_def

definition sleep_poll :: "u64 \<Rightarrow> u64 \<Rightarrow> kernel \<Rightarrow> (kernel, unit) outcome" where
  "sleep_poll start wait_ticks s = (if TICKS s - start < wait_ticks then Waiting s else Done () s)"

definition sleep_yield :: "u64 \<Rightarrow> kernel \<Rightarrow> (kernel, unit) outcome" where
  "sleep_yield wait_ticks s = sleep_poll (TICKS s) wait_ticks s"

definition valid_timespec :: "time_spec \<Rightarrow> bool" where
  "valid_timespec req \<longleftrightarrow>
     sint (tv_sec req) \<ge> 0 \<and> sint (tv_nsec req) \<ge> 0 \<and> sint (tv_nsec req) < sint NANOS_PER_SEC"

definition put_zero_timespec :: "u64 \<Rightarrow> unit syscall" where
  "put_zero_timespec ptr =
     (if ptr \<noteq> 0 then sys_await_test (copy_struct_to_user ptr (u64s_bytes [0, 0])) Fault else sys_ok ())"

definition sleep_timespec :: "time_spec \<Rightarrow> u64 \<Rightarrow> u64 syscall" where
  "sleep_timespec req rem_ptr =
     sys_seq (ensure (valid_timespec req) Invalid) (\<lambda>_.
     sys_seq (sys_run (sleep_yield (div_ceil
         (saturating_add (saturating_mul (tv_sec req) NANOS_PER_SEC) (tv_nsec req)) (NANOS_PER_SEC div PIT_HZ)))) (\<lambda>_.
     sys_seq (put_zero_timespec rem_ptr) (\<lambda>_.
       sys_ok 0)))"

definition nanosleep_impl :: "u64 \<Rightarrow> u64 \<Rightarrow> u64 syscall" where
  "nanosleep_impl req_ptr rem_ptr =
     sys_seq (sys_await (copy_struct_from_user 16 req_ptr) Fault) (\<lambda>bs. sleep_timespec (time_spec_of bs) rem_ptr)"

definition now_spec :: "kernel \<Rightarrow> time_spec" where
  "now_spec s =
     \<lparr>tv_sec = TICKS s div PIT_HZ, tv_nsec = (TICKS s mod PIT_HZ) * (NANOS_PER_SEC div PIT_HZ)\<rparr>"

definition valid_clock :: "u64 \<Rightarrow> bool" where
  "valid_clock clockid \<longleftrightarrow> clockid = CLOCK_REALTIME \<or> clockid = CLOCK_MONOTONIC"

definition clock_gettime_impl :: "u64 \<Rightarrow> u64 \<Rightarrow> u64 syscall" where
  "clock_gettime_impl clockid tp_ptr =
     sys_seq (ensure (valid_clock clockid) Invalid) (\<lambda>_.
     sys_seq (sys_read now_spec) (\<lambda>ts.
     sys_seq (sys_await_test (copy_struct_to_user tp_ptr (u64s_bytes [tv_sec ts, tv_nsec ts])) Fault) (\<lambda>_.
       sys_ok 0)))"

definition gettimeofday_impl :: "u64 \<Rightarrow> u64 \<Rightarrow> u64 syscall" where
  "gettimeofday_impl tv_ptr tz_ptr =
     sys_seq (sys_read TICKS) (\<lambda>t.
     sys_seq (sys_await_test (copy_struct_to_user tv_ptr
         (u64s_bytes [t div PIT_HZ, (t mod PIT_HZ) * (1000000 div PIT_HZ)])) Fault) (\<lambda>_.
       sys_ok 0))"

text \<open>Nanoseconds as an \<^verbatim>\<open>i128\<close>, which neither operand can overflow.\<close>

definition spec_ns :: "time_spec \<Rightarrow> int" where
  "spec_ns ts = sint (tv_sec ts) * 1000000000 + sint (tv_nsec ts)"

definition clock_nanosleep_impl :: "u64 \<Rightarrow> u64 \<Rightarrow> u64 \<Rightarrow> u64 \<Rightarrow> u64 syscall" where
  "clock_nanosleep_impl clockid flags req_ptr rem_ptr =
     sys_seq (ensure (valid_clock clockid) Invalid) (\<lambda>_.
       if flags = 0 then nanosleep_impl req_ptr rem_ptr
       else
         sys_seq (ensure (flags = TIMER_ABSTIME) Invalid) (\<lambda>_.
         sys_seq (sys_await (copy_struct_from_user 16 req_ptr) Fault) (\<lambda>bs.
         let req = time_spec_of bs in
         sys_seq (ensure (valid_timespec req) Invalid) (\<lambda>_.
         sys_seq (sys_read now_spec) (\<lambda>now.
           if spec_ns req \<le> spec_ns now then sys_seq (put_zero_timespec rem_ptr) (\<lambda>_. sys_ok 0)
           else
             let delta_ns = word_of_int (spec_ns req - spec_ns now) :: u64
             in sleep_timespec \<lparr>tv_sec = delta_ns div NANOS_PER_SEC, tv_nsec = delta_ns mod NANOS_PER_SEC\<rparr> rem_ptr)))))"

text \<open>\<^verbatim>\<open>boottime\<close> copies a report that \<^verbatim>\<open>bench.rs\<close> has made; its text is an argument.\<close>

definition boottime_impl :: "u8 list \<Rightarrow> u64 \<Rightarrow> u64 \<Rightarrow> u64 syscall" where
  "boottime_impl report buf_ptr buf_len =
     (let count = min (unat buf_len) (length report) in
      sys_seq (sys_await_test (copy_to_user buf_ptr (take count report)) Fault) (\<lambda>_.
        sys_ok (of_nat count)))"

definition time_ticks :: "kernel \<Rightarrow> (kernel, u64) outcome" where
  "time_ticks s = Done (TICKS s) s"

definition time_uptime_seconds :: "kernel \<Rightarrow> (kernel, u64) outcome" where
  "time_uptime_seconds s = Done (uptime_seconds s) s"

definition sleep_ticks :: "u64 \<Rightarrow> kernel \<Rightarrow> (kernel, u64) outcome" where
  "sleep_ticks n s = obind (sleep_yield n s) (\<lambda>_. Done 0)"

section \<open>Sockets\<close>

definition syscall_socket :: "i32 \<Rightarrow> i32 \<Rightarrow> i32 \<Rightarrow> u64" where
  "syscall_socket domain sock_type protocol = errno AddrFamilyNotSupported"

definition syscall_bind :: "i32 \<Rightarrow> u64 \<Rightarrow> u32 \<Rightarrow> u64" where
  "syscall_bind sockfd addr addrlen = errno NoSys"

definition syscall_connect :: "i32 \<Rightarrow> u64 \<Rightarrow> u32 \<Rightarrow> u64" where
  "syscall_connect sockfd addr addrlen = errno NoSys"

definition syscall_listen :: "i32 \<Rightarrow> i32 \<Rightarrow> u64" where
  "syscall_listen sockfd backlog = errno NoSys"

definition syscall_accept :: "i32 \<Rightarrow> u64 \<Rightarrow> u64 \<Rightarrow> u64" where
  "syscall_accept sockfd addr addrlen = errno NoSys"

definition syscall_accept4 :: "i32 \<Rightarrow> u64 \<Rightarrow> u64 \<Rightarrow> i32 \<Rightarrow> u64" where
  "syscall_accept4 sockfd addr addrlen flags = errno NoSys"

definition syscall_sendto :: "i32 \<Rightarrow> u64 \<Rightarrow> u64 \<Rightarrow> i32 \<Rightarrow> u64 \<Rightarrow> u32 \<Rightarrow> u64" where
  "syscall_sendto sockfd buf len flags dest_addr addrlen = errno NoSys"

definition syscall_recvfrom :: "i32 \<Rightarrow> u64 \<Rightarrow> u64 \<Rightarrow> i32 \<Rightarrow> u64 \<Rightarrow> u64 \<Rightarrow> u64" where
  "syscall_recvfrom sockfd buf len flags src_addr addrlen = errno NoSys"

definition syscall_shutdown :: "i32 \<Rightarrow> i32 \<Rightarrow> u64" where
  "syscall_shutdown sockfd how = errno NoSys"

definition syscall_setsockopt :: "i32 \<Rightarrow> i32 \<Rightarrow> i32 \<Rightarrow> u64 \<Rightarrow> u32 \<Rightarrow> u64" where
  "syscall_setsockopt sockfd level optname optval optlen = errno NoSys"

definition syscall_getsockopt :: "i32 \<Rightarrow> i32 \<Rightarrow> i32 \<Rightarrow> u64 \<Rightarrow> u64 \<Rightarrow> u64" where
  "syscall_getsockopt sockfd level optname optval optlen = errno NoSys"

definition syscall_getsockname :: "i32 \<Rightarrow> u64 \<Rightarrow> u64 \<Rightarrow> u64" where
  "syscall_getsockname sockfd addr addrlen = errno NoSys"

definition syscall_getpeername :: "i32 \<Rightarrow> u64 \<Rightarrow> u64 \<Rightarrow> u64" where
  "syscall_getpeername sockfd addr addrlen = errno NoSys"

definition syscall_socketpair :: "i32 \<Rightarrow> i32 \<Rightarrow> i32 \<Rightarrow> u64 \<Rightarrow> u64" where
  "syscall_socketpair domain sock_type protocol sv = errno NoSys"

section \<open>Entry points\<close>

definition syscall_uname :: "u64 \<Rightarrow> kernel \<Rightarrow> (kernel, u64) outcome" where
  "syscall_uname buf = sys_done (syscall_uname_impl buf)"

definition syscall_sysinfo :: "u64 \<Rightarrow> kernel \<Rightarrow> (kernel, u64) outcome" where
  "syscall_sysinfo info_ptr = sys_done (syscall_sysinfo_impl info_ptr)"

definition syscall_getrlimit :: "i32 \<Rightarrow> u64 \<Rightarrow> kernel \<Rightarrow> (kernel, u64) outcome" where
  "syscall_getrlimit resource rlim = sys_done (syscall_getrlimit_impl resource rlim)"

definition syscall_prlimit64 :: "i32 \<Rightarrow> i32 \<Rightarrow> u64 \<Rightarrow> u64 \<Rightarrow> kernel \<Rightarrow> (kernel, u64) outcome" where
  "syscall_prlimit64 p resource new_limit old_limit = sys_done (syscall_prlimit64_impl p resource new_limit old_limit)"

definition syscall_getcwd :: "u64 \<Rightarrow> u64 \<Rightarrow> kernel \<Rightarrow> (kernel, u64) outcome" where
  "syscall_getcwd buf sz = sys_done (syscall_getcwd_impl buf sz)"

definition syscall_chdir :: "u64 \<Rightarrow> kernel \<Rightarrow> (kernel, u64) outcome" where
  "syscall_chdir path_ptr = sys_done (syscall_chdir_impl path_ptr)"

definition syscall_sigaltstack :: "u64 \<Rightarrow> u64 \<Rightarrow> kernel \<Rightarrow> (kernel, u64) outcome" where
  "syscall_sigaltstack ss_ptr old_ss_ptr = sys_done (syscall_sigaltstack_impl ss_ptr old_ss_ptr)"

definition syscall_arch_prctl :: "u64 \<Rightarrow> u64 \<Rightarrow> kernel \<Rightarrow> (kernel, u64) outcome" where
  "syscall_arch_prctl code addr = sys_done (syscall_arch_prctl_impl code addr)"

definition syscall_getrandom :: "u64 \<Rightarrow> u64 \<Rightarrow> u64 \<Rightarrow> kernel \<Rightarrow> (kernel, u64) outcome" where
  "syscall_getrandom buf_ptr len flags = sys_done (syscall_getrandom_impl buf_ptr len flags)"

definition time_nanosleep :: "u64 \<Rightarrow> u64 \<Rightarrow> kernel \<Rightarrow> (kernel, u64) outcome" where
  "time_nanosleep req_ptr rem_ptr = sys_done (nanosleep_impl req_ptr rem_ptr)"

definition time_clock_gettime :: "u64 \<Rightarrow> u64 \<Rightarrow> kernel \<Rightarrow> (kernel, u64) outcome" where
  "time_clock_gettime clockid tp_ptr = sys_done (clock_gettime_impl clockid tp_ptr)"

definition time_gettimeofday :: "u64 \<Rightarrow> u64 \<Rightarrow> kernel \<Rightarrow> (kernel, u64) outcome" where
  "time_gettimeofday tv_ptr tz_ptr = sys_done (gettimeofday_impl tv_ptr tz_ptr)"

definition time_clock_nanosleep :: "u64 \<Rightarrow> u64 \<Rightarrow> u64 \<Rightarrow> u64 \<Rightarrow> kernel \<Rightarrow> (kernel, u64) outcome" where
  "time_clock_nanosleep clockid flags req_ptr rem_ptr = sys_done (clock_nanosleep_impl clockid flags req_ptr rem_ptr)"

definition time_boottime :: "u8 list \<Rightarrow> u64 \<Rightarrow> u64 \<Rightarrow> kernel \<Rightarrow> (kernel, u64) outcome" where
  "time_boottime report buf_ptr buf_len = sys_done (boottime_impl report buf_ptr buf_len)"

end
