(* ===== verification/Exec.thy ===== *)
theory Exec
  imports SysBase
begin

text \<open>
  Program loading: the ELF loader (\<^verbatim>\<open>proc/elf.rs\<close>) and the start of a program in a new task
  (\<^verbatim>\<open>proc/exec.rs\<close>). The loader walks the program headers, gives every page of a loadable segment a
  frame and copies the bytes of the file into it; \<^verbatim>\<open>exec_as_task\<close> then maps a stack, builds the
  argument block on it and creates the task and its process. A slice that is out of range panics.
  The messages to the debug log are left out.
\<close>

unbundle bit_operations_syntax

section \<open>The ELF header\<close>

datatype elf_error =
    TooSmall | BadMagic | Not64Bit | NotLittleEndian | NotExecutable | NotX86_64 | NoProgramHeaders
  | OomLoadingSegment

record loaded_image =
  li_entry :: u64
  li_phdr :: u64
  li_phent :: u64
  li_phnum :: u64

definition ELFMAG :: "u8 list" where "ELFMAG = [0x7F, 0x45, 0x4C, 0x46]"
definition ELFCLASS64 :: u8 where "ELFCLASS64 = 2"
definition ELFDATA2LSB :: u8 where "ELFDATA2LSB = 1"
definition ET_EXEC :: "16 word" where "ET_EXEC = 2"
definition EM_X86_64 :: "16 word" where "EM_X86_64 = 62"
definition PT_LOAD :: u32 where "PT_LOAD = 1"

definition OFF_CLASS :: nat where "OFF_CLASS = 4"
definition OFF_DATA :: nat where "OFF_DATA = 5"
definition OFF_TYPE :: nat where "OFF_TYPE = 16"
definition OFF_MACHINE :: nat where "OFF_MACHINE = 18"
definition OFF_ENTRY :: nat where "OFF_ENTRY = 24"
definition OFF_PHOFF :: nat where "OFF_PHOFF = 32"
definition OFF_PHENTSIZE :: nat where "OFF_PHENTSIZE = 54"
definition OFF_PHNUM :: nat where "OFF_PHNUM = 56"
definition PH_TYPE :: nat where "PH_TYPE = 0"
definition PH_OFFSET :: nat where "PH_OFFSET = 8"
definition PH_VADDR :: nat where "PH_VADDR = 16"
definition PH_FILESZ :: nat where "PH_FILESZ = 32"
definition PH_MEMSZ :: nat where "PH_MEMSZ = 40"

lemmas elf_consts = ELFMAG_def ELFCLASS64_def ELFDATA2LSB_def ET_EXEC_def EM_X86_64_def PT_LOAD_def
  OFF_CLASS_def OFF_DATA_def OFF_TYPE_def OFF_MACHINE_def OFF_ENTRY_def OFF_PHOFF_def
  OFF_PHENTSIZE_def OFF_PHNUM_def PH_TYPE_def PH_OFFSET_def PH_VADDR_def PH_FILESZ_def PH_MEMSZ_def

text \<open>
  \<^verbatim>\<open>read_u16\<close>, \<^verbatim>\<open>read_u32\<close> and \<^verbatim>\<open>read_u64\<close> on a slice that is long enough; the callers below
  check that it is.
\<close>

definition read_u16 :: "u8 list \<Rightarrow> nat \<Rightarrow> 16 word" where
  "read_u16 data off = from_le_bytes (take 2 (drop off data))"

definition read_u32 :: "u8 list \<Rightarrow> nat \<Rightarrow> u32" where
  "read_u32 data off = from_le_bytes (take 4 (drop off data))"

definition read_u64 :: "u8 list \<Rightarrow> nat \<Rightarrow> u64" where
  "read_u64 data off = from_le_bytes (take 8 (drop off data))"

section \<open>Segments\<close>

record phdr =
  p_type :: u32
  p_offset :: usize
  p_vaddr :: usize
  p_filesz :: usize
  p_memsz :: usize

definition phdr_of :: "u8 list \<Rightarrow> phdr" where
  "phdr_of ph =
     \<lparr>p_type = read_u32 ph PH_TYPE, p_offset = read_u64 ph PH_OFFSET, p_vaddr = read_u64 ph PH_VADDR,
      p_filesz = read_u64 ph PH_FILESZ, p_memsz = read_u64 ph PH_MEMSZ\<rparr>"

text \<open>The pages from \<open>a\<close> up to \<open>b\<close>, both page-aligned: the values of \<^verbatim>\<open>page\<close> in the loop.\<close>

definition segment_pages :: "u64 \<Rightarrow> u64 \<Rightarrow> u64 list" where
  "segment_pages a b = map (\<lambda>i. a + of_nat (i * 0x1000)) [0..<(unat b - unat a) div 0x1000]"

definition page_start :: "phdr \<Rightarrow> u64" where
  "page_start ph = p_vaddr ph AND NOT 0xFFF"

definition page_end :: "phdr \<Rightarrow> u64" where
  "page_end ph = (p_vaddr ph + p_memsz ph + 0x1000 - 1) AND NOT 0xFFF"

text \<open>One page of a segment; \<open>False\<close> stands for the error \<^verbatim>\<open>OomLoadingSegment\<close>.\<close>

definition load_page :: "u64 \<Rightarrow> u64 \<Rightarrow> kernel \<Rightarrow> (kernel, bool) outcome" where
  "load_page pml4 page s =
     (if translate_page (MEM s) pml4 page = None then
        (case alloc_frame s of
           (frame, s1) \<Rightarrow>
             if frame = 0 then Done False s1
             else obind (map_page_in pml4 page frame
                           \<lparr>mf_writable = True, mf_user = True, mf_executable = True\<rparr> s1) (\<lambda>_ s2.
                    Done True (s2\<lparr>MEM := zero_bytes (MEM s2) frame 0x1000\<rparr>)))
      else Done True s)"

primrec load_pages :: "u64 list \<Rightarrow> u64 \<Rightarrow> kernel \<Rightarrow> (kernel, bool) outcome" where
  "load_pages [] pml4 s = Done True s"
| "load_pages (page # pages) pml4 s =
     obind (load_page pml4 page s) (\<lambda>ok s1. if ok then load_pages pages pml4 s1 else Done False s1)"

lemma page_off_less: "unat ((a :: u64) AND 0xFFF) < 0x1000"
proof -
  have "a AND 0xFFF = take_bit 12 a" by (simp add: take_bit_eq_mask mask_eq_exp_minus_1)
  then have "unat (a AND 0xFFF) = unat a mod 2 ^ 12" by (simp only: unsigned_take_bit_eq flip: take_bit_eq_mod)
  then show ?thesis by simp
qed

text \<open>
  The copy of the bytes of the file, a page at a time; \<open>src\<close> are those not copied yet. Only the first
  page is not filled from its beginning.
\<close>

definition segment_off :: "u64 \<Rightarrow> u64 \<Rightarrow> u64" where
  "segment_off vaddr cur_page = (if cur_page = vaddr AND NOT 0xFFF then vaddr AND 0xFFF else 0)"

function copy_segment :: "u64 \<Rightarrow> u64 \<Rightarrow> u64 \<Rightarrow> u8 list \<Rightarrow> kernel \<Rightarrow> bool \<times> kernel" where
  "copy_segment pml4 vaddr cur_page src s =
     (if src = [] then (True, s)
      else
        let page_off = segment_off vaddr cur_page; chunk = min (length src) (0x1000 - unat page_off)
        in case translate_page (MEM s) pml4 cur_page of
             None \<Rightarrow> (False, s)
           | Some frame \<Rightarrow>
               copy_segment pml4 vaddr (cur_page + 0x1000) (drop chunk src)
                 (s\<lparr>MEM := wr_bytes (MEM s) (frame + page_off) (take chunk src)\<rparr>))"
  by pat_completeness auto
termination copy_segment
  by (relation "measure (\<lambda>(_, _, _, src, _). length src)") (auto simp: Let_def segment_off_def page_off_less)

declare copy_segment.simps [simp del]

definition load_segment :: "u64 \<Rightarrow> u8 list \<Rightarrow> phdr \<Rightarrow> kernel \<Rightarrow> (kernel, bool) outcome" where
  "load_segment pml4 data ph s =
     obind (load_pages (segment_pages (page_start ph) (page_end ph)) pml4 s) (\<lambda>ok s1.
       if \<not> ok then Done False s1
       else case copy_segment pml4 (p_vaddr ph) (page_start ph)
                   (take (unat (p_filesz ph)) (drop (unat (p_offset ph)) data)) s1 of
              (ok, s2) \<Rightarrow>
                Done (ok \<and> (p_filesz ph = 0 \<or> translate_page (MEM s2) pml4 (page_start ph) \<noteq> None)) s2)"

text \<open>
  The walk over the program headers, from index \<open>i\<close> on. \<open>hdr\<close> is the address of the program
  headers in the image, 0 while no segment that holds them has been seen.
\<close>

definition phdr_addr :: "u64 \<Rightarrow> u64 \<Rightarrow> phdr \<Rightarrow> u64" where
  "phdr_addr phoff hdr ph =
     (if hdr = 0 \<and> p_offset ph \<le> phoff \<and> phoff < p_offset ph + p_filesz ph
      then p_vaddr ph + (phoff - p_offset ph) else hdr)"

definition file_range_ok :: "phdr \<Rightarrow> u8 list \<Rightarrow> bool" where
  "file_range_ok ph data \<longleftrightarrow>
     (case checked_add (p_offset ph) (p_filesz ph) of
        None \<Rightarrow> False
      | Some fin \<Rightarrow> unat fin \<le> length data)"

primrec load_headers ::
  "nat \<Rightarrow> u64 \<Rightarrow> u8 list \<Rightarrow> u64 \<Rightarrow> u64 \<Rightarrow> nat \<Rightarrow> u64 \<Rightarrow> kernel \<Rightarrow> (kernel, elf_error + u64) outcome" where
  "load_headers 0 pml4 data phoff phentsize i hdr s = Done (Inr hdr) s"
| "load_headers (Suc n) pml4 data phoff phentsize i hdr s =
     (let ph_start = phoff + of_nat i * phentsize; ph_end = ph_start + phentsize
      in if unat ph_end > length data then Done (Inl TooSmall) s
         else if ph_end < ph_start \<or> unat phentsize < 48 then Panicked
         else
           let ph = phdr_of (take (unat phentsize) (drop (unat ph_start) data))
           in if p_type ph \<noteq> PT_LOAD \<or> p_memsz ph = 0
              then load_headers n pml4 data phoff phentsize (Suc i) hdr s
              else if \<not> file_range_ok ph data then Done (Inl TooSmall) s
              else obind (load_segment pml4 data ph s) (\<lambda>ok s1.
                     if ok then load_headers n pml4 data phoff phentsize (Suc i) (phdr_addr phoff hdr ph) s1
                     else Done (Inl OomLoadingSegment) s1))"

definition load_into :: "u64 \<Rightarrow> u8 list \<Rightarrow> kernel \<Rightarrow> (kernel, elf_error + loaded_image) outcome" where
  "load_into pml4 data s =
     (if length data < 64 then Done (Inl TooSmall) s
      else if take 4 data \<noteq> ELFMAG then Done (Inl BadMagic) s
      else if data ! OFF_CLASS \<noteq> ELFCLASS64 then Done (Inl Not64Bit) s
      else if data ! OFF_DATA \<noteq> ELFDATA2LSB then Done (Inl NotLittleEndian) s
      else if read_u16 data OFF_TYPE \<noteq> ET_EXEC then Done (Inl NotExecutable) s
      else if read_u16 data OFF_MACHINE \<noteq> EM_X86_64 then Done (Inl NotX86_64) s
      else
        let phentsize = ucast (read_u16 data OFF_PHENTSIZE); phnum = read_u16 data OFF_PHNUM
        in if phnum = 0 then Done (Inl NoProgramHeaders) s
           else obind (load_headers (unat phnum) pml4 data (read_u64 data OFF_PHOFF) phentsize 0 0 s) (\<lambda>r.
             Done (case r of
                     Inl e \<Rightarrow> Inl e
                   | Inr hdr \<Rightarrow>
                       Inr \<lparr>li_entry = read_u64 data OFF_ENTRY, li_phdr = hdr, li_phent = phentsize,
                            li_phnum = ucast phnum\<rparr>)))"

section \<open>The initial stack\<close>

definition USER_STACK_PAGES :: nat where "USER_STACK_PAGES = 16"
definition USER_STACK_TOP :: u64 where "USER_STACK_TOP = 0x0000000080000000"
definition AT_NULL :: u64 where "AT_NULL = 0"
definition AT_PHDR :: u64 where "AT_PHDR = 3"
definition AT_PHENT :: u64 where "AT_PHENT = 4"
definition AT_PHNUM :: u64 where "AT_PHNUM = 5"
definition AT_PAGESZ :: u64 where "AT_PAGESZ = 6"
definition AT_ENTRY :: u64 where "AT_ENTRY = 9"
definition AT_UID :: u64 where "AT_UID = 11"
definition AT_EUID :: u64 where "AT_EUID = 12"
definition AT_GID :: u64 where "AT_GID = 13"
definition AT_EGID :: u64 where "AT_EGID = 14"
definition AT_SECURE :: u64 where "AT_SECURE = 23"
definition AT_RANDOM :: u64 where "AT_RANDOM = 25"
definition AT_EXECFN :: u64 where "AT_EXECFN = 31"

lemmas exec_consts = USER_STACK_PAGES_def USER_STACK_TOP_def AT_NULL_def AT_PHDR_def AT_PHENT_def
  AT_PHNUM_def AT_PAGESZ_def AT_ENTRY_def AT_UID_def AT_EUID_def AT_GID_def AT_EGID_def AT_SECURE_def
  AT_RANDOM_def AT_EXECFN_def

function write_user_bytes :: "u64 \<Rightarrow> u64 \<Rightarrow> u8 list \<Rightarrow> memory \<Rightarrow> bool \<times> memory" where
  "write_user_bytes pml4 user_addr bytes m =
     (if bytes = [] then (True, m)
      else
        case translate_page m pml4 user_addr of
          None \<Rightarrow> (False, m)
        | Some frame \<Rightarrow>
            let page_off = user_addr AND 0xFFF; chunk = min (0x1000 - unat page_off) (length bytes)
            in write_user_bytes pml4 (user_addr + of_nat chunk) (drop chunk bytes)
                 (wr_bytes m (frame + page_off) (take chunk bytes)))"
  by pat_completeness auto

termination write_user_bytes
  by (relation "measure (\<lambda>(_, _, bytes, _). length bytes)") (auto simp: page_off_less)

declare write_user_bytes.simps [simp del]

text \<open>A push returns the new stack pointer; the pointer moves even when the write fails.\<close>

definition push_user_bytes :: "u64 \<Rightarrow> u8 list \<Rightarrow> usize \<Rightarrow> u64 \<Rightarrow> memory \<Rightarrow> u64 option \<times> memory" where
  "push_user_bytes pml4 bytes align sp m =
     (case checked_sub sp (of_nat (length bytes)) of
        None \<Rightarrow> (None, m)
      | Some d \<Rightarrow>
          let sp' = d AND NOT (saturating_sub align 1)
          in case write_user_bytes pml4 sp' bytes m of (ok, m') \<Rightarrow> (if ok then Some sp' else None, m'))"

definition push_user_u64 :: "u64 \<Rightarrow> u64 \<Rightarrow> u64 \<Rightarrow> memory \<Rightarrow> u64 option \<times> memory" where
  "push_user_u64 pml4 value sp m = push_user_bytes pml4 (to_le_bytes 8 value) 8 sp m"

text \<open>A sequence of pushes that stops at the first that fails, which is what \<^verbatim>\<open>?\<close> does.\<close>

primrec push_all :: "u64 \<Rightarrow> u64 list \<Rightarrow> u64 \<Rightarrow> memory \<Rightarrow> u64 option \<times> memory" where
  "push_all pml4 [] sp m = (Some sp, m)"
| "push_all pml4 (v # vs) sp m =
     (case push_user_u64 pml4 v sp m of
        (None, m') \<Rightarrow> (None, m')
      | (Some sp', m') \<Rightarrow> push_all pml4 vs sp' m')"

definition execfn_bytes :: "string \<Rightarrow> u8 list" where
  "execfn_bytes name = 0x2F # map of_char (take EXE_PATH_MAX name) @ [0]"

definition random_bytes :: "u8 list" where
  "random_bytes = [0x13, 0x37, 0xca, 0xfe, 0xba, 0xbe, 0xde, 0xad, 0xfa, 0xce, 0x12, 0x34, 0x56, 0x78, 0xab, 0xcd]"

definition user_ids :: "kernel \<Rightarrow> u64 \<times> u64 \<times> u64 \<times> u64" where
  "user_ids s =
     (case current_process s of
        Some p \<Rightarrow> (ucast (uid p), ucast (euid p), ucast (gid p), ucast (egid p))
      | None \<Rightarrow> (0, 0, 0, 0))"

definition auxv :: "loaded_image \<Rightarrow> u64 \<times> u64 \<times> u64 \<times> u64 \<Rightarrow> u64 \<Rightarrow> u64 \<Rightarrow> (u64 \<times> u64) list" where
  "auxv img ids random_ptr execfn_ptr =
     (case ids of (u, eu, g, eg) \<Rightarrow>
       [(AT_PHDR, li_phdr img), (AT_PHENT, li_phent img), (AT_PHNUM, li_phnum img), (AT_PAGESZ, 0x1000),
        (AT_ENTRY, li_entry img), (AT_UID, u), (AT_EUID, eu), (AT_GID, g), (AT_EGID, eg), (AT_SECURE, 0),
        (AT_RANDOM, random_ptr), (AT_EXECFN, execfn_ptr), (AT_NULL, 0)])"

text \<open>The values pushed after the strings, first to last.\<close>

definition stack_words :: "(u64 \<times> u64) list \<Rightarrow> u64 \<Rightarrow> u64 list" where
  "stack_words aux execfn_ptr =
     concat (map (\<lambda>(key, value). [value, key]) (rev aux)) @ [0, 0, execfn_ptr, 1]"

definition build_initial_stack ::
  "u64 \<Rightarrow> u64 \<Rightarrow> string \<Rightarrow> loaded_image \<Rightarrow> kernel \<Rightarrow> u64 option \<times> kernel" where
  "build_initial_stack pml4 user_top name img s =
     (case push_user_bytes pml4 (execfn_bytes name) 1 user_top (MEM s) of
        (None, m1) \<Rightarrow> (None, s\<lparr>MEM := m1\<rparr>)
      | (Some execfn_ptr, m1) \<Rightarrow>
          (case push_user_bytes pml4 random_bytes 16 execfn_ptr m1 of
             (None, m2) \<Rightarrow> (None, s\<lparr>MEM := m2\<rparr>)
           | (Some random_ptr, m2) \<Rightarrow>
               (case push_all pml4 (stack_words (auxv img (user_ids s) random_ptr execfn_ptr) execfn_ptr)
                       random_ptr m2 of
                  (r, m3) \<Rightarrow> (map_option (\<lambda>sp. sp AND NOT 0xF) r, s\<lparr>MEM := m3\<rparr>))))"

section \<open>Starting a program\<close>

text \<open>One page of the stack, \<open>False\<close> when memory is exhausted.\<close>

definition stack_page :: "u64 \<Rightarrow> u64 \<Rightarrow> kernel \<Rightarrow> (kernel, bool) outcome" where
  "stack_page pml4 page s =
     (case alloc_frames 1 s of
        (frame, s1) \<Rightarrow>
          if frame = 0 then Done False s1
          else obind (map_page_in pml4 page frame
                        \<lparr>mf_writable = True, mf_user = True, mf_executable = False\<rparr> s1) (\<lambda>_ s2.
                 Done True (s2\<lparr>MEM := zero_bytes (MEM s2) frame 0x1000\<rparr>)))"

primrec stack_pages :: "u64 list \<Rightarrow> u64 \<Rightarrow> kernel \<Rightarrow> (kernel, bool) outcome" where
  "stack_pages [] pml4 s = Done True s"
| "stack_pages (page # pages) pml4 s =
     obind (stack_page pml4 page s) (\<lambda>ok s1. if ok then stack_pages pages pml4 s1 else Done False s1)"

definition user_stack_pages :: "u64 list" where
  "user_stack_pages =
     map (\<lambda>i. USER_STACK_TOP - of_nat (USER_STACK_PAGES * 0x1000) + of_nat (i * 0x1000)) [0..<USER_STACK_PAGES]"

definition exec_as_task :: "u8 list \<Rightarrow> string \<Rightarrow> kernel \<Rightarrow> (kernel, nat \<times> nat) outcome" where
  "exec_as_task elf_data name s =
     (case clone_kernel_address_space (KERNEL_PML4 s) s of
        (new_pml4, s1) \<Rightarrow>
          obind (load_into new_pml4 elf_data s1) (\<lambda>r s2.
            case r of
              Inl _ \<Rightarrow> Done (0, 0) s2
            | Inr img \<Rightarrow>
                obind (stack_pages user_stack_pages new_pml4 s2) (\<lambda>ok s3.
                  if \<not> ok then Done (0, 0) s3
                  else case build_initial_stack new_pml4 (USER_STACK_TOP AND NOT 0xF) name img s3 of
                         (None, s4) \<Rightarrow> Done (0, 0) s4
                       | (Some sp, s4) \<Rightarrow>
                           (case spawn_user_task (li_entry img) sp new_pml4 s4 of
                              (None, s5) \<Rightarrow> Done (0, 0) s5
                            | (Some slot, s5) \<Rightarrow>
                                (case spawn_named slot name s5 of (p, s6) \<Rightarrow> Done (p, slot) s6)))))"

end
