(* ===== verification/Bench.thy ===== *)
theory Bench
  imports Prelude
begin

text \<open>
  Boot timing (\<^verbatim>\<open>bench.rs\<close>): the stamps of the boot phases and the report on them. A string is the list
  of its characters, as code points; \<open>utf8\<close> gives the bytes that \<^verbatim>\<open>as_bytes\<close> gives. The value of the
  time stamp counter is an argument of \<open>stamp\<close>.
\<close>

section \<open>Text\<close>

type_synonym ustring = "u32 list"

definition ustr :: "string \<Rightarrow> ustring" where
  "ustr = map of_char"

text \<open>The encoding of a character below \<^verbatim>\<open>U+10000\<close>.\<close>

definition utf8_char :: "u32 \<Rightarrow> u8 list" where
  "utf8_char c =
     (if c < 0x80 then [ucast c]
      else if c < 0x800 then [0xC0 + ucast (c div 64), 0x80 + ucast (c mod 64)]
      else [0xE0 + ucast (c div 4096), 0x80 + ucast (c div 64 mod 64), 0x80 + ucast (c mod 64)])"

definition utf8 :: "ustring \<Rightarrow> u8 list" where
  "utf8 s = concat (map utf8_char s)"

fun dec :: "nat \<Rightarrow> ustring" where
  "dec n = (if n < 10 then [of_nat (0x30 + n)] else dec (n div 10) @ [of_nat (0x30 + n mod 10)])"

declare dec.simps [simp del]

section \<open>Phases\<close>

datatype phase =
    KernelEntry | PmmDone | PagingDone | GdtDone | IdtDone | SyscallDone | PitDone | HeapDone
  | RamfsDone | ShellReady

fun label :: "phase \<Rightarrow> string" where
  "label KernelEntry = ''kernel entry''"
| "label PmmDone = ''pmm init''"
| "label PagingDone = ''paging init''"
| "label GdtDone = ''gdt init''"
| "label IdtDone = ''idt init''"
| "label SyscallDone = ''syscall init''"
| "label PitDone = ''pit init''"
| "label HeapDone = ''heap smoke-test''"
| "label RamfsDone = ''ramfs + elf load''"
| "label ShellReady = ''shell ready''"

fun phase_index :: "phase \<Rightarrow> nat" where
  "phase_index KernelEntry = 0"
| "phase_index PmmDone = 1"
| "phase_index PagingDone = 2"
| "phase_index GdtDone = 3"
| "phase_index IdtDone = 4"
| "phase_index SyscallDone = 5"
| "phase_index PitDone = 6"
| "phase_index HeapDone = 7"
| "phase_index RamfsDone = 8"
| "phase_index ShellReady = 9"

definition NUM_PHASES :: nat where "NUM_PHASES = 10"

record bench =
  BOOTLOADER_TSC :: u64
  STAMPS :: "u64 list"

definition bench_statics :: bench where
  "bench_statics = \<lparr>BOOTLOADER_TSC = 0, STAMPS = replicate NUM_PHASES 0\<rparr>"

definition stamp :: "phase \<Rightarrow> u64 \<Rightarrow> bench \<Rightarrow> bench" where
  "stamp p tsc b = b\<lparr>STAMPS := (STAMPS b)[phase_index p := tsc]\<rparr>"

definition set_bootloader_tsc :: "u64 \<Rightarrow> bench \<Rightarrow> bench" where
  "set_bootloader_tsc tsc b = b\<lparr>BOOTLOADER_TSC := tsc\<rparr>"

section \<open>The report\<close>

definition phase_names :: "string list" where
  "phase_names = map label [KernelEntry, PmmDone, PagingDone, GdtDone, IdtDone, SyscallDone, PitDone, HeapDone,
     RamfsDone, ShellReady]"

text \<open>\<^verbatim>\<open>{:<22}\<close>\<close>

definition pad_right :: "nat \<Rightarrow> ustring \<Rightarrow> ustring" where
  "pad_right n s = s @ replicate (n - length s) 0x20"

text \<open>The last stamp before phase \<open>i\<close> that was recorded.\<close>

definition prev_stamp :: "bench \<Rightarrow> nat \<Rightarrow> u64" where
  "prev_stamp b i =
     (if i = 0 then (if BOOTLOADER_TSC b > 0 then BOOTLOADER_TSC b else STAMPS b ! i)
      else case find (\<lambda>j. STAMPS b ! j > 0) (rev [0..<i]) of
             Some j \<Rightarrow> STAMPS b ! j
           | None \<Rightarrow> STAMPS b ! i)"

definition phase_line :: "bench \<Rightarrow> nat \<Rightarrow> ustring" where
  "phase_line b i =
     (if STAMPS b ! i = 0 then []
      else pad_right 22 (ustr (phase_names ! i)) @ ustr '': '' @
           dec (unat (saturating_sub (STAMPS b ! i) (prev_stamp b i))) @ ustr '' cycles'' @ [0x0A])"

definition entry_line :: "bench \<Rightarrow> ustring" where
  "entry_line b =
     (let bl = BOOTLOADER_TSC b; kernel_entry = STAMPS b ! phase_index KernelEntry
      in if bl > 0 \<and> kernel_entry > bl
         then ustr ''bootloader '' @ [0x2192] @ ustr '' kernel entry : '' @ dec (unat (kernel_entry - bl)) @
              ustr '' cycles'' @ [0x0A]
         else [])"

definition total_line :: "bench \<Rightarrow> ustring" where
  "total_line b =
     (let first = STAMPS b ! phase_index KernelEntry
      in case find (\<lambda>i. STAMPS b ! i > 0) (rev [0..<NUM_PHASES]) of
           None \<Rightarrow> []
         | Some li \<Rightarrow>
             if STAMPS b ! li > first \<and> first > 0
             then ustr ''------------------------'' @ [0x0A] @ ustr ''total kernel init         : '' @
                  dec (unat (STAMPS b ! li - first)) @ ustr '' cycles'' @ [0x0A]
             else [])"

definition report :: "bench \<Rightarrow> ustring" where
  "report b =
     ustr ''Boot timing (TSC cycles)'' @ [0x0A] @ ustr ''------------------------'' @ [0x0A] @
     entry_line b @ concat (map (phase_line b) [0..<NUM_PHASES]) @ total_line b"

end
