(* ===== verification/Shell.thy ===== *)
theory Shell
  imports SysMisc Exec Console Bench
begin

text \<open>
  The command shell of the kernel (\<^verbatim>\<open>shell/mod.rs\<close>, \<^verbatim>\<open>shell/commands.rs\<close>): the input buffer, the
  splitting of a line into command, first word and rest, and the commands. A command works on its
  context and on the statics of the kernel, the console and the boot times, and gives what the
  screen should show. Characters are those below 256, as for the file names of the file system; the
  copy of the line to the serial port is left out.
\<close>

section \<open>The buffer\<close>

definition BUF_LEN :: nat where "BUF_LEN = 64"

record shell =
  sh_buffer :: string
  sh_cursor :: nat

definition shell_new :: shell where
  "shell_new = \<lparr>sh_buffer = replicate BUF_LEN (CHR 0x00), sh_cursor = 0\<rparr>"

definition shell_push :: "char \<Rightarrow> shell \<Rightarrow> shell" where
  "shell_push c sh =
     (if sh_cursor sh < BUF_LEN - 1
      then sh\<lparr>sh_buffer := (sh_buffer sh)[sh_cursor sh := c], sh_cursor := sh_cursor sh + 1\<rparr> else sh)"

definition shell_pop :: "shell \<Rightarrow> shell" where
  "shell_pop sh =
     (if sh_cursor sh > 0
      then sh\<lparr>sh_cursor := sh_cursor sh - 1, sh_buffer := (sh_buffer sh)[sh_cursor sh - 1 := CHR 0x00]\<rparr> else sh)"

definition shell_clear :: "shell \<Rightarrow> shell" where
  "shell_clear sh = sh\<lparr>sh_buffer := replicate BUF_LEN (CHR 0x00), sh_cursor := 0\<rparr>"

section \<open>Words of a line\<close>

text \<open>The loop over the characters of the command, from position \<open>i\<close>.\<close>

fun cmd_matches :: "string \<Rightarrow> string \<Rightarrow> nat \<Rightarrow> bool" where
  "cmd_matches buf [] i \<longleftrightarrow> i \<ge> BUF_LEN \<or> buf ! i = CHR 0x00 \<or> buf ! i = CHR '' ''"
| "cmd_matches buf (c # cs) i \<longleftrightarrow> \<not> (i \<ge> BUF_LEN \<or> buf ! i \<noteq> c) \<and> cmd_matches buf cs (i + 1)"

definition cmd_is :: "string \<Rightarrow> string \<Rightarrow> bool" where
  "cmd_is buf cmd = cmd_matches buf cmd 0"

definition get_arg :: "string \<Rightarrow> nat \<Rightarrow> string" where
  "get_arg buf cmd_len =
     (let start = cmd_len + 1
      in if start \<ge> BUF_LEN \<or> buf ! start = CHR 0x00 then []
         else takeWhile (\<lambda>c. c \<noteq> CHR 0x00 \<and> c \<noteq> CHR '' '') (drop start buf))"

definition get_rest :: "string \<Rightarrow> nat \<Rightarrow> string" where
  "get_rest buf skip =
     (if skip \<ge> BUF_LEN \<or> buf ! skip = CHR 0x00 then []
      else takeWhile (\<lambda>c. c \<noteq> CHR 0x00) (drop skip buf))"

section \<open>Commands\<close>

datatype shell_output = Print ustring | PrintLines "ustring list" | Clear | NoOutput

text \<open>
  The context of the source (its pointer to the boot information is read by no command), with the
  statics that the commands reach through other modules.
\<close>

record shell_context =
  filesystem :: "ramfs option"
  global_scale :: usize
  current_y :: usize
  screen_h :: usize
  sx_kernel :: kernel
  sx_console :: console
  sx_bench :: bench

type_synonym command = "shell_context \<Rightarrow> (shell_context, shell_output) outcome"

definition cmd_clear :: command where
  "cmd_clear x = Done Clear x"

definition cmd_meminfo :: command where
  "cmd_meminfo x =
     Done (Print (ustr ''Free physical RAM: '' @ dec (free_bytes (sx_kernel x) div (1024 * 1024)) @ ustr '' MB'')) x"

definition cmd_ls :: command where
  "cmd_ls x =
     (case filesystem x of
        None \<Rightarrow> Done NoOutput x
      | Some fs \<Rightarrow>
          Done (PrintLines (ustr ''Files in RAM:'' #
            map (\<lambda>f. ustr ''  '' @ ustr (file_name f) @ ustr '' ('' @ dec (length (file_data f)) @ ustr '' bytes)'') fs)) x)"

definition cmd_touch :: "string \<Rightarrow> command" where
  "cmd_touch buf x =
     (case filesystem x of
        None \<Rightarrow> Done NoOutput x
      | Some fs \<Rightarrow>
          (case ramfs_create (get_arg buf 5) fs of
             (ok, fs') \<Rightarrow>
               Done (Print (ustr (if ok then ''File created.'' else ''Error: file exists or invalid name.'')))
                 (x\<lparr>filesystem := Some fs'\<rparr>)))"

definition cmd_rm :: "string \<Rightarrow> command" where
  "cmd_rm buf x =
     (case filesystem x of
        None \<Rightarrow> Done NoOutput x
      | Some fs \<Rightarrow>
          (case ramfs_remove (get_arg buf 2) fs of
             (ok, fs') \<Rightarrow>
               Done (Print (ustr (if ok then ''File removed.'' else ''Error: file not found.''))) (x\<lparr>filesystem := Some fs'\<rparr>)))"

definition cmd_cat :: "string \<Rightarrow> nat \<Rightarrow> command" where
  "cmd_cat buf cmd_len x =
     (case filesystem x of
        None \<Rightarrow> Done NoOutput x
      | Some fs \<Rightarrow>
          (case ramfs_find (get_arg buf cmd_len) fs of
             Some f \<Rightarrow> Done (Print (map ucast (file_data f))) x
           | None \<Rightarrow> Done (Print (ustr ''Error: file not found.'')) x))"

text \<open>The content of a file replaced or extended by the characters after the file name.\<close>

definition cmd_store :: "(u8 list \<Rightarrow> u8 list \<Rightarrow> u8 list) \<Rightarrow> nat \<Rightarrow> string \<Rightarrow> string \<Rightarrow> command" where
  "cmd_store upd cmd_len msg buf x =
     (let filename = get_arg buf cmd_len; content = get_rest buf (cmd_len + 1 + length filename)
      in case filesystem x of
           None \<Rightarrow> Done NoOutput x
         | Some fs \<Rightarrow>
             (case ramfs_modify filename (\<lambda>d. upd d (map of_char content)) fs of
                (ok, fs') \<Rightarrow>
                  Done (Print (ustr (if ok then msg else ''Error: file not found.''))) (x\<lparr>filesystem := Some fs'\<rparr>)))"

definition cmd_write :: "string \<Rightarrow> command" where
  "cmd_write buf = cmd_store (\<lambda>_ c. c) 5 ''Overwritten.'' buf"

definition cmd_push :: "string \<Rightarrow> command" where
  "cmd_push buf = cmd_store (\<lambda>d c. d @ c) 4 ''Appended.'' buf"

definition cmd_echo :: "string \<Rightarrow> command" where
  "cmd_echo buf x = Done (Print (ustr (takeWhile (\<lambda>c. c \<noteq> CHR 0x00) (drop 5 buf)))) x"

definition cmd_uptime :: command where
  "cmd_uptime x =
     Done (Print (ustr ''Uptime: '' @ dec (unat (uptime_seconds (sx_kernel x))) @ ustr '' seconds'')) x"

definition cmd_ticks :: command where
  "cmd_ticks x = Done (Print (ustr ''Kernel ticks: '' @ dec (unat (TICKS (sx_kernel x))))) x"

definition is_ascii_digit :: "char \<Rightarrow> bool" where
  "is_ascii_digit c \<longleftrightarrow> 0x30 \<le> (of_char c :: nat) \<and> (of_char c :: nat) \<le> 0x39"

definition parse_number :: "string \<Rightarrow> u64" where
  "parse_number arg =
     fold (\<lambda>c n. if is_ascii_digit c then n * 10 + (of_char c - of_char (CHR ''0'')) else n) arg 0"

definition cmd_sleep :: "string \<Rightarrow> command" where
  "cmd_sleep buf x =
     (case sleep_yield (parse_number (get_arg buf 5) * 100) (sx_kernel x) of
        Done _ k \<Rightarrow> Done NoOutput (x\<lparr>sx_kernel := k\<rparr>)
      | Waiting k \<Rightarrow> Waiting (x\<lparr>sx_kernel := k\<rparr>)
      | Faulted k \<Rightarrow> Faulted (x\<lparr>sx_kernel := k\<rparr>)
      | Panicked \<Rightarrow> Panicked)"

definition cmd_font :: "string \<Rightarrow> command" where
  "cmd_font buf x =
     Done NoOutput
       (if buf ! 5 = CHR ''+'' \<and> global_scale x < 4 then x\<lparr>global_scale := global_scale x + 1\<rparr>
        else if buf ! 5 = CHR ''-'' \<and> global_scale x > 1 then x\<lparr>global_scale := global_scale x - 1\<rparr>
        else x)"

definition cmd_exec :: "string \<Rightarrow> command" where
  "cmd_exec buf x =
     (let filename = get_arg buf 4
      in case filesystem x of
           None \<Rightarrow> Done (Print (ustr ''Error: no filesystem.'')) x
         | Some fs \<Rightarrow>
             (case ramfs_find filename fs of
                None \<Rightarrow> Done (Print (ustr ''Error: file not found.'')) x
              | Some f \<Rightarrow>
                  let x1 = x\<lparr>sx_console := set_userspace_cursor 20 (current_y x + 16 * global_scale x) (sx_console x)\<rparr>
                  in case exec_as_task (file_data f) filename (sx_kernel x1) of
                       Done (p, _) k \<Rightarrow>
                         Done (Print (if p = 0 then ustr ''exec failed.'' else ustr ''spawned pid='' @ dec p))
                           (x1\<lparr>sx_kernel := k\<rparr>)
                     | Waiting k \<Rightarrow> Waiting (x1\<lparr>sx_kernel := k\<rparr>)
                     | Faulted k \<Rightarrow> Faulted (x1\<lparr>sx_kernel := k\<rparr>)
                     | Panicked \<Rightarrow> Panicked))"

text \<open>
  \<^verbatim>\<open>str::lines\<close>: a line loses its end and one carriage return before it; a last line without an end
  is a line, unless it is empty.
\<close>

definition strip_cr :: "ustring \<Rightarrow> ustring" where
  "strip_cr l = (if l \<noteq> [] \<and> last l = 0x0D then butlast l else l)"

fun text_lines :: "ustring \<Rightarrow> ustring \<Rightarrow> ustring list" where
  "text_lines acc [] = (if acc = [] then [] else [acc])"
| "text_lines acc (c # cs) = (if c = 0x0A then strip_cr acc # text_lines [] cs else text_lines (acc @ [c]) cs)"

definition cmd_boottime :: command where
  "cmd_boottime x = Done (PrintLines (text_lines [] (report (sx_bench x)))) x"

text \<open>A reboot does not return; it waits for the reset.\<close>

definition dispatch :: "shell \<Rightarrow> command" where
  "dispatch sh x =
     (let buf = sh_buffer sh
      in if cmd_is buf ''clear'' then cmd_clear x
         else if cmd_is buf ''meminfo'' then cmd_meminfo x
         else if cmd_is buf ''ls'' then cmd_ls x
         else if cmd_is buf ''touch'' then cmd_touch buf x
         else if cmd_is buf ''rm'' then cmd_rm buf x
         else if cmd_is buf ''cat'' then cmd_cat buf 3 x
         else if cmd_is buf ''print'' then cmd_cat buf 5 x
         else if cmd_is buf ''write'' then cmd_write buf x
         else if cmd_is buf ''push'' then cmd_push buf x
         else if cmd_is buf ''echo'' then cmd_echo buf x
         else if cmd_is buf ''uptime'' then cmd_uptime x
         else if cmd_is buf ''ticks'' then cmd_ticks x
         else if cmd_is buf ''sleep'' then cmd_sleep buf x
         else if cmd_is buf ''font'' then cmd_font buf x
         else if cmd_is buf ''exec'' then cmd_exec buf x
         else if cmd_is buf ''boottime'' then cmd_boottime x
         else if cmd_is buf ''panic'' then Panicked
         else if cmd_is buf ''reboot'' then Waiting x
         else Done NoOutput x)"

text \<open>The buffer is cleared when the command returns.\<close>

definition shell_execute :: "shell \<Rightarrow> shell_context \<Rightarrow> (shell_context, shell_output \<times> shell) outcome" where
  "shell_execute sh x = obind (dispatch sh x) (\<lambda>out x'. Done (out, shell_clear sh) x')"

section \<open>The buffer is well formed\<close>

definition shell_ok :: "shell \<Rightarrow> bool" where
  "shell_ok sh \<longleftrightarrow> length (sh_buffer sh) = BUF_LEN \<and> sh_cursor sh < BUF_LEN \<and>
     drop (sh_cursor sh) (sh_buffer sh) = replicate (BUF_LEN - sh_cursor sh) (CHR 0x00)"

definition type_line :: "string \<Rightarrow> shell" where
  "type_line l = fold shell_push l shell_new"

lemma type_line_buffer:
  assumes "length l < BUF_LEN"
  shows "sh_cursor (type_line l) = length l \<and>
    sh_buffer (type_line l) = l @ replicate (BUF_LEN - length l) (CHR 0x00)"
  using assms
proof (induction l rule: rev_induct)
  case Nil
  then show ?case by (simp add: type_line_def shell_new_def)
next
  case (snoc c l)
  then have "replicate (BUF_LEN - length l) (CHR 0x00) = CHR 0x00 # replicate (BUF_LEN - length (l @ [c])) (CHR 0x00)"
    by (simp add: Suc_diff_Suc flip: replicate_Suc)
  with snoc show ?case
    by (simp add: type_line_def shell_push_def list_update_append)
qed

definition word_char :: "char \<Rightarrow> bool" where
  "word_char c \<longleftrightarrow> c \<noteq> CHR 0x00 \<and> c \<noteq> CHR '' ''"

lemma cmd_matches_drop:
  assumes "length buf = BUF_LEN" "i \<le> BUF_LEN"
  shows "cmd_matches buf cmd i \<longleftrightarrow>
    (\<exists>r. drop i buf = cmd @ r \<and> (r = [] \<or> \<not> word_char (hd r)))"
  using assms
proof (induction cmd arbitrary: i)
  case Nil
  then show ?case by (auto simp: word_char_def hd_drop_conv_nth)
next
  case (Cons c cs)
  then show ?case
    by (cases "i < BUF_LEN") (auto simp: Cons_nth_drop_Suc[symmetric])
qed

lemma word_split_unique:
  assumes "list_all word_char u" "list_all word_char w" "u @ r = w @ t"
    and "r = [] \<or> \<not> word_char (hd r)" "t = [] \<or> \<not> word_char (hd t)"
  shows "u = w"
  using assms
proof (induction u arbitrary: w)
  case Nil
  then show ?case by (cases w) auto
next
  case (Cons c u)
  then show ?case by (cases w) auto
qed

lemma takeWhile_word:
  "list_all P w \<Longrightarrow> r = [] \<or> \<not> P (hd r) \<Longrightarrow> takeWhile P (w @ r) = w"
  by (cases r) (auto simp: list_all_iff takeWhile_append2 takeWhile_eq_all_conv)

lemma shell_push_ok:
  assumes "shell_ok sh"
  shows "shell_ok (shell_push c sh)"
proof -
  have "drop (Suc (sh_cursor sh)) (sh_buffer sh) = tl (drop (sh_cursor sh) (sh_buffer sh))"
    by (simp add: drop_Suc tl_drop)
  also have "\<dots> = replicate (BUF_LEN - Suc (sh_cursor sh)) (CHR 0x00)"
    using assms by (simp add: shell_ok_def)
  finally show ?thesis
    using assms by (auto simp: shell_ok_def shell_push_def)
qed

lemma shell_pop_ok: "shell_ok sh \<Longrightarrow> shell_ok (shell_pop sh)"
proof (cases "sh_cursor sh")
  case (Suc n)
  assume ok: "shell_ok sh"
  with Suc have n: "n < length (sh_buffer sh)" and d: "drop (Suc n) (sh_buffer sh) = replicate (BUF_LEN - Suc n) (CHR 0x00)"
    by (auto simp: shell_ok_def)
  have "drop n ((sh_buffer sh)[n := CHR 0x00]) = CHR 0x00 # drop (Suc n) (sh_buffer sh)"
    using n by (simp add: Cons_nth_drop_Suc[symmetric] drop_update_cancel)
  also have "\<dots> = replicate (BUF_LEN - n) (CHR 0x00)"
    using ok Suc by (simp add: d shell_ok_def Suc_diff_Suc flip: replicate_Suc)
  finally show ?thesis
    using ok Suc by (simp add: shell_ok_def shell_pop_def)
qed (simp add: shell_pop_def)

lemma shell_pop_push:
  assumes "shell_ok sh" "sh_cursor sh < BUF_LEN - 1"
  shows "shell_pop (shell_push c sh) = sh"
proof -
  have d: "drop (sh_cursor sh) (sh_buffer sh) = replicate (BUF_LEN - sh_cursor sh) (CHR 0x00)"
    and n: "sh_cursor sh < length (sh_buffer sh)"
    using assms by (simp_all add: shell_ok_def)
  have "sh_buffer sh ! sh_cursor sh = hd (drop (sh_cursor sh) (sh_buffer sh))"
    using n by (rule hd_drop_conv_nth[symmetric])
  also have "\<dots> = CHR 0x00" unfolding d using assms by simp
  finally have "(sh_buffer sh)[sh_cursor sh := CHR 0x00] = sh_buffer sh"
    by (metis list_update_id)
  with assms show ?thesis by (simp add: shell_pop_def shell_push_def)
qed

text \<open>C40: The input buffer of the shell is well formed: it has 64 characters, the cursor is inside and
  everything from the cursor on is the null character. A new shell is so, typing, erasing and
  clearing keep it, and erasing takes back exactly the character that was typed last.
\<close>

theorem shell_buffer_typed:
  "shell_ok shell_new \<and>
   (shell_ok sh \<longrightarrow>
      shell_ok (shell_push c sh) \<and> shell_ok (shell_pop sh) \<and> shell_ok (shell_clear sh) \<and>
      (sh_cursor sh < BUF_LEN - 1 \<longrightarrow> shell_pop (shell_push c sh) = sh))"
  using shell_push_ok[of sh c] shell_pop_ok[of sh] shell_pop_push[of sh c]
  by (simp add: shell_ok_def shell_new_def shell_clear_def BUF_LEN_def)

theorem shell_buffer_typed_witness:
  "shell_ok shell_new \<and> shell_pop (shell_push (CHR ''l'') shell_new) = shell_new"
  using shell_buffer_typed[of shell_new "CHR ''l''"] by (simp add: shell_new_def BUF_LEN_def)

text \<open>C39: Parsing takes a typed line apart. When a command, a file name and a text are typed with single
  spaces between them and fit the buffer, the line is recognised as that command and as no other,
  its argument is the file name, and what \<^verbatim>\<open>write\<close> and \<^verbatim>\<open>push\<close> store is the text with the space before it.
\<close>

theorem shell_line_parsed:
  assumes "list_all word_char w" "list_all word_char a" "a \<noteq> []" "list_all (\<lambda>c. c \<noteq> CHR 0x00) r"
    and "length w + length a + length r + 2 < BUF_LEN" "list_all word_char u"
  defines "buf \<equiv> sh_buffer (type_line (w @ '' '' @ a @ '' '' @ r))"
  shows "(cmd_is buf u \<longleftrightarrow> u = w) \<and> get_arg buf (length w) = a \<and>
    get_rest buf (length w + 1 + length a) = '' '' @ r"
proof -
  define z where "z = replicate (BUF_LEN - (length w + length a + length r + 2)) (CHR 0x00)"
  have z: "z \<noteq> []" "hd z = CHR 0x00" using assms(5) by (simp_all add: z_def)
  have buf: "buf = w @ '' '' @ a @ '' '' @ r @ z"
    using type_line_buffer[of "w @ '' '' @ a @ '' '' @ r"] assms(5) by (simp add: buf_def z_def add.commute add.left_commute)
  have len: "length buf = BUF_LEN" using assms(5) by (simp add: buf z_def)
  have "cmd_is buf u \<longleftrightarrow> (\<exists>t. buf = u @ t \<and> (t = [] \<or> \<not> word_char (hd t)))"
    using cmd_matches_drop[of buf 0 u] len by (simp add: cmd_is_def)
  also have "\<dots> \<longleftrightarrow> u = w"
    using word_split_unique[of u w _ "'' '' @ a @ '' '' @ r @ z"] assms(1,6) by (auto simp: buf word_char_def)
  finally have "cmd_is buf u \<longleftrightarrow> u = w" .
  moreover have "get_arg buf (length w) = a"
    using takeWhile_word[of word_char a "'' '' @ r @ z"] assms(2,3,5)
    by (cases a) (auto simp: get_arg_def buf nth_append word_char_def[abs_def])
  moreover have "get_rest buf (length w + 1 + length a) = '' '' @ r"
    using takeWhile_word[of "\<lambda>c. c \<noteq> CHR 0x00" "'' '' @ r" z] assms(4,5) z
    by (simp add: get_rest_def buf nth_append)
  ultimately show ?thesis by simp
qed

theorem shell_line_parsed_witness:
  "get_arg (sh_buffer (type_line ''write area hi'')) 5 = ''area'' \<and>
   get_rest (sh_buffer (type_line ''write area hi'')) 10 = '' hi''"
  using shell_line_parsed[of "''write''" "''area''" "''hi''" "''write''"] by (simp add: word_char_def BUF_LEN_def eval_nat_numeral)

end
