(* ===== verification/SysIo.thy ===== *)
theory SysIo
  imports SysBase
begin

text \<open>
  The input and output system calls (\<^verbatim>\<open>syscall/io.rs\<close>): reading and writing a descriptor, with one
  buffer or a vector of them, at the position of the file or at a given one, and the terminal
  requests. The window size comes from the console, so it is an argument. The three bytes of padding
  in \<^verbatim>\<open>Termios\<close>, which the source leaves undefined, are 0. The messages to the serial port are left
  out.
\<close>

unbundle bit_operations_syntax

definition TCGETS :: u64 where "TCGETS = 0x5401"
definition TIOCGWINSZ :: u64 where "TIOCGWINSZ = 0x5413"

lemmas io_consts = TCGETS_def TIOCGWINSZ_def

section \<open>One buffer\<close>

definition write_impl :: "u64 \<Rightarrow> u64 \<Rightarrow> u64 \<Rightarrow> u64 syscall" where
  "write_impl fd buf_ptr len =
     sys_seq (ensure (user_range_ok buf_ptr len) Fault) (\<lambda>_.
     sys_seq (sys_await (write_to_fd (unat fd) (UserSrc buf_ptr) len) BadFd) (\<lambda>n.
       sys_ok (of_nat n)))"

definition read_impl :: "u64 \<Rightarrow> u64 \<Rightarrow> u64 \<Rightarrow> u64 syscall" where
  "read_impl fd buf_ptr len =
     sys_seq (ensure (user_range_ok buf_ptr len) Fault) (\<lambda>_.
     sys_seq (sys_await (read_from_fd (unat fd) buf_ptr len) BadFd) (\<lambda>n.
       sys_ok (of_nat n)))"

section \<open>Vectors\<close>

text \<open>The loops over the buffers; \<open>moved\<close> counts the bytes moved so far. A short transfer ends them.\<close>

primrec writev_loop :: "u64 \<Rightarrow> iovec list \<Rightarrow> u64 \<Rightarrow> u64 syscall" where
  "writev_loop fd [] moved = sys_ok moved"
| "writev_loop fd (iov # iovs) moved =
     sys_seq (ensure (user_range_ok (iov_base iov) (iov_len iov)) Fault) (\<lambda>_.
     sys_seq (sys_await (write_to_fd (unat fd) (UserSrc (iov_base iov)) (iov_len iov)) BadFd) (\<lambda>written.
       let moved' = saturating_add moved (of_nat written)
       in if of_nat written \<noteq> iov_len iov then sys_ok moved' else writev_loop fd iovs moved'))"

definition writev_impl :: "u64 \<Rightarrow> u64 \<Rightarrow> u64 \<Rightarrow> u64 syscall" where
  "writev_impl fd iov_ptr iovcnt =
     sys_seq (sys_await (copy_iovecs_from_user iov_ptr iovcnt) Fault) (\<lambda>iovs. writev_loop fd iovs 0)"

primrec readv_loop :: "u64 \<Rightarrow> iovec list \<Rightarrow> u64 \<Rightarrow> u64 syscall" where
  "readv_loop fd [] moved = sys_ok moved"
| "readv_loop fd (iov # iovs) moved =
     sys_seq (ensure (user_range_ok (iov_base iov) (iov_len iov)) Fault) (\<lambda>_.
     sys_seq (sys_await (read_from_fd (unat fd) (iov_base iov) (iov_len iov)) BadFd) (\<lambda>n.
       let moved' = saturating_add moved (of_nat n)
       in if of_nat n \<noteq> iov_len iov then sys_ok moved' else readv_loop fd iovs moved'))"

definition readv_impl :: "u64 \<Rightarrow> u64 \<Rightarrow> u64 \<Rightarrow> u64 syscall" where
  "readv_impl fd iov_ptr iovcnt =
     sys_seq (sys_await (copy_iovecs_from_user iov_ptr iovcnt) Fault) (\<lambda>iovs. readv_loop fd iovs 0)"

section \<open>The terminal\<close>

definition is_terminal :: "fd_target option \<Rightarrow> bool" where
  "is_terminal t = (case t of Some (Stdio _) \<Rightarrow> True | Some Tty \<Rightarrow> True | _ \<Rightarrow> False)"

definition termios_bytes :: "u8 list" where
  "termios_bytes = replicate 60 0"

type_synonym winsize = "16 word \<times> 16 word \<times> 16 word \<times> 16 word"

fun winsize_bytes :: "winsize \<Rightarrow> u8 list" where
  "winsize_bytes (rows, cols, xpixel, ypixel) =
     to_le_bytes 2 rows @ to_le_bytes 2 cols @ to_le_bytes 2 xpixel @ to_le_bytes 2 ypixel"

definition ioctl_impl :: "winsize \<Rightarrow> u64 \<Rightarrow> u64 \<Rightarrow> u64 \<Rightarrow> u64 syscall" where
  "ioctl_impl win fd req argp =
     sys_seq (\<lambda>s. ensure (is_terminal (get_fd_target (unat fd) s)) NotTty s) (\<lambda>_.
       if req = TCGETS then
         sys_seq (ensure (user_range_ok argp 60) Fault) (\<lambda>_.
         sys_seq (sys_await_test (copy_struct_to_user argp termios_bytes) Fault) (\<lambda>_.
           sys_ok 0))
       else if req = TIOCGWINSZ then
         sys_seq (ensure (user_range_ok argp 8) Fault) (\<lambda>_.
         sys_seq (sys_await_test (copy_struct_to_user argp (winsize_bytes win)) Fault) (\<lambda>_.
           sys_ok 0))
       else sys_err NotTty)"

section \<open>At a position\<close>

text \<open>The index of the file that a descriptor refers to, when its access mode is not \<open>forbidden\<close>.\<close>

definition seekable_file :: "u64 \<Rightarrow> u32 \<Rightarrow> nat syscall" where
  "seekable_file fd forbidden =
     sys_seq (sys_get (get_status_flags (unat fd)) BadFd) (\<lambda>status.
     sys_seq (ensure (status AND O_ACCMODE \<noteq> forbidden) BadFd) (\<lambda>_.
     sys_seq (sys_get (fd_descriptor_info (unat fd)) BadFd) (\<lambda>info.
       case info of DFile file_idx _ \<Rightarrow> sys_ok file_idx | _ \<Rightarrow> sys_err NotSeekable)))"

definition pread64_impl :: "u64 \<Rightarrow> u64 \<Rightarrow> u64 \<Rightarrow> u64 \<Rightarrow> u64 syscall" where
  "pread64_impl fd buf_ptr len offset =
     sys_seq (ensure (user_range_ok buf_ptr len) Fault) (\<lambda>_.
     sys_seq (seekable_file fd O_WRONLY) (\<lambda>file_idx.
     sys_seq (sys_await (lift_fs (fs_read_to_vec file_idx offset len)) BadFd) (\<lambda>bytes.
     sys_seq (sys_await_test (copy_to_user buf_ptr bytes) Fault) (\<lambda>_.
       sys_ok (of_nat (length bytes))))))"

definition pwrite64_impl :: "u64 \<Rightarrow> u64 \<Rightarrow> u64 \<Rightarrow> u64 \<Rightarrow> u64 syscall" where
  "pwrite64_impl fd buf_ptr len offset =
     sys_seq (ensure (user_range_ok buf_ptr len) Fault) (\<lambda>_.
     sys_seq (seekable_file fd O_RDONLY) (\<lambda>file_idx.
     sys_seq (sys_await (copy_from_user (unat len) buf_ptr) Fault) (\<lambda>bytes.
     sys_seq (sys_await_test (lift_fs (fs_write_at file_idx offset bytes)) BadFd) (\<lambda>_.
       sys_ok len))))"

primrec preadv_loop :: "u64 \<Rightarrow> iovec list \<Rightarrow> u64 \<Rightarrow> u64 \<Rightarrow> u64 syscall" where
  "preadv_loop fd [] moved cur_off = sys_ok moved"
| "preadv_loop fd (iov # iovs) moved cur_off =
     sys_seq (ensure (user_range_ok (iov_base iov) (iov_len iov)) Fault) (\<lambda>_.
     sys_seq (pread64_impl fd (iov_base iov) (iov_len iov) cur_off) (\<lambda>n.
       let moved' = saturating_add moved n
       in if n \<noteq> iov_len iov then sys_ok moved'
          else preadv_loop fd iovs moved' (saturating_add cur_off n)))"

definition preadv_impl :: "u64 \<Rightarrow> u64 \<Rightarrow> u64 \<Rightarrow> u64 \<Rightarrow> u64 syscall" where
  "preadv_impl fd iov_ptr iovcnt offset =
     sys_seq (sys_await (copy_iovecs_from_user iov_ptr iovcnt) Fault) (\<lambda>iovs. preadv_loop fd iovs 0 offset)"

primrec pwritev_loop :: "u64 \<Rightarrow> iovec list \<Rightarrow> u64 \<Rightarrow> u64 \<Rightarrow> u64 syscall" where
  "pwritev_loop fd [] moved cur_off = sys_ok moved"
| "pwritev_loop fd (iov # iovs) moved cur_off =
     sys_seq (pwrite64_impl fd (iov_base iov) (iov_len iov) cur_off) (\<lambda>written.
       let moved' = saturating_add moved written
       in if written \<noteq> iov_len iov then sys_ok moved'
          else pwritev_loop fd iovs moved' (saturating_add cur_off written))"

definition pwritev_impl :: "u64 \<Rightarrow> u64 \<Rightarrow> u64 \<Rightarrow> u64 \<Rightarrow> u64 syscall" where
  "pwritev_impl fd iov_ptr iovcnt offset =
     sys_seq (sys_await (copy_iovecs_from_user iov_ptr iovcnt) Fault) (\<lambda>iovs. pwritev_loop fd iovs 0 offset)"

section \<open>From a file to a descriptor\<close>

definition sendfile_offset :: "u64 \<Rightarrow> u64 \<Rightarrow> usize syscall" where
  "sendfile_offset in_fd offset_ptr =
     (if offset_ptr \<noteq> 0 then
        sys_seq (sys_await (copy_struct_from_user 8 offset_ptr) Fault) (\<lambda>bs.
        let offset = from_le_bytes bs :: i64 in
        sys_seq (ensure (sint offset \<ge> 0) Invalid) (\<lambda>_. sys_ok offset))
      else sys_take (with_fd_mut (unat in_fd) (\<lambda>f. (of_offset f, f))) BadFd)"

definition sendfile_impl :: "u64 \<Rightarrow> u64 \<Rightarrow> u64 \<Rightarrow> u64 \<Rightarrow> u64 syscall" where
  "sendfile_impl out_fd in_fd offset_ptr count =
     sys_seq (seekable_file in_fd O_WRONLY) (\<lambda>file_idx.
     sys_seq (sendfile_offset in_fd offset_ptr) (\<lambda>start_offset.
     sys_seq (sys_await (lift_fs (fs_read_to_vec file_idx start_offset count)) BadFd) (\<lambda>bytes.
     sys_seq (sys_await (write_to_fd (unat out_fd) (KernelSrc bytes) (of_nat (length bytes))) BadFd) (\<lambda>written.
     let new_offset = start_offset + of_nat written in
     sys_seq (if offset_ptr \<noteq> 0
              then sys_await_test (copy_struct_to_user offset_ptr (to_le_bytes 8 new_offset)) Fault
              else sys_take (with_fd_mut (unat in_fd) (\<lambda>f. ((), f\<lparr>of_offset := new_offset\<rparr>))) BadFd) (\<lambda>_.
       sys_ok (of_nat written))))))"

section \<open>Entry points\<close>

definition io_write :: "u64 \<Rightarrow> u64 \<Rightarrow> u64 \<Rightarrow> kernel \<Rightarrow> (kernel, u64) outcome" where
  "io_write fd buf_ptr count = sys_done (write_impl fd buf_ptr count)"

definition io_read :: "u64 \<Rightarrow> u64 \<Rightarrow> u64 \<Rightarrow> kernel \<Rightarrow> (kernel, u64) outcome" where
  "io_read fd buf_ptr count = sys_done (read_impl fd buf_ptr count)"

definition io_writev :: "u64 \<Rightarrow> u64 \<Rightarrow> u64 \<Rightarrow> kernel \<Rightarrow> (kernel, u64) outcome" where
  "io_writev fd iov_ptr iovcnt = sys_done (writev_impl fd iov_ptr iovcnt)"

definition io_readv :: "u64 \<Rightarrow> u64 \<Rightarrow> u64 \<Rightarrow> kernel \<Rightarrow> (kernel, u64) outcome" where
  "io_readv fd iov_ptr iovcnt = sys_done (readv_impl fd iov_ptr iovcnt)"

definition io_ioctl :: "winsize \<Rightarrow> u64 \<Rightarrow> u64 \<Rightarrow> u64 \<Rightarrow> kernel \<Rightarrow> (kernel, u64) outcome" where
  "io_ioctl win fd req argp = sys_done (ioctl_impl win fd req argp)"

definition io_pread64 :: "u64 \<Rightarrow> u64 \<Rightarrow> u64 \<Rightarrow> u64 \<Rightarrow> kernel \<Rightarrow> (kernel, u64) outcome" where
  "io_pread64 fd buf_ptr count offset = sys_done (pread64_impl fd buf_ptr count offset)"

definition io_pwrite64 :: "u64 \<Rightarrow> u64 \<Rightarrow> u64 \<Rightarrow> u64 \<Rightarrow> kernel \<Rightarrow> (kernel, u64) outcome" where
  "io_pwrite64 fd buf_ptr count offset = sys_done (pwrite64_impl fd buf_ptr count offset)"

definition io_preadv :: "u64 \<Rightarrow> u64 \<Rightarrow> u64 \<Rightarrow> u64 \<Rightarrow> kernel \<Rightarrow> (kernel, u64) outcome" where
  "io_preadv fd iov_ptr iovcnt offset = sys_done (preadv_impl fd iov_ptr iovcnt offset)"

definition io_pwritev :: "u64 \<Rightarrow> u64 \<Rightarrow> u64 \<Rightarrow> u64 \<Rightarrow> kernel \<Rightarrow> (kernel, u64) outcome" where
  "io_pwritev fd iov_ptr iovcnt offset = sys_done (pwritev_impl fd iov_ptr iovcnt offset)"

definition io_sendfile :: "u64 \<Rightarrow> u64 \<Rightarrow> u64 \<Rightarrow> u64 \<Rightarrow> kernel \<Rightarrow> (kernel, u64) outcome" where
  "io_sendfile out_fd in_fd offset_ptr count = sys_done (sendfile_impl out_fd in_fd offset_ptr count)"

end
