(* ===== verification/SysVfs.thy ===== *)
theory SysVfs
  imports SysBase
begin

text \<open>
  The file system calls (\<^verbatim>\<open>syscall/vfs.rs\<close>): opening, the status of files, seeking, resizing, listing,
  creating and removing, symbolic links of \<^verbatim>\<open>/proc\<close>, and the two calls that replace or extend a whole
  file. Paths are the bytes of a C string in user memory; the devices and \<^verbatim>\<open>/proc/self/exe\<close> are
  recognised before a path is looked up in the file system.
\<close>

unbundle bit_operations_syntax

section \<open>Constants\<close>

definition S_IFREG :: u32 where "S_IFREG = 0x8000"
definition S_IFCHR :: u32 where "S_IFCHR = 0x2000"
definition S_IFIFO :: u32 where "S_IFIFO = 0x1000"
definition DEFAULT_FILE_MODE :: u32 where "DEFAULT_FILE_MODE = S_IFREG OR 0x1A4"
definition DEFAULT_CHAR_MODE :: u32 where "DEFAULT_CHAR_MODE = S_IFCHR OR 0x1B6"
definition DEFAULT_PIPE_MODE :: u32 where "DEFAULT_PIPE_MODE = S_IFIFO OR 0x1B6"
definition AT_FDCWD :: i64 where "AT_FDCWD = - 100"
definition AT_REMOVEDIR :: u64 where "AT_REMOVEDIR = 0x200"
definition F_OK :: u64 where "F_OK = 0"
definition X_OK :: u64 where "X_OK = 1"
definition W_OK :: u64 where "W_OK = 2"
definition R_OK :: u64 where "R_OK = 4"
definition O_LARGEFILE :: u64 where "O_LARGEFILE = 0x8000"

definition str_bytes :: "string \<Rightarrow> u8 list" where
  "str_bytes = map of_char"

definition DEV_NULL :: "u8 list" where "DEV_NULL = str_bytes ''/dev/null''"
definition DEV_ZERO :: "u8 list" where "DEV_ZERO = str_bytes ''/dev/zero''"
definition DEV_TTY :: "u8 list" where "DEV_TTY = str_bytes ''/dev/tty''"
definition DEV_STDIN :: "u8 list" where "DEV_STDIN = str_bytes ''/dev/stdin''"
definition DEV_STDOUT :: "u8 list" where "DEV_STDOUT = str_bytes ''/dev/stdout''"
definition DEV_STDERR :: "u8 list" where "DEV_STDERR = str_bytes ''/dev/stderr''"
definition PROC_SELF_EXE :: "u8 list" where "PROC_SELF_EXE = str_bytes ''/proc/self/exe''"

definition dev_paths :: "u8 list list" where
  "dev_paths = [DEV_NULL, DEV_ZERO, DEV_TTY, DEV_STDIN, DEV_STDOUT, DEV_STDERR]"

lemmas vfs_consts = S_IFREG_def S_IFCHR_def S_IFIFO_def DEFAULT_FILE_MODE_def DEFAULT_CHAR_MODE_def
  DEFAULT_PIPE_MODE_def AT_FDCWD_def AT_REMOVEDIR_def F_OK_def X_OK_def W_OK_def R_OK_def
  O_LARGEFILE_def DEV_NULL_def DEV_ZERO_def DEV_TTY_def DEV_STDIN_def DEV_STDOUT_def DEV_STDERR_def
  PROC_SELF_EXE_def dev_paths_def str_bytes_def

section \<open>Status of files\<close>

record stat =
  st_dev :: u64
  st_ino :: u64
  st_mode :: u32
  st_nlink :: u32
  st_uid :: u32
  st_gid :: u32
  st_rdev :: u64
  st_size :: i64
  st_blksize :: i64
  st_blocks :: i64
  st_atime :: i64
  st_mtime :: i64
  st_ctime :: i64

definition stat_bytes :: "stat \<Rightarrow> u8 list" where
  "stat_bytes st =
     to_le_bytes 8 (st_dev st) @ to_le_bytes 8 (st_ino st) @ to_le_bytes 4 (st_mode st) @
     to_le_bytes 4 (st_nlink st) @ to_le_bytes 4 (st_uid st) @ to_le_bytes 4 (st_gid st) @
     to_le_bytes 8 (st_rdev st) @ to_le_bytes 8 (st_size st) @ to_le_bytes 8 (st_blksize st) @
     to_le_bytes 8 (st_blocks st) @ to_le_bytes 8 (st_atime st) @ to_le_bytes 8 (st_mtime st) @
     to_le_bytes 8 (st_ctime st)"

definition device_stat :: "u64 \<Rightarrow> u64 \<Rightarrow> u32 \<Rightarrow> i64 \<Rightarrow> stat" where
  "device_stat dev ino mode blksize =
     \<lparr>st_dev = dev, st_ino = ino, st_mode = mode, st_nlink = 1, st_uid = 0, st_gid = 0, st_rdev = 0,
      st_size = 0, st_blksize = blksize, st_blocks = 0, st_atime = 0, st_mtime = 0, st_ctime = 0\<rparr>"

definition char_stat :: stat where
  "char_stat = device_stat 3 1 DEFAULT_CHAR_MODE 1"

definition stat_for_file_idx :: "nat \<Rightarrow> i64 \<Rightarrow> stat" where
  "stat_for_file_idx file_idx sz =
     \<lparr>st_dev = 1, st_ino = of_nat (file_idx + 1), st_mode = DEFAULT_FILE_MODE, st_nlink = 1, st_uid = 0,
      st_gid = 0, st_rdev = 0, st_size = sz, st_blksize = 4096, st_blocks = div_ceil (sz + 511) 512,
      st_atime = 0, st_mtime = 0, st_ctime = 0\<rparr>"

definition put_stat :: "u64 \<Rightarrow> stat \<Rightarrow> u64 syscall" where
  "put_stat stat_ptr st =
     sys_seq (sys_await_test (copy_struct_to_user stat_ptr (stat_bytes st)) Fault) (\<lambda>_. sys_ok 0)"

section \<open>Opening\<close>

definition valid_open_flags :: "u64 \<Rightarrow> bool" where
  "valid_open_flags flags \<longleftrightarrow>
     flags AND NOT (ucast O_ACCMODE OR ucast O_CREAT OR ucast O_EXCL OR ucast O_TRUNC OR ucast O_APPEND
       OR ucast O_NONBLOCK OR O_LARGEFILE OR 0x80000) = 0"

definition with_filesystem :: "(ramfs option \<Rightarrow> 'a \<times> ramfs option) \<Rightarrow> kernel \<Rightarrow> 'a \<times> kernel" where
  "with_filesystem f s = (case f (FILESYSTEM s) of (r, fs) \<Rightarrow> (r, s\<lparr>FILESYSTEM := fs\<rparr>))"

text \<open>The file to open, created when it is missing and the flags ask for it.\<close>

definition find_or_create :: "string \<Rightarrow> u64 \<Rightarrow> nat syscall" where
  "find_or_create path flags =
     sys_seq (sys_read (\<lambda>s. fs_find_idx path (FILESYSTEM s))) (\<lambda>found.
       case found of
         None \<Rightarrow>
           sys_seq (ensure (flags AND ucast O_CREAT \<noteq> 0) NoEntry) (\<lambda>_.
           sys_seq (sys_test (with_filesystem (vfs_create path)) Invalid) (\<lambda>_.
             sys_get (\<lambda>s. fs_find_idx path (FILESYSTEM s)) NoEntry))
       | Some file_idx \<Rightarrow>
           if flags AND ucast O_CREAT \<noteq> 0 \<and> flags AND ucast O_EXCL \<noteq> 0 then sys_err Invalid
           else sys_ok file_idx)"

definition open_path :: "string \<Rightarrow> u64 \<Rightarrow> u64 syscall" where
  "open_path path flags =
     (let accmode = flags AND ucast O_ACCMODE in
      sys_seq (ensure (valid_open_flags flags) Invalid) (\<lambda>_.
      sys_seq (ensure (accmode = ucast O_RDONLY \<or> accmode = ucast O_WRONLY \<or> accmode = ucast O_RDWR) Invalid) (\<lambda>_.
      sys_seq (ensure (flags AND ucast O_TRUNC = 0 \<or> accmode \<noteq> ucast O_RDONLY) Invalid) (\<lambda>_.
      sys_seq (find_or_create path flags) (\<lambda>file_idx.
      sys_seq (if flags AND ucast O_TRUNC \<noteq> 0 \<and> accmode \<noteq> ucast O_RDONLY
               then sys_await_test (lift_fs (fs_resize file_idx 0)) Invalid else sys_ok ()) (\<lambda>_.
      sys_seq (sys_take (proc_open_file file_idx (ucast flags AND (O_ACCMODE OR O_APPEND OR O_NONBLOCK))) BadFd) (\<lambda>fd.
        sys_ok (of_nat fd))))))))"

definition open_fd :: "(kernel \<Rightarrow> nat option \<times> kernel) \<Rightarrow> u64 syscall" where
  "open_fd op = sys_seq (sys_take op BadFd) (\<lambda>fd. sys_ok (of_nat fd))"

text \<open>The name of the running program; a length above that of the buffer panics.\<close>

definition exe_name :: "string syscall" where
  "exe_name s =
     (case current_exe_path s of
        (path, len) \<Rightarrow>
          if len = 0 then sys_err NoEntry s
          else if len > MAX_PATH_LEN then Panicked
          else sys_ok (map (\<lambda>b. char_of (unat b)) (take len path)) s)"

definition open_special_path :: "u8 list \<Rightarrow> u64 \<Rightarrow> u64 syscall option" where
  "open_special_path raw_path flags =
     (if \<not> valid_open_flags flags then Some (sys_err Invalid)
      else if raw_path = DEV_NULL then Some (open_fd (open_char_device Null))
      else if raw_path = DEV_ZERO then Some (open_fd (open_char_device Zero))
      else if raw_path = DEV_TTY then Some (open_fd (open_char_device Tty))
      else if raw_path = DEV_STDIN then Some (open_fd (dup_min 0 3 False))
      else if raw_path = DEV_STDOUT then Some (open_fd (dup_min 1 3 False))
      else if raw_path = DEV_STDERR then Some (open_fd (dup_min 2 3 False))
      else if raw_path = PROC_SELF_EXE then Some (sys_seq exe_name (\<lambda>name. open_path name flags))
      else None)"

definition open_impl :: "u64 \<Rightarrow> u64 \<Rightarrow> u64 \<Rightarrow> u64 syscall" where
  "open_impl path_ptr flags mode =
     sys_seq (sys_await (copy_cstr_from_user path_ptr) Fault) (\<lambda>raw_path.
       case open_special_path raw_path flags of
         Some special \<Rightarrow> special
       | None \<Rightarrow>
           sys_seq (sys_await (copy_path_cstr_from_user path_ptr) Fault) (\<lambda>name. open_path name flags))"

definition openat_impl :: "u64 \<Rightarrow> u64 \<Rightarrow> u64 \<Rightarrow> u64 \<Rightarrow> u64 syscall" where
  "openat_impl dirfd path_ptr flags mode =
     sys_seq (ensure (dirfd = AT_FDCWD) Unsupported) (\<lambda>_. open_impl path_ptr flags mode)"

section \<open>Size, status, access, position\<close>

definition fsize_impl :: "u64 \<Rightarrow> u64 syscall" where
  "fsize_impl fd = sys_seq (sys_get (file_size (unat fd)) BadFd) (\<lambda>n. sys_ok (of_nat n))"

definition fstat_impl :: "u64 \<Rightarrow> u64 \<Rightarrow> u64 syscall" where
  "fstat_impl fd stat_ptr =
     sys_seq (sys_get (fd_descriptor_info (unat fd)) BadFd) (\<lambda>info.
       put_stat stat_ptr
         (case info of
            DStdio index \<Rightarrow> device_stat 0 (ucast index) DEFAULT_CHAR_MODE 1
          | DCharDevice \<Rightarrow> char_stat
          | DFile file_idx sz \<Rightarrow> stat_for_file_idx file_idx (of_nat sz)
          | DPipe \<Rightarrow> device_stat 2 fd DEFAULT_PIPE_MODE 1024))"

definition stat_file :: "string \<Rightarrow> u64 \<Rightarrow> u64 syscall" where
  "stat_file name stat_ptr =
     sys_seq (sys_get (\<lambda>s. fs_find_idx name (FILESYSTEM s)) NoEntry) (\<lambda>file_idx.
     sys_seq (sys_read (\<lambda>s. fs_file_size file_idx (FILESYSTEM s))) (\<lambda>sz.
       put_stat stat_ptr (stat_for_file_idx file_idx (of_nat sz))))"

definition fstatat_impl :: "u64 \<Rightarrow> u64 \<Rightarrow> u64 \<Rightarrow> u64 \<Rightarrow> u64 syscall" where
  "fstatat_impl dirfd path_ptr stat_ptr flags =
     sys_seq (ensure (dirfd = AT_FDCWD) Unsupported) (\<lambda>_.
     sys_seq (ensure (flags = 0) Unsupported) (\<lambda>_.
     sys_seq (sys_await (copy_cstr_from_user path_ptr) Fault) (\<lambda>raw_path.
       if raw_path \<in> set dev_paths then put_stat stat_ptr char_stat
       else if raw_path = PROC_SELF_EXE then sys_seq exe_name (\<lambda>name. stat_file name stat_ptr)
       else sys_seq (sys_await (copy_path_cstr_from_user path_ptr) Fault) (\<lambda>name. stat_file name stat_ptr))))"

definition faccessat_impl :: "u64 \<Rightarrow> u64 \<Rightarrow> u64 \<Rightarrow> u64 \<Rightarrow> u64 syscall" where
  "faccessat_impl dirfd path_ptr mode flags =
     sys_seq (ensure (dirfd = AT_FDCWD) Unsupported) (\<lambda>_.
     sys_seq (ensure (flags = 0) Unsupported) (\<lambda>_.
     sys_seq (ensure (mode AND NOT (R_OK OR W_OK OR X_OK) = 0 \<or> mode = F_OK) Invalid) (\<lambda>_.
     sys_seq (sys_await (copy_cstr_from_user path_ptr) Fault) (\<lambda>raw_path.
       if raw_path \<in> set dev_paths \<or> raw_path = PROC_SELF_EXE
       then sys_seq (ensure (mode AND X_OK = 0) Access) (\<lambda>_. sys_ok 0)
       else if raw_path = [0x2F] then sys_seq (ensure (mode AND W_OK = 0) Access) (\<lambda>_. sys_ok 0)
       else
         sys_seq (sys_await (copy_path_cstr_from_user path_ptr) Fault) (\<lambda>name.
         sys_seq (sys_get (\<lambda>s. fs_find_idx name (FILESYSTEM s)) NoEntry) (\<lambda>_.
         sys_seq (ensure (mode AND X_OK = 0) Access) (\<lambda>_. sys_ok 0)))))))"

definition lseek_impl :: "u64 \<Rightarrow> u64 \<Rightarrow> u64 \<Rightarrow> u64 syscall" where
  "lseek_impl fd offset whence =
     sys_seq (sys_get (fd_descriptor_info (unat fd)) BadFd) (\<lambda>info.
       case info of
         DFile _ _ \<Rightarrow> sys_take (seek (unat fd) offset whence) Invalid
       | _ \<Rightarrow> sys_err NotSeekable)"

section \<open>Resizing\<close>

definition truncate_impl :: "u64 \<Rightarrow> u64 \<Rightarrow> u64 syscall" where
  "truncate_impl path_ptr len =
     sys_seq (sys_await (copy_path_cstr_from_user path_ptr) Fault) (\<lambda>name.
     sys_seq (sys_get (\<lambda>s. fs_find_idx name (FILESYSTEM s)) NoEntry) (\<lambda>file_idx.
     sys_seq (sys_await_test (lift_fs (fs_resize file_idx len)) Invalid) (\<lambda>_.
       sys_ok 0)))"

definition ftruncate_impl :: "u64 \<Rightarrow> u64 \<Rightarrow> u64 syscall" where
  "ftruncate_impl fd len =
     sys_seq (sys_get (fd_descriptor_info (unat fd)) BadFd) (\<lambda>info.
       case info of
         DFile file_idx _ \<Rightarrow>
           sys_seq (sys_await_test (lift_fs (fs_resize file_idx len)) Invalid) (\<lambda>_. sys_ok 0)
       | _ \<Rightarrow> sys_err Invalid)"

section \<open>Listing\<close>

text \<open>
  A run of bytes written to the user buffer from position \<open>pos\<close>; one byte is kept for the final 0.
\<close>

primrec ls_put :: "u8 list \<Rightarrow> u64 \<Rightarrow> nat \<Rightarrow> nat \<Rightarrow> kernel \<Rightarrow> (kernel, nat) outcome" where
  "ls_put [] buf buf_len pos s = Done pos s"
| "ls_put (b # bs) buf buf_len pos s =
     (if pos + 1 \<ge> buf_len then Done pos s
      else obind (user_store [b] (buf + of_nat pos) s) (\<lambda>_. ls_put bs buf buf_len (pos + 1)))"

text \<open>The digits of a number, the last one first, at most \<open>n\<close> of them.\<close>

primrec ls_digits :: "nat \<Rightarrow> nat \<Rightarrow> u8 list" where
  "ls_digits 0 v = []"
| "ls_digits (Suc n) v = (if v > 0 then (0x30 + of_nat (v mod 10)) # ls_digits n (v div 10) else [])"

definition decimal :: "nat \<Rightarrow> u8 list" where
  "decimal v = (if v = 0 then [0x30] else rev (ls_digits 20 v))"

definition ls_file :: "u64 \<Rightarrow> nat \<Rightarrow> ram_file \<Rightarrow> nat \<Rightarrow> kernel \<Rightarrow> (kernel, nat) outcome" where
  "ls_file buf buf_len f pos s =
     obind (ls_put (str_bytes (file_name f)) buf buf_len pos s) (\<lambda>pos.
       \<lambda>s. obind (ls_put (str_bytes '' ('') buf buf_len pos s) (\<lambda>pos.
       \<lambda>s. obind (ls_put (decimal (length (file_data f))) buf buf_len pos s) (\<lambda>pos.
         ls_put (str_bytes '' bytes)'' @ [0x0A]) buf buf_len pos)))"

primrec ls_files :: "ram_file list \<Rightarrow> u64 \<Rightarrow> nat \<Rightarrow> nat \<Rightarrow> kernel \<Rightarrow> (kernel, nat) outcome" where
  "ls_files [] buf buf_len pos s = Done pos s"
| "ls_files (f # fs) buf buf_len pos s =
     obind (ls_file buf buf_len f pos s) (\<lambda>pos. ls_files fs buf buf_len pos)"

definition ls_impl :: "u64 \<Rightarrow> u64 \<Rightarrow> u64 syscall" where
  "ls_impl buf_ptr buf_len =
     sys_seq (ensure (user_range_ok buf_ptr buf_len) Fault) (\<lambda>_.
     sys_seq (sys_read (\<lambda>s. case vfs_list (FILESYSTEM s) of Some fs \<Rightarrow> fs | None \<Rightarrow> [])) (\<lambda>files.
     sys_seq (sys_run (ls_files files buf_ptr (unat buf_len) 0)) (\<lambda>pos.
     sys_seq (if pos < unat buf_len then sys_run (user_store [0] (buf_ptr + of_nat pos)) else sys_ok ()) (\<lambda>_.
       sys_ok (of_nat pos)))))"

section \<open>Creating, removing, links\<close>

definition touch_impl :: "u64 \<Rightarrow> u64 \<Rightarrow> u64 syscall" where
  "touch_impl name_ptr name_len =
     sys_seq (sys_await (copy_path_from_user name_ptr name_len) Fault) (\<lambda>name.
     sys_seq (sys_test (with_filesystem (vfs_create name)) Invalid) (\<lambda>_.
       sys_ok 0))"

definition rm_impl :: "u64 \<Rightarrow> u64 \<Rightarrow> u64 syscall" where
  "rm_impl name_ptr name_len =
     sys_seq (sys_await (copy_path_from_user name_ptr name_len) Fault) (\<lambda>name.
     sys_seq (sys_test (with_filesystem (vfs_remove name)) NoEntry) (\<lambda>_.
       sys_ok 0))"

definition unlinkat_impl :: "u64 \<Rightarrow> u64 \<Rightarrow> u64 \<Rightarrow> u64 \<Rightarrow> u64 syscall" where
  "unlinkat_impl dirfd path_ptr path_len flags =
     sys_seq (ensure (dirfd = AT_FDCWD) Unsupported) (\<lambda>_.
     sys_seq (ensure (flags = 0 \<or> flags = AT_REMOVEDIR) Invalid) (\<lambda>_.
     sys_seq (ensure (flags AND AT_REMOVEDIR = 0) Unsupported) (\<lambda>_.
     sys_seq (sys_await (copy_cstr_from_user path_ptr) Fault) (\<lambda>raw_path.
       if raw_path \<in> set dev_paths \<or> raw_path = PROC_SELF_EXE then sys_err Access
       else
         sys_seq (sys_await (copy_path_cstr_from_user path_ptr) Fault) (\<lambda>name.
         sys_seq (sys_test (with_filesystem (vfs_remove name)) NoEntry) (\<lambda>_.
           sys_ok 0))))))"

definition build_proc_self_exe_target :: "kernel \<Rightarrow> u8 list" where
  "build_proc_self_exe_target s =
     (case current_exe_path s of
        (path, len) \<Rightarrow> if len = 0 \<or> len + 1 > MAX_PATH_LEN then [] else 0x2F # take len path)"

definition readlink_common :: "u8 list \<Rightarrow> u64 \<Rightarrow> u64 \<Rightarrow> u64 syscall" where
  "readlink_common path buf_ptr buf_len =
     sys_seq (ensure (user_range_ok buf_ptr buf_len) Fault) (\<lambda>_.
     sys_seq (ensure (path = PROC_SELF_EXE) NoEntry) (\<lambda>_.
     sys_seq (sys_read build_proc_self_exe_target) (\<lambda>target.
     let count = min (length target) (unat buf_len) in
     sys_seq (ensure (length target > 0) NoEntry) (\<lambda>_.
     sys_seq (sys_await_test (copy_to_user buf_ptr (take count target)) Fault) (\<lambda>_.
       sys_ok (of_nat count))))))"

definition readlink_impl :: "u64 \<Rightarrow> u64 \<Rightarrow> u64 \<Rightarrow> u64 syscall" where
  "readlink_impl path_ptr buf_ptr buf_len =
     sys_seq (sys_await (copy_cstr_from_user path_ptr) Fault) (\<lambda>path. readlink_common path buf_ptr buf_len)"

definition readlinkat_impl :: "u64 \<Rightarrow> u64 \<Rightarrow> u64 \<Rightarrow> u64 \<Rightarrow> u64 syscall" where
  "readlinkat_impl dirfd path_ptr buf_ptr buf_len =
     sys_seq (ensure (dirfd = AT_FDCWD) Unsupported) (\<lambda>_. readlink_impl path_ptr buf_ptr buf_len)"

section \<open>Whole files\<close>

definition copy_file_payload_args :: "u64 \<Rightarrow> kernel \<Rightarrow> (kernel, (u64 \<times> usize) option) outcome" where
  "copy_file_payload_args args_ptr s =
     (if \<not> user_range_ok args_ptr 16 then Done None s
      else obind (user_load 16 args_ptr s) (\<lambda>bs s1.
        let data_ptr = from_le_bytes (take 8 bs); data_len = from_le_bytes (drop 8 bs)
        in Done (if user_range_ok data_ptr data_len then Some (data_ptr, data_len) else None) s1))"

text \<open>
  \<^verbatim>\<open>replace_all\<close> and \<^verbatim>\<open>append_all\<close> read the bytes from user memory while the file is being changed:
  nothing is read when the file is missing, and a page fault during the copy leaves the file as it
  was when the copy began, which for \<^verbatim>\<open>replace_all\<close> is empty.
\<close>

definition extend_from_user ::
  "(u8 list \<Rightarrow> ramfs option \<Rightarrow> bool \<times> ramfs option) \<Rightarrow> string \<Rightarrow> u64 \<Rightarrow> usize \<Rightarrow> kernel \<Rightarrow> (kernel, bool) outcome" where
  "extend_from_user op name ptr len s =
     (if fs_find_idx name (FILESYSTEM s) = None then Done False s
      else case user_load (unat len) ptr (snd (with_filesystem (op []) s)) of
             Done bytes _ \<Rightarrow> (case with_filesystem (op bytes) s of (b, s1) \<Rightarrow> Done b s1)
           | Faulted s1 \<Rightarrow> Faulted s1
           | Waiting s1 \<Rightarrow> Waiting s1
           | Panicked \<Rightarrow> Panicked)"

definition file_payload_impl ::
  "(string \<Rightarrow> u8 list \<Rightarrow> ramfs option \<Rightarrow> bool \<times> ramfs option) \<Rightarrow> u64 \<Rightarrow> u64 \<Rightarrow> u64 \<Rightarrow> u64 syscall" where
  "file_payload_impl op name_ptr name_len args_ptr =
     sys_seq (sys_await (copy_path_from_user name_ptr name_len) Fault) (\<lambda>name.
     sys_seq (sys_await (copy_file_payload_args args_ptr) Fault) (\<lambda>(data_ptr, data_len).
     sys_seq (sys_await_test (extend_from_user (op name) name data_ptr data_len) NoEntry) (\<lambda>_.
       sys_ok 0)))"

definition write_file_impl :: "u64 \<Rightarrow> u64 \<Rightarrow> u64 \<Rightarrow> u64 syscall" where
  "write_file_impl name_ptr name_len args_ptr = file_payload_impl replace_all name_ptr name_len args_ptr"

definition push_file_impl :: "u64 \<Rightarrow> u64 \<Rightarrow> u64 \<Rightarrow> u64 syscall" where
  "push_file_impl name_ptr name_len args_ptr = file_payload_impl append_all name_ptr name_len args_ptr"

section \<open>Entry points\<close>

definition vfs_open :: "u64 \<Rightarrow> u64 \<Rightarrow> u64 \<Rightarrow> kernel \<Rightarrow> (kernel, u64) outcome" where
  "vfs_open path_ptr flags mode = sys_done (open_impl path_ptr flags mode)"

definition vfs_openat :: "u64 \<Rightarrow> u64 \<Rightarrow> u64 \<Rightarrow> u64 \<Rightarrow> kernel \<Rightarrow> (kernel, u64) outcome" where
  "vfs_openat dirfd path_ptr flags mode = sys_done (openat_impl dirfd path_ptr flags mode)"

definition vfs_fsize :: "u64 \<Rightarrow> kernel \<Rightarrow> (kernel, u64) outcome" where
  "vfs_fsize fd = sys_done (fsize_impl fd)"

definition vfs_fstat :: "u64 \<Rightarrow> u64 \<Rightarrow> kernel \<Rightarrow> (kernel, u64) outcome" where
  "vfs_fstat fd stat_ptr = sys_done (fstat_impl fd stat_ptr)"

definition vfs_fstatat :: "u64 \<Rightarrow> u64 \<Rightarrow> u64 \<Rightarrow> u64 \<Rightarrow> kernel \<Rightarrow> (kernel, u64) outcome" where
  "vfs_fstatat dirfd path_ptr stat_ptr flags = sys_done (fstatat_impl dirfd path_ptr stat_ptr flags)"

definition vfs_faccessat :: "u64 \<Rightarrow> u64 \<Rightarrow> u64 \<Rightarrow> u64 \<Rightarrow> kernel \<Rightarrow> (kernel, u64) outcome" where
  "vfs_faccessat dirfd path_ptr mode flags = sys_done (faccessat_impl dirfd path_ptr mode flags)"

definition vfs_lseek :: "u64 \<Rightarrow> u64 \<Rightarrow> u64 \<Rightarrow> kernel \<Rightarrow> (kernel, u64) outcome" where
  "vfs_lseek fd offset whence = sys_done (lseek_impl fd offset whence)"

definition vfs_truncate :: "u64 \<Rightarrow> u64 \<Rightarrow> kernel \<Rightarrow> (kernel, u64) outcome" where
  "vfs_truncate path_ptr len = sys_done (truncate_impl path_ptr len)"

definition vfs_ftruncate :: "u64 \<Rightarrow> u64 \<Rightarrow> kernel \<Rightarrow> (kernel, u64) outcome" where
  "vfs_ftruncate fd len = sys_done (ftruncate_impl fd len)"

definition vfs_ls :: "u64 \<Rightarrow> u64 \<Rightarrow> kernel \<Rightarrow> (kernel, u64) outcome" where
  "vfs_ls buf_ptr buf_len = sys_done (ls_impl buf_ptr buf_len)"

definition vfs_touch :: "u64 \<Rightarrow> u64 \<Rightarrow> kernel \<Rightarrow> (kernel, u64) outcome" where
  "vfs_touch name_ptr name_len = sys_done (touch_impl name_ptr name_len)"

definition vfs_rm :: "u64 \<Rightarrow> u64 \<Rightarrow> kernel \<Rightarrow> (kernel, u64) outcome" where
  "vfs_rm name_ptr name_len = sys_done (rm_impl name_ptr name_len)"

definition vfs_unlinkat :: "u64 \<Rightarrow> u64 \<Rightarrow> u64 \<Rightarrow> u64 \<Rightarrow> kernel \<Rightarrow> (kernel, u64) outcome" where
  "vfs_unlinkat dirfd path_ptr path_len flags = sys_done (unlinkat_impl dirfd path_ptr path_len flags)"

definition vfs_readlink :: "u64 \<Rightarrow> u64 \<Rightarrow> u64 \<Rightarrow> kernel \<Rightarrow> (kernel, u64) outcome" where
  "vfs_readlink path_ptr buf_ptr buf_len = sys_done (readlink_impl path_ptr buf_ptr buf_len)"

definition vfs_readlinkat :: "u64 \<Rightarrow> u64 \<Rightarrow> u64 \<Rightarrow> u64 \<Rightarrow> kernel \<Rightarrow> (kernel, u64) outcome" where
  "vfs_readlinkat dirfd path_ptr buf_ptr buf_len = sys_done (readlinkat_impl dirfd path_ptr buf_ptr buf_len)"

definition vfs_write_file :: "u64 \<Rightarrow> u64 \<Rightarrow> u64 \<Rightarrow> kernel \<Rightarrow> (kernel, u64) outcome" where
  "vfs_write_file name_ptr name_len args_ptr = sys_done (write_file_impl name_ptr name_len args_ptr)"

definition vfs_push_file :: "u64 \<Rightarrow> u64 \<Rightarrow> u64 \<Rightarrow> kernel \<Rightarrow> (kernel, u64) outcome" where
  "vfs_push_file name_ptr name_len args_ptr = sys_done (push_file_impl name_ptr name_len args_ptr)"

end
