(* ===== verification/SysProcess.thy ===== *)
theory SysProcess
  imports Futex Exec
begin

text \<open>
  The system calls of processes and threads (\<^verbatim>\<open>syscall/process.rs\<close>) other than signals and
  futexes: identities, program start, fork and clone, duplication of descriptors, pipes, waiting and
  exiting. A call that has not returned when the state changes hands is waiting: a parent whose
  child still runs, and a thread that has exited and spins until the scheduler drops it.
\<close>

unbundle bit_operations_syntax

section \<open>Constants\<close>

definition O_CLOEXEC :: u64 where "O_CLOEXEC = 0x80000"
definition F_DUPFD :: u64 where "F_DUPFD = 0"
definition F_GETFD :: u64 where "F_GETFD = 1"
definition F_SETFD :: u64 where "F_SETFD = 2"
definition F_GETFL :: u64 where "F_GETFL = 3"
definition F_SETFL :: u64 where "F_SETFL = 4"
definition F_DUPFD_CLOEXEC :: u64 where "F_DUPFD_CLOEXEC = 1030"
definition FCNTL_STATUS_MASK :: u32 where "FCNTL_STATUS_MASK = O_APPEND OR O_NONBLOCK"
definition UMASK_MASK :: u32 where "UMASK_MASK = 0x1FF"
definition CLONE_VM :: u64 where "CLONE_VM = 0x00000100"
definition CLONE_FS :: u64 where "CLONE_FS = 0x00000200"
definition CLONE_FILES :: u64 where "CLONE_FILES = 0x00000400"
definition CLONE_SIGHAND :: u64 where "CLONE_SIGHAND = 0x00000800"
definition CLONE_PIDFD :: u64 where "CLONE_PIDFD = 0x00001000"
definition CLONE_PTRACE :: u64 where "CLONE_PTRACE = 0x00002000"
definition CLONE_VFORK :: u64 where "CLONE_VFORK = 0x00004000"
definition CLONE_PARENT :: u64 where "CLONE_PARENT = 0x00008000"
definition CLONE_THREAD :: u64 where "CLONE_THREAD = 0x00010000"
definition CLONE_NEWNS :: u64 where "CLONE_NEWNS = 0x00020000"
definition CLONE_SYSVSEM :: u64 where "CLONE_SYSVSEM = 0x00040000"
definition CLONE_SETTLS :: u64 where "CLONE_SETTLS = 0x00080000"
definition CLONE_PARENT_SETTID :: u64 where "CLONE_PARENT_SETTID = 0x00100000"
definition CLONE_CHILD_CLEARTID :: u64 where "CLONE_CHILD_CLEARTID = 0x00200000"
definition CLONE_DETACHED :: u64 where "CLONE_DETACHED = 0x00400000"
definition CLONE_UNTRACED :: u64 where "CLONE_UNTRACED = 0x00800000"
definition CLONE_CHILD_SETTID :: u64 where "CLONE_CHILD_SETTID = 0x01000000"
definition CLONE_NEWCGROUP :: u64 where "CLONE_NEWCGROUP = 0x02000000"
definition CLONE_NEWUTS :: u64 where "CLONE_NEWUTS = 0x04000000"
definition CLONE_NEWIPC :: u64 where "CLONE_NEWIPC = 0x08000000"
definition CLONE_NEWUSER :: u64 where "CLONE_NEWUSER = 0x10000000"
definition CLONE_NEWPID :: u64 where "CLONE_NEWPID = 0x20000000"
definition CLONE_NEWNET :: u64 where "CLONE_NEWNET = 0x40000000"
definition CLONE_IO :: u64 where "CLONE_IO = 0x80000000"
definition CLONE_SIGNAL_MASK :: u64 where "CLONE_SIGNAL_MASK = 0xff"
definition CLONE_THREAD_FLAGS :: u64 where
  "CLONE_THREAD_FLAGS = CLONE_VM OR CLONE_FS OR CLONE_FILES OR CLONE_SIGHAND OR CLONE_THREAD"
definition CLONE_SUPPORTED_MASK :: u64 where
  "CLONE_SUPPORTED_MASK = CLONE_CHILD_CLEARTID OR CLONE_CHILD_SETTID OR CLONE_SETTLS OR CLONE_PARENT_SETTID"

lemmas clone_consts = CLONE_VM_def CLONE_FS_def CLONE_FILES_def CLONE_SIGHAND_def CLONE_PIDFD_def
  CLONE_PTRACE_def CLONE_VFORK_def CLONE_PARENT_def CLONE_THREAD_def CLONE_NEWNS_def CLONE_SYSVSEM_def
  CLONE_SETTLS_def CLONE_PARENT_SETTID_def CLONE_CHILD_CLEARTID_def CLONE_DETACHED_def CLONE_UNTRACED_def
  CLONE_CHILD_SETTID_def CLONE_NEWCGROUP_def CLONE_NEWUTS_def CLONE_NEWIPC_def CLONE_NEWUSER_def
  CLONE_NEWPID_def CLONE_NEWNET_def CLONE_IO_def CLONE_SIGNAL_MASK_def CLONE_THREAD_FLAGS_def
  CLONE_SUPPORTED_MASK_def

section \<open>Identities\<close>

definition process_field :: "(process \<Rightarrow> u64) \<Rightarrow> kernel \<Rightarrow> u64" where
  "process_field f s = (case current_process s of Some p \<Rightarrow> f p | None \<Rightarrow> 0)"

definition syscall_getpid :: "kernel \<Rightarrow> (kernel, u64) outcome" where
  "syscall_getpid s = Done (of_nat (current_pid s)) s"

definition syscall_getppid :: "kernel \<Rightarrow> (kernel, u64) outcome" where
  "syscall_getppid s = Done (of_nat (current_ppid s)) s"

definition syscall_gettid :: "kernel \<Rightarrow> (kernel, u64) outcome" where
  "syscall_gettid s = Done (of_nat (current_tid s)) s"

definition syscall_getuid :: "kernel \<Rightarrow> (kernel, u64) outcome" where
  "syscall_getuid s = Done (process_field (\<lambda>p. ucast (uid p)) s) s"

definition syscall_geteuid :: "kernel \<Rightarrow> (kernel, u64) outcome" where
  "syscall_geteuid s = Done (process_field (\<lambda>p. ucast (euid p)) s) s"

definition syscall_getgid :: "kernel \<Rightarrow> (kernel, u64) outcome" where
  "syscall_getgid s = Done (process_field (\<lambda>p. ucast (gid p)) s) s"

definition syscall_getegid :: "kernel \<Rightarrow> (kernel, u64) outcome" where
  "syscall_getegid s = Done (process_field (\<lambda>p. ucast (egid p)) s) s"

definition syscall_setuid_impl :: "u64 \<Rightarrow> u64 syscall" where
  "syscall_setuid_impl u =
     sys_seq (sys_get current_process Invalid) (\<lambda>_.
     sys_seq (sys_modify (current_process_mut (\<lambda>p. p\<lparr>uid := ucast u, euid := ucast u\<rparr>))) (\<lambda>_.
       sys_ok 0))"

definition syscall_setgid_impl :: "u64 \<Rightarrow> u64 syscall" where
  "syscall_setgid_impl g =
     sys_seq (sys_get current_process Invalid) (\<lambda>_.
     sys_seq (sys_modify (current_process_mut (\<lambda>p. p\<lparr>gid := ucast g, egid := ucast g\<rparr>))) (\<lambda>_.
       sys_ok 0))"

definition syscall_set_tid_address_impl :: "u64 \<Rightarrow> u64 syscall" where
  "syscall_set_tid_address_impl tidptr =
     sys_seq (sys_get current_thread Invalid) (\<lambda>_.
     sys_seq (sys_modify (current_thread_mut (\<lambda>th. th\<lparr>clear_child_tid := tidptr\<rparr>))) (\<lambda>_.
       sys_read (\<lambda>s. of_nat (current_tid s))))"

definition syscall_getpgrp :: "kernel \<Rightarrow> (kernel, u64) outcome" where
  "syscall_getpgrp s = Done (process_field (\<lambda>p. of_nat (pgid p)) s) s"

definition process_id_impl :: "(process \<Rightarrow> nat) \<Rightarrow> u64 \<Rightarrow> u64 syscall" where
  "process_id_impl f n =
     (if n = 0 then sys_read (process_field (\<lambda>p. of_nat (f p)))
      else
        sys_seq (sys_get (find_slot_by_pid (unat n)) NoEntry) (\<lambda>slot.
        sys_seq (sys_get (\<lambda>s. PROCESSES s ! slot) NoEntry) (\<lambda>process.
          sys_ok (of_nat (f process)))))"

definition syscall_getpgid_impl :: "u64 \<Rightarrow> u64 syscall" where
  "syscall_getpgid_impl n = process_id_impl pgid n"

definition syscall_getsid_impl :: "u64 \<Rightarrow> u64 syscall" where
  "syscall_getsid_impl n = process_id_impl sid n"

definition syscall_setpgid_impl :: "u64 \<Rightarrow> u64 \<Rightarrow> u64 syscall" where
  "syscall_setpgid_impl n g =
     sys_seq (sys_read current_pid) (\<lambda>cur.
     let target = (if n = 0 then cur else unat n); new_pgid = (if g = 0 then target else unat g) in
     sys_seq (ensure (target = cur) Unsupported) (\<lambda>_.
     sys_seq (sys_get current_process Invalid) (\<lambda>process.
     sys_seq (ensure (new_pgid \<noteq> 0) Invalid) (\<lambda>_.
     sys_seq (ensure (new_pgid = target \<or> new_pgid = pgid process) Unsupported) (\<lambda>_.
     sys_seq (sys_modify (current_process_mut (\<lambda>p. p\<lparr>pgid := new_pgid\<rparr>))) (\<lambda>_.
       sys_ok 0))))))"

definition syscall_umask_impl :: "u64 \<Rightarrow> u64 syscall" where
  "syscall_umask_impl m =
     sys_seq (sys_get current_process Invalid) (\<lambda>process.
     sys_seq (sys_modify (current_process_mut (\<lambda>p. p\<lparr>umask := ucast m AND UMASK_MASK\<rparr>))) (\<lambda>_.
       sys_ok (ucast (umask process))))"

definition put_u32 :: "u64 \<Rightarrow> u32 \<Rightarrow> unit syscall" where
  "put_u32 ptr v = sys_await_test (copy_struct_to_user ptr (to_le_bytes 4 v)) Fault"

definition syscall_getresuid_impl :: "u64 \<Rightarrow> u64 \<Rightarrow> u64 \<Rightarrow> u64 syscall" where
  "syscall_getresuid_impl ruid_ptr euid_ptr suid_ptr =
     sys_seq (sys_get current_process Invalid) (\<lambda>process.
     sys_seq (put_u32 ruid_ptr (uid process)) (\<lambda>_.
     sys_seq (put_u32 euid_ptr (euid process)) (\<lambda>_.
     sys_seq (put_u32 suid_ptr (euid process)) (\<lambda>_.
       sys_ok 0))))"

definition syscall_getresgid_impl :: "u64 \<Rightarrow> u64 \<Rightarrow> u64 \<Rightarrow> u64 syscall" where
  "syscall_getresgid_impl rgid_ptr egid_ptr sgid_ptr =
     sys_seq (sys_get current_process Invalid) (\<lambda>process.
     sys_seq (put_u32 rgid_ptr (gid process)) (\<lambda>_.
     sys_seq (put_u32 egid_ptr (egid process)) (\<lambda>_.
     sys_seq (put_u32 sgid_ptr (egid process)) (\<lambda>_.
       sys_ok 0))))"

section \<open>New programs, processes and threads\<close>

definition syscall_exec_impl :: "u64 \<Rightarrow> u64 syscall" where
  "syscall_exec_impl path_ptr =
     sys_seq (sys_await (copy_path_cstr_from_user path_ptr) Fault) (\<lambda>name.
     sys_seq (sys_get (\<lambda>s. clone_bytes name (FILESYSTEM s)) NoEntry) (\<lambda>elf_bytes.
     sys_seq (sys_run (exec_as_task elf_bytes name)) (\<lambda>(p, _).
     sys_seq (ensure (p \<noteq> 0) Invalid) (\<lambda>_.
       sys_ok (of_nat p)))))"

definition syscall_fork_impl :: "u64 \<Rightarrow> u64 syscall" where
  "syscall_fork_impl frame_ptr =
     sys_seq (ensure (frame_ptr \<noteq> 0) Invalid) (\<lambda>_.
     sys_seq (sys_run (\<lambda>s. clone_user_address_space (KERNEL_PML4 s) (current_pml4 s) s)) (\<lambda>child_pml4.
     sys_seq (sys_take (spawn_forked_task frame_ptr child_pml4) Invalid) (\<lambda>child_slot.
     sys_seq (sys_run (fork_current child_slot)) (\<lambda>child_pid.
       sys_ok (of_nat child_pid)))))"

definition clone_tls_from_frame :: "u64 \<Rightarrow> u64 syscall" where
  "clone_tls_from_frame frame_ptr =
     sys_seq (current_frame frame_ptr) (\<lambda>fp. sys_read (frame_get FRAME_R8 fp))"

definition clone_rejected :: u64 where
  "clone_rejected = CLONE_VFORK OR CLONE_PARENT OR CLONE_PIDFD OR CLONE_PTRACE OR CLONE_NEWNS OR CLONE_SYSVSEM
     OR CLONE_DETACHED OR CLONE_UNTRACED OR CLONE_NEWCGROUP OR CLONE_NEWUTS OR CLONE_NEWIPC OR CLONE_NEWUSER
     OR CLONE_NEWPID OR CLONE_NEWNET OR CLONE_IO"

definition check_clone_flags :: "u64 \<Rightarrow> unit syscall" where
  "check_clone_flags flags =
     (let exit_signal = flags AND CLONE_SIGNAL_MASK in
      sys_seq (ensure (flags AND NOT (CLONE_SIGNAL_MASK OR CLONE_SUPPORTED_MASK OR CLONE_THREAD_FLAGS) = 0)
                 Unsupported) (\<lambda>_.
      sys_seq (ensure (flags AND clone_rejected = 0) Unsupported) (\<lambda>_.
        if flags AND CLONE_THREAD \<noteq> 0 then
          sys_seq (ensure (flags AND CLONE_THREAD_FLAGS = CLONE_THREAD_FLAGS) Invalid) (\<lambda>_.
            ensure (exit_signal = 0) Unsupported)
        else ensure (exit_signal = 0 \<or> unat exit_signal = SIGCHLD) Unsupported)))"

definition clone_child :: "u64 \<Rightarrow> u64 \<Rightarrow> u64 \<Rightarrow> nat \<Rightarrow> nat syscall" where
  "clone_child flags child_tid_ptr frame_ptr child_slot =
     (if flags AND CLONE_THREAD \<noteq> 0 then
        sys_seq (if flags AND CLONE_SETTLS \<noteq> 0 then clone_tls_from_frame frame_ptr
                 else sys_read current_fs_base) (\<lambda>tls.
          sys_run (spawn_thread_in_group child_slot
            (if flags AND CLONE_CHILD_CLEARTID \<noteq> 0 \<or> flags AND CLONE_CHILD_SETTID \<noteq> 0 then child_tid_ptr else 0)
            tls))
      else sys_run (fork_current child_slot))"

definition set_child_tid :: "nat \<Rightarrow> u64 \<Rightarrow> unit syscall" where
  "set_child_tid child_slot ptr =
     sys_seq (sys_get (\<lambda>s. THREADS s ! child_slot) Invalid) (\<lambda>_.
       sys_modify (upd_thread child_slot (clear_child_tid_update (\<lambda>_. ptr))))"

definition syscall_clone_impl :: "u64 \<Rightarrow> u64 \<Rightarrow> u64 \<Rightarrow> u64 \<Rightarrow> u64 \<Rightarrow> u64 syscall" where
  "syscall_clone_impl flags child_stack parent_tid_ptr child_tid_ptr frame_ptr =
     sys_seq (check_clone_flags flags) (\<lambda>_.
     sys_seq (if flags AND CLONE_THREAD \<noteq> 0 then sys_read current_pml4
              else sys_run (\<lambda>s. clone_user_address_space (KERNEL_PML4 s) (current_pml4 s) s)) (\<lambda>child_pml4.
     sys_seq (sys_take (spawn_forked_task frame_ptr child_pml4) Invalid) (\<lambda>child_slot.
     sys_seq (clone_child flags child_tid_ptr frame_ptr child_slot) (\<lambda>child_id.
     sys_seq (if child_stack \<noteq> 0 then
                sys_seq (sys_get (task_frame_mut child_slot) Invalid) (\<lambda>fp.
                  sys_modify (frame_set FRAME_R10 fp child_stack))
              else sys_ok ()) (\<lambda>_.
     sys_seq (if flags AND CLONE_CHILD_SETTID \<noteq> 0 then
                sys_seq (set_child_tid child_slot child_tid_ptr) (\<lambda>_. put_u32 child_tid_ptr (of_nat child_id))
              else sys_ok ()) (\<lambda>_.
     sys_seq (if flags AND CLONE_CHILD_CLEARTID \<noteq> 0 then set_child_tid child_slot child_tid_ptr
              else sys_ok ()) (\<lambda>_.
     sys_seq (if parent_tid_ptr \<noteq> 0 then put_u32 parent_tid_ptr (of_nat child_id) else sys_ok ()) (\<lambda>_.
       sys_ok (of_nat child_id)))))))))"

section \<open>Descriptors\<close>

definition syscall_close_impl :: "u64 \<Rightarrow> u64 syscall" where
  "syscall_close_impl fd =
     sys_seq (sys_test (close_descriptor (unat fd)) BadFd) (\<lambda>_. sys_ok 0)"

definition syscall_dup_impl :: "u64 \<Rightarrow> u64 syscall" where
  "syscall_dup_impl oldfd =
     sys_seq (sys_take (dup_min (unat oldfd) 0 False) BadFd) (\<lambda>fd. sys_ok (of_nat fd))"

definition syscall_dup3_impl :: "u64 \<Rightarrow> u64 \<Rightarrow> u64 \<Rightarrow> u64 syscall" where
  "syscall_dup3_impl oldfd newfd flags =
     sys_seq (ensure (flags AND NOT O_CLOEXEC = 0) Invalid) (\<lambda>_.
     sys_seq (ensure (oldfd \<noteq> newfd) Invalid) (\<lambda>_.
     sys_seq (sys_take (dup_exact (unat oldfd) (unat newfd) (flags AND O_CLOEXEC \<noteq> 0)) BadFd) (\<lambda>fd.
       sys_ok (of_nat fd))))"

definition syscall_fcntl_impl :: "u64 \<Rightarrow> u64 \<Rightarrow> u64 \<Rightarrow> u64 syscall" where
  "syscall_fcntl_impl fd cmd arg =
     (if cmd = F_DUPFD then
        sys_seq (sys_take (dup_min (unat fd) (unat arg) False) BadFd) (\<lambda>n. sys_ok (of_nat n))
      else if cmd = F_DUPFD_CLOEXEC then
        sys_seq (sys_take (dup_min (unat fd) (unat arg) True) BadFd) (\<lambda>n. sys_ok (of_nat n))
      else if cmd = F_GETFD then
        sys_seq (sys_get (get_fd_flags (unat fd)) BadFd) (\<lambda>flags. sys_ok (ucast flags))
      else if cmd = F_SETFD then
        sys_seq (sys_test (set_cloexec (unat fd) (ucast arg AND FD_CLOEXEC \<noteq> 0)) BadFd) (\<lambda>_. sys_ok 0)
      else if cmd = F_GETFL then
        sys_seq (sys_get (get_status_flags (unat fd)) BadFd) (\<lambda>flags. sys_ok (ucast flags OR ucast O_RDONLY))
      else if cmd = F_SETFL then
        sys_seq (sys_test (set_status_flags (unat fd) (ucast arg AND FCNTL_STATUS_MASK)) BadFd) (\<lambda>_. sys_ok 0)
      else sys_err Unsupported)"

definition pipefds_bytes :: "nat \<Rightarrow> nat \<Rightarrow> u8 list" where
  "pipefds_bytes read_fd write_fd = to_le_bytes 4 (of_nat read_fd :: i32) @ to_le_bytes 4 (of_nat write_fd :: i32)"

definition syscall_pipe_impl :: "u64 \<Rightarrow> u64 syscall" where
  "syscall_pipe_impl pipefd_ptr =
     sys_seq (ensure (user_range_ok pipefd_ptr 8) Fault) (\<lambda>_.
     sys_seq (sys_take create_pipe_pair Invalid) (\<lambda>(read_fd, write_fd).
     sys_seq (sys_run (copy_to_user pipefd_ptr (pipefds_bytes read_fd write_fd))) (\<lambda>ok.
       if \<not> ok then
         sys_seq (sys_modify (\<lambda>s. snd (close_descriptor write_fd (snd (close_descriptor read_fd s))))) (\<lambda>_.
           sys_err Fault)
       else sys_ok 0)))"

text \<open>The body of the loop of \<^verbatim>\<open>pipe2\<close> over the two descriptors, read back from user memory.\<close>

definition pipe2_flags :: "u64 \<Rightarrow> i32 \<Rightarrow> unit syscall" where
  "pipe2_flags flags fd32 =
     (let fd = unat (scast fd32 :: usize) in
      sys_seq (if flags AND O_CLOEXEC \<noteq> 0 then sys_test (set_cloexec fd True) BadFd else sys_ok ()) (\<lambda>_.
        if flags AND ucast O_NONBLOCK \<noteq> 0 then sys_test (set_status_flags fd O_NONBLOCK) BadFd else sys_ok ()))"

definition syscall_pipe2_impl :: "u64 \<Rightarrow> u64 \<Rightarrow> u64 syscall" where
  "syscall_pipe2_impl pipefd_ptr flags =
     sys_seq (ensure (flags AND NOT (O_CLOEXEC OR ucast O_NONBLOCK) = 0) Invalid) (\<lambda>_.
     sys_seq (syscall_pipe_impl pipefd_ptr) (\<lambda>_.
     sys_seq (sys_await (copy_from_user 8 pipefd_ptr) Fault) (\<lambda>raw.
     sys_seq (pipe2_flags flags (from_le_bytes (take 4 raw))) (\<lambda>_.
     sys_seq (pipe2_flags flags (from_le_bytes (drop 4 raw))) (\<lambda>_.
       sys_ok 0)))))"

section \<open>Waiting and exiting\<close>

text \<open>One round of the loop of \<^verbatim>\<open>waitpid\<close>, and the collection of the child after it.\<close>

definition waitpid_poll :: "nat \<Rightarrow> u64 syscall" where
  "waitpid_poll slot s =
     (if is_running_in_slot slot s then Waiting s
      else sys_take (reap_slot slot) Invalid s)"

definition syscall_waitpid_impl :: "u64 \<Rightarrow> u64 syscall" where
  "syscall_waitpid_impl n =
     sys_seq (ensure (unat n > 0) Invalid) (\<lambda>_.
     sys_seq (sys_get current_task_slot Invalid) (\<lambda>self_slot.
     sys_seq (sys_get (find_slot_by_pid (unat n)) NoEntry) (\<lambda>slot.
     sys_seq (ensure (slot \<noteq> self_slot) Invalid) (\<lambda>_.
     sys_seq (sys_read current_pid) (\<lambda>self_pid.
     sys_seq (sys_get (\<lambda>s. PROCESSES s ! slot) NoEntry) (\<lambda>target.
     sys_seq (ensure (parent_pid target = self_pid) Child) (\<lambda>_.
       waitpid_poll slot)))))))"

text \<open>The end of both exits: the task dies, system calls are over, and the thread halts.\<close>

definition halt_thread :: "kernel \<Rightarrow> (kernel, u64) outcome" where
  "halt_thread s =
     Waiting ((case current_task_slot s of Some slot \<Rightarrow> kill_task slot s | None \<Rightarrow> s)\<lparr>IN_SYSCALL := False\<rparr>)"

definition syscall_exit :: "u64 \<Rightarrow> kernel \<Rightarrow> (kernel, u64) outcome" where
  "syscall_exit code s =
     obind (clear_child_tid_and_wake s) (\<lambda>_ s1.
       case exit_thread code False s1 of
         (group_dead, s2) \<Rightarrow> halt_thread (if group_dead then notify_parent_exit (current_ppid s) s2 else s2))"

definition syscall_exit_group :: "u64 \<Rightarrow> kernel \<Rightarrow> (kernel, u64) outcome" where
  "syscall_exit_group code s =
     obind (clear_child_tid_and_wake s) (\<lambda>_ s1.
       halt_thread (notify_parent_exit (current_ppid s) (snd (exit_thread code True s1))))"

section \<open>Entry points\<close>

definition syscall_setuid :: "u64 \<Rightarrow> kernel \<Rightarrow> (kernel, u64) outcome" where
  "syscall_setuid u = sys_done (syscall_setuid_impl u)"

definition syscall_setgid :: "u64 \<Rightarrow> kernel \<Rightarrow> (kernel, u64) outcome" where
  "syscall_setgid g = sys_done (syscall_setgid_impl g)"

definition syscall_set_tid_address :: "u64 \<Rightarrow> kernel \<Rightarrow> (kernel, u64) outcome" where
  "syscall_set_tid_address tidptr = sys_done (syscall_set_tid_address_impl tidptr)"

definition syscall_getpgid :: "u64 \<Rightarrow> kernel \<Rightarrow> (kernel, u64) outcome" where
  "syscall_getpgid n = sys_done (syscall_getpgid_impl n)"

definition syscall_getsid :: "u64 \<Rightarrow> kernel \<Rightarrow> (kernel, u64) outcome" where
  "syscall_getsid n = sys_done (syscall_getsid_impl n)"

definition syscall_setpgid :: "u64 \<Rightarrow> u64 \<Rightarrow> kernel \<Rightarrow> (kernel, u64) outcome" where
  "syscall_setpgid n g = sys_done (syscall_setpgid_impl n g)"

definition syscall_umask :: "u64 \<Rightarrow> kernel \<Rightarrow> (kernel, u64) outcome" where
  "syscall_umask m = sys_done (syscall_umask_impl m)"

definition syscall_getresuid :: "u64 \<Rightarrow> u64 \<Rightarrow> u64 \<Rightarrow> kernel \<Rightarrow> (kernel, u64) outcome" where
  "syscall_getresuid ruid_ptr euid_ptr suid_ptr = sys_done (syscall_getresuid_impl ruid_ptr euid_ptr suid_ptr)"

definition syscall_getresgid :: "u64 \<Rightarrow> u64 \<Rightarrow> u64 \<Rightarrow> kernel \<Rightarrow> (kernel, u64) outcome" where
  "syscall_getresgid rgid_ptr egid_ptr sgid_ptr = sys_done (syscall_getresgid_impl rgid_ptr egid_ptr sgid_ptr)"

definition syscall_exec :: "u64 \<Rightarrow> kernel \<Rightarrow> (kernel, u64) outcome" where
  "syscall_exec path_ptr = sys_done (syscall_exec_impl path_ptr)"

definition syscall_fork :: "u64 \<Rightarrow> kernel \<Rightarrow> (kernel, u64) outcome" where
  "syscall_fork frame_ptr = sys_done (syscall_fork_impl frame_ptr)"

definition syscall_clone :: "u64 \<Rightarrow> u64 \<Rightarrow> u64 \<Rightarrow> u64 \<Rightarrow> u64 \<Rightarrow> kernel \<Rightarrow> (kernel, u64) outcome" where
  "syscall_clone flags child_stack parent_tid_ptr child_tid_ptr frame_ptr = sys_done (syscall_clone_impl flags child_stack parent_tid_ptr child_tid_ptr frame_ptr)"

definition syscall_close :: "u64 \<Rightarrow> kernel \<Rightarrow> (kernel, u64) outcome" where
  "syscall_close fd = sys_done (syscall_close_impl fd)"

definition syscall_dup :: "u64 \<Rightarrow> kernel \<Rightarrow> (kernel, u64) outcome" where
  "syscall_dup oldfd = sys_done (syscall_dup_impl oldfd)"

definition syscall_dup3 :: "u64 \<Rightarrow> u64 \<Rightarrow> u64 \<Rightarrow> kernel \<Rightarrow> (kernel, u64) outcome" where
  "syscall_dup3 oldfd newfd flags = sys_done (syscall_dup3_impl oldfd newfd flags)"

definition syscall_fcntl :: "u64 \<Rightarrow> u64 \<Rightarrow> u64 \<Rightarrow> kernel \<Rightarrow> (kernel, u64) outcome" where
  "syscall_fcntl fd cmd arg = sys_done (syscall_fcntl_impl fd cmd arg)"

definition syscall_pipe :: "u64 \<Rightarrow> kernel \<Rightarrow> (kernel, u64) outcome" where
  "syscall_pipe pipefd_ptr = sys_done (syscall_pipe_impl pipefd_ptr)"

definition syscall_pipe2 :: "u64 \<Rightarrow> u64 \<Rightarrow> kernel \<Rightarrow> (kernel, u64) outcome" where
  "syscall_pipe2 pipefd_ptr flags = sys_done (syscall_pipe2_impl pipefd_ptr flags)"

definition syscall_waitpid :: "u64 \<Rightarrow> kernel \<Rightarrow> (kernel, u64) outcome" where
  "syscall_waitpid n = sys_done (syscall_waitpid_impl n)"

end
