(* ===== verification/Pci.thy ===== *)
theory Pci
  imports Prelude
begin

text \<open>
  The PCI bus (\<^verbatim>\<open>hw/pci.rs\<close>): access to the configuration space, the scan of all buses, the list of
  devices as text and the self test. The hardware behind the two ports is a parameter: \<open>rd a h\<close> is
  the word that a read at configuration address \<open>a\<close> gives in hardware state \<open>h\<close>, \<open>wr a v h\<close> the
  state after a write. Reads do not change the hardware. The messages to the serial port are left
  out.
\<close>

unbundle bit_operations_syntax

type_synonym 'h cfg_read = "u32 \<Rightarrow> 'h \<Rightarrow> u32"
type_synonym 'h cfg_write = "u32 \<Rightarrow> u32 \<Rightarrow> 'h \<Rightarrow> 'h"

section \<open>Configuration space\<close>

definition config_address :: "u8 \<Rightarrow> u8 \<Rightarrow> u8 \<Rightarrow> u8 \<Rightarrow> u32" where
  "config_address bus device fn offset =
     push_bit 31 1 OR push_bit 16 (ucast bus) OR push_bit 11 (ucast (device AND 0x1F)) OR
     push_bit 8 (ucast (fn AND 0x07)) OR ucast (offset AND 0xFC)"

definition pci_read_dword :: "'h cfg_read \<Rightarrow> u8 \<Rightarrow> u8 \<Rightarrow> u8 \<Rightarrow> u8 \<Rightarrow> 'h \<Rightarrow> u32" where
  "pci_read_dword rd bus device fn offset h = rd (config_address bus device fn offset) h"

definition pci_read_word :: "'h cfg_read \<Rightarrow> u8 \<Rightarrow> u8 \<Rightarrow> u8 \<Rightarrow> u8 \<Rightarrow> 'h \<Rightarrow> u16" where
  "pci_read_word rd bus device fn offset h =
     ucast (drop_bit (unat ((offset AND 2) * 8)) (pci_read_dword rd bus device fn (offset AND 0xFC) h) AND 0xFFFF)"

definition pci_read_byte :: "'h cfg_read \<Rightarrow> u8 \<Rightarrow> u8 \<Rightarrow> u8 \<Rightarrow> u8 \<Rightarrow> 'h \<Rightarrow> u8" where
  "pci_read_byte rd bus device fn offset h =
     ucast (drop_bit (unat ((offset AND 3) * 8)) (pci_read_dword rd bus device fn (offset AND 0xFC) h) AND 0xFF)"

definition pci_write_dword :: "'h cfg_write \<Rightarrow> u8 \<Rightarrow> u8 \<Rightarrow> u8 \<Rightarrow> u8 \<Rightarrow> u32 \<Rightarrow> 'h \<Rightarrow> 'h" where
  "pci_write_dword wr bus device fn offset v h = wr (config_address bus device fn offset) v h"

section \<open>Devices\<close>

record pci_device_info =
  pci_bus :: u8
  pci_device :: u8
  pci_function :: u8
  vendor_id :: u16
  device_id :: u16
  class_code :: u8
  sub_class :: u8
  prog_if :: u8
  revision :: u8
  header_type :: u8

definition from_address :: "'h cfg_read \<Rightarrow> u8 \<Rightarrow> u8 \<Rightarrow> u8 \<Rightarrow> 'h \<Rightarrow> pci_device_info option" where
  "from_address rd bus device fn h =
     (if pci_read_word rd bus device fn 0x00 h = 0xFFFF then None
      else Some
        \<lparr>pci_bus = bus, pci_device = device, pci_function = fn, vendor_id = pci_read_word rd bus device fn 0x00 h,
         device_id = pci_read_word rd bus device fn 0x02 h, class_code = pci_read_byte rd bus device fn 0x0B h,
         sub_class = pci_read_byte rd bus device fn 0x0A h, prog_if = pci_read_byte rd bus device fn 0x09 h,
         revision = pci_read_byte rd bus device fn 0x08 h,
         header_type = pci_read_byte rd bus device fn 0x0E h AND 0x7F\<rparr>)"

record 'h pci_state =
  PCI_HW :: 'h
  PCI_DEVICES :: "pci_device_info list"
  PCI_SCANNED :: bool

definition pci_statics :: "'h \<Rightarrow> 'h pci_state" where
  "pci_statics h = \<lparr>PCI_HW = h, PCI_DEVICES = [], PCI_SCANNED = False\<rparr>"

section \<open>The scan\<close>

text \<open>The largest function number that is tried for a device.\<close>

definition func_mask :: "'h cfg_read \<Rightarrow> u8 \<Rightarrow> u8 \<Rightarrow> 'h \<Rightarrow> nat" where
  "func_mask rd bus device h = (if pci_read_byte rd bus device 0 0x0E h AND 0x80 \<noteq> 0 then 7 else 1)"

definition scan_device :: "'h cfg_read \<Rightarrow> u8 \<Rightarrow> u8 \<Rightarrow> 'h \<Rightarrow> pci_device_info list" where
  "scan_device rd bus device h =
     List.map_filter (\<lambda>fn. from_address rd bus device (of_nat fn) h) [0..<Suc (func_mask rd bus device h)]"

definition scan_all :: "'h cfg_read \<Rightarrow> 'h \<Rightarrow> pci_device_info list" where
  "scan_all rd h =
     concat (map (\<lambda>(bus, device). scan_device rd (of_nat bus) (of_nat device) h)
       (List.product [0..<256] [0..<32]))"

definition enumerate_pci :: "'h cfg_read \<Rightarrow> 'h pci_state \<Rightarrow> 'h pci_state" where
  "enumerate_pci rd s =
     (if PCI_SCANNED s then s
      else s\<lparr>PCI_SCANNED := True, PCI_DEVICES := scan_all rd (PCI_HW s)\<rparr>)"

definition device_list :: "'h pci_state \<Rightarrow> pci_device_info list" where
  "device_list s = PCI_DEVICES s"

section \<open>The list as text\<close>

definition hex_digit :: "nat \<Rightarrow> u8" where
  "hex_digit d = (if d < 10 then of_nat (0x30 + d) else of_nat (0x57 + d))"

fun hex :: "nat \<Rightarrow> u8 list" where
  "hex n = (if n < 16 then [hex_digit n] else hex (n div 16) @ [hex_digit (n mod 16)])"

declare hex.simps [simp del]

text \<open>At least \<open>w\<close> digits, as \<^verbatim>\<open>{:02x}\<close> and \<^verbatim>\<open>{:04x}\<close> give.\<close>

definition hex_pad :: "nat \<Rightarrow> nat \<Rightarrow> u8 list" where
  "hex_pad w n = (let d = hex n in replicate (w - length d) 0x30 @ d)"

definition bytes_of_string :: "string \<Rightarrow> u8 list" where
  "bytes_of_string = map of_char"

definition fmt_device :: "pci_device_info \<Rightarrow> u8 list" where
  "fmt_device d =
     hex_pad 2 (unat (pci_bus d)) @ bytes_of_string '':'' @ hex_pad 2 (unat (pci_device d)) @
     bytes_of_string ''.'' @ hex (unat (pci_function d)) @ bytes_of_string ''  '' @
     hex_pad 4 (unat (vendor_id d)) @ bytes_of_string '':'' @ hex_pad 4 (unat (device_id d)) @
     bytes_of_string ''  class='' @ hex_pad 2 (unat (class_code d)) @ hex_pad 2 (unat (sub_class d)) @
     hex_pad 2 (unat (prog_if d)) @ bytes_of_string ''  rev='' @ hex_pad 2 (unat (revision d))"

definition pci_report :: "pci_device_info list \<Rightarrow> u8 list" where
  "pci_report devices =
     bytes_of_string ''PCI devices:'' @ [0x0A] @
     (if devices = [] then bytes_of_string ''  (none)'' @ [0x0A]
      else concat (map (\<lambda>d. bytes_of_string ''  '' @ fmt_device d @ [0x0A]) devices))"

section \<open>The self test\<close>

definition device_failures :: "pci_device_info \<Rightarrow> nat" where
  "device_failures d =
     (if vendor_id d = 0xFFFF then 1 else 0) + (if device_id d = 0xFFFF then 1 else 0) +
     (if class_code d = 0xFF \<or> class_code d = 0xFE then 1 else 0)"

definition header_failures :: "'h cfg_read \<Rightarrow> 'h \<Rightarrow> pci_device_info \<Rightarrow> nat" where
  "header_failures rd h d =
     (if pci_read_byte rd (pci_bus d) (pci_device d) (pci_function d) 0x0E h AND 0x7F \<noteq> header_type d then 1 else 0)"

definition manual_read_failures :: "'h cfg_read \<Rightarrow> 'h \<Rightarrow> pci_device_info \<Rightarrow> nat" where
  "manual_read_failures rd h d =
     (let bus = pci_bus d; device = pci_device d; fn = pci_function d
      in if pci_read_word rd bus device fn 0x00 h \<noteq> vendor_id d \<or> pci_read_word rd bus device fn 0x02 h \<noteq> device_id d \<or>
            pci_read_byte rd bus device fn 0x0B h \<noteq> class_code d then 1 else 0)"

definition bar_failures :: "'h cfg_read \<Rightarrow> 'h cfg_write \<Rightarrow> pci_device_info \<Rightarrow> 'h \<Rightarrow> nat \<times> 'h" where
  "bar_failures rd wr d h =
     (if class_code d \<noteq> 0x06 \<and> class_code d \<noteq> 0x04 then
        let bus = pci_bus d; device = pci_device d; fn = pci_function d;
            original = pci_read_dword rd bus device fn 0x10 h;
            h1 = pci_write_dword wr bus device fn 0x10 0xFFFFFFFF h;
            sized = pci_read_dword rd bus device fn 0x10 h1;
            h2 = pci_write_dword wr bus device fn 0x10 original h1
        in (if sized = 0 \<or> sized = 0xFFFFFFFF then 1 else 0, h2)
      else (0, h))"

definition pci_self_test :: "'h cfg_read \<Rightarrow> 'h cfg_write \<Rightarrow> 'h pci_state \<Rightarrow> nat \<times> 'h pci_state" where
  "pci_self_test rd wr s =
     (let s1 = enumerate_pci rd s; devices = device_list s1; h = PCI_HW s1;
          n = (if devices = [] then 1 else 0) + sum_list (map device_failures devices) +
              sum_list (map (header_failures rd h) devices)
      in case devices of
           [] \<Rightarrow> (n, s1)
         | d # _ \<Rightarrow>
             (case bar_failures rd wr d h of
                (k, h') \<Rightarrow> (n + manual_read_failures rd h d + k, s1\<lparr>PCI_HW := h'\<rparr>)))"

section \<open>What the scan finds\<close>

lemma set_map_filter: "set (List.map_filter f xs) = {y. \<exists>x\<in>set xs. f x = Some y}"
  by (induction xs) (auto simp: List.map_filter_simps split: option.splits)

lemma from_address_at:
  "from_address rd bus device fn h = Some d \<Longrightarrow> pci_bus d = bus \<and> pci_device d = device \<and> pci_function d = fn"
  by (auto simp: from_address_def split: if_splits)

definition pci_addr :: "pci_device_info \<Rightarrow> u8 \<times> u8 \<times> u8" where
  "pci_addr d = (pci_bus d, pci_device d, pci_function d)"

lemma distinct_map_filter:
  assumes "distinct xs" "\<And>x y d e. x \<in> set xs \<Longrightarrow> y \<in> set xs \<Longrightarrow> f x = Some d \<Longrightarrow> f y = Some e \<Longrightarrow> g d = g e \<Longrightarrow> x = y"
  shows "distinct (map g (List.map_filter f xs))"
  using assms
proof (induction xs)
  case (Cons x xs)
  have IH: "distinct (map g (List.map_filter f xs))"
    by (rule Cons.IH) (use Cons.prems in auto)
  show ?case
  proof (cases "f x")
    case (Some d)
    have "g d \<notin> g ` set (List.map_filter f xs)"
    proof
      assume "g d \<in> g ` set (List.map_filter f xs)"
      then obtain y e where "y \<in> set xs" "f y = Some e" "g d = g e" by (auto simp: set_map_filter)
      then have "x = y" using Cons.prems(2) [of x y d e] Some by simp
      then show False using \<open>y \<in> set xs\<close> Cons.prems(1) by simp
    qed
    then show ?thesis using Some IH by (simp add: List.map_filter_simps)
  qed (simp add: List.map_filter_simps IH)
qed simp

lemma func_mask_le: "func_mask rd bus device h \<le> 7"
  by (simp add: func_mask_def)

lemma of_nat_u8_inj: "m < 256 \<Longrightarrow> n < 256 \<Longrightarrow> (of_nat m :: u8) = of_nat n \<Longrightarrow> m = n"
  by (drule arg_cong [where f = unat]) (simp add: unat_of_nat)

lemma set_scan_device:
  "d \<in> set (scan_device rd bus device h) \<longleftrightarrow>
     (\<exists>fn. unat fn \<le> func_mask rd bus device h \<and> from_address rd bus device fn h = Some d)"
proof
  assume "d \<in> set (scan_device rd bus device h)"
  then obtain n where n: "n \<le> func_mask rd bus device h" "from_address rd bus device (of_nat n) h = Some d"
    by (auto simp: scan_device_def set_map_filter less_Suc_eq_le simp del: upt_Suc)
  then have "unat (of_nat n :: u8) \<le> func_mask rd bus device h"
    using func_mask_le [of rd bus device h] by (simp add: unat_of_nat)
  then show "\<exists>fn. unat fn \<le> func_mask rd bus device h \<and> from_address rd bus device fn h = Some d"
    using n by blast
next
  assume "\<exists>fn. unat fn \<le> func_mask rd bus device h \<and> from_address rd bus device fn h = Some d"
  then obtain fn where fn: "unat fn \<le> func_mask rd bus device h" "from_address rd bus device fn h = Some d" by blast
  then show "d \<in> set (scan_device rd bus device h)"
    by (auto simp: scan_device_def set_map_filter less_Suc_eq_le simp del: upt_Suc intro!: bexI [of _ "unat fn"])
qed

lemma distinct_scan_device: "distinct (map pci_addr (scan_device rd bus device h))"
  unfolding scan_device_def
proof (rule distinct_map_filter)
  fix x y d e
  assume "x \<in> set [0..<Suc (func_mask rd bus device h)]" "y \<in> set [0..<Suc (func_mask rd bus device h)]"
    and d: "from_address rd bus device (of_nat x) h = Some d" "from_address rd bus device (of_nat y) h = Some e"
    and "pci_addr d = pci_addr e"
  then have "(of_nat x :: u8) = of_nat y" "x \<le> 7" "y \<le> 7"
    using from_address_at [OF d(1)] from_address_at [OF d(2)] func_mask_le [of rd bus device h]
    by (auto simp: pci_addr_def simp del: upt_Suc)
  then show "x = y" using of_nat_u8_inj [of x y] by simp
qed simp

lemma scan_device_at: "d \<in> set (scan_device rd bus device h) \<Longrightarrow> pci_bus d = bus \<and> pci_device d = device"
  using from_address_at by (fastforce simp: set_scan_device)

lemma distinct_map_concat:
  assumes "distinct ks" "\<And>k. k \<in> set ks \<Longrightarrow> distinct (map g (f k))"
    and "\<And>k l x y. k \<in> set ks \<Longrightarrow> l \<in> set ks \<Longrightarrow> x \<in> set (f k) \<Longrightarrow> y \<in> set (f l) \<Longrightarrow> g x = g y \<Longrightarrow> k = l"
  shows "distinct (map g (concat (map f ks)))"
  using assms
proof (induction ks)
  case (Cons k ks)
  have "distinct (map g (concat (map f ks)))"
    by (rule Cons.IH) (use Cons.prems in auto)
  moreover have "g ` set (f k) \<inter> g ` set (concat (map f ks)) = {}"
  proof (rule ccontr)
    assume "g ` set (f k) \<inter> g ` set (concat (map f ks)) \<noteq> {}"
    then obtain x y l where "x \<in> set (f k)" "l \<in> set ks" "y \<in> set (f l)" "g x = g y" by auto
    then have "k = l" using Cons.prems(3) [of k l x y] by simp
    then show False using \<open>l \<in> set ks\<close> Cons.prems(1) by simp
  qed
  ultimately show ?case using Cons.prems(2) [of k] by (simp add: image_Un)
qed simp

lemma set_scan_all:
  "d \<in> set (scan_all rd h) \<longleftrightarrow> (\<exists>bus device. device < 32 \<and> d \<in> set (scan_device rd bus device h))"
proof -
  have "(\<exists>m<256. \<exists>n<32. d \<in> set (scan_device rd (of_nat m) (of_nat n) h)) \<longleftrightarrow>
    (\<exists>bus device. device < 32 \<and> d \<in> set (scan_device rd bus device h))" (is "?l = ?r")
  proof
    assume ?l
    then obtain m n where "n < 32" "d \<in> set (scan_device rd (of_nat m) (of_nat n) h)" by blast
    moreover have "(of_nat n :: u8) < 32" using \<open>n < 32\<close> by (simp add: word_less_nat_alt unat_of_nat)
    ultimately show ?r by blast
  next
    assume ?r
    then obtain bus device where bd: "device < 32" "d \<in> set (scan_device rd bus device h)" by blast
    have "unat bus < 256" using unsigned_less [of bus] by simp
    moreover have "unat device < 32" using bd(1) by (simp add: word_less_nat_alt)
    moreover have "d \<in> set (scan_device rd (of_nat (unat bus)) (of_nat (unat device)) h)" using bd(2) by simp
    ultimately show ?l by blast
  qed
  moreover have "d \<in> set (scan_all rd h) \<longleftrightarrow> (\<exists>m<256. \<exists>n<32. d \<in> set (scan_device rd (of_nat m) (of_nat n) h))"
    by (auto simp: scan_all_def Bex_def)
  ultimately show ?thesis by simp
qed

lemma distinct_scan_all: "distinct (map pci_addr (scan_all rd h))"
  unfolding scan_all_def
proof (rule distinct_map_concat)
  show "distinct (List.product [0..<256] [0..<32])" by (simp add: distinct_product)
  fix k show "distinct (map pci_addr (case k of (bus, device) \<Rightarrow> scan_device rd (of_nat bus) (of_nat device) h))"
    by (simp add: split_beta distinct_scan_device)
next
  fix k l :: "nat \<times> nat" and x y
  assume k: "k \<in> set (List.product [0..<256] [0..<32])" "l \<in> set (List.product [0..<256] [0..<32])"
    and "x \<in> set (case k of (bus, device) \<Rightarrow> scan_device rd (of_nat bus) (of_nat device) h)"
    and "y \<in> set (case l of (bus, device) \<Rightarrow> scan_device rd (of_nat bus) (of_nat device) h)"
    and "pci_addr x = pci_addr y"
  then have "(of_nat (fst k) :: u8) = of_nat (fst l)" "(of_nat (snd k) :: u8) = of_nat (snd l)"
    using scan_device_at [of x rd "of_nat (fst k)" "of_nat (snd k)" h]
      scan_device_at [of y rd "of_nat (fst l)" "of_nat (snd l)" h]
    by (auto simp: split_beta pci_addr_def)
  then have "fst k = fst l" "snd k = snd l" using k of_nat_u8_inj by auto
  then show "k = l" by (simp add: prod_eq_iff)
qed


text \<open>A bus with one device, at bus 0 and device 3, that answers at function 0 only.\<close>

definition pci_example :: "u32 \<Rightarrow> unit \<Rightarrow> u32" where
  "pci_example a h =
     (if a AND NOT 0xFF = config_address 0 3 0 0 then (if a AND 0xFF = 0 then 0x12348086 else 0) else 0xFFFFFFFF)"


end
