(* ===== verification/Dispatch.thy ===== *)
theory Dispatch
  imports VmRegions SysIo SysVfs SysProcess SysMisc Console Pci Bench
begin

text \<open>
  The entry of the system calls: the numbers and their names (\<^verbatim>\<open>syscall/nr.rs\<close>), the choice of the
  handler (\<^verbatim>\<open>syscall/dispatch.rs\<close>), the PCI calls (\<^verbatim>\<open>syscall/pci.rs\<close>) and \<^verbatim>\<open>syscall_dispatch\<close>
  (\<^verbatim>\<open>syscall/mod.rs\<close>). The machine puts the state of the kernel beside that of the console, the boot
  times and the PCI bus. The register pushes of the assembly entry are not modelled, nor is the
  message about an unknown number.
\<close>

section \<open>Numbers\<close>

abbreviation (input) NR_READ :: u64 where "NR_READ \<equiv> 0"
abbreviation (input) NR_WRITE :: u64 where "NR_WRITE \<equiv> 1"
abbreviation (input) NR_OPEN :: u64 where "NR_OPEN \<equiv> 2"
abbreviation (input) NR_CLOSE :: u64 where "NR_CLOSE \<equiv> 3"
abbreviation (input) NR_FSTAT :: u64 where "NR_FSTAT \<equiv> 5"
abbreviation (input) NR_LSEEK :: u64 where "NR_LSEEK \<equiv> 8"
abbreviation (input) NR_MMAP :: u64 where "NR_MMAP \<equiv> 9"
abbreviation (input) NR_MPROTECT :: u64 where "NR_MPROTECT \<equiv> 10"
abbreviation (input) NR_MUNMAP :: u64 where "NR_MUNMAP \<equiv> 11"
abbreviation (input) NR_BRK :: u64 where "NR_BRK \<equiv> 12"
abbreviation (input) NR_RT_SIGACTION :: u64 where "NR_RT_SIGACTION \<equiv> 13"
abbreviation (input) NR_RT_SIGPROCMASK :: u64 where "NR_RT_SIGPROCMASK \<equiv> 14"
abbreviation (input) NR_RT_SIGRETURN :: u64 where "NR_RT_SIGRETURN \<equiv> 15"
abbreviation (input) NR_IOCTL :: u64 where "NR_IOCTL \<equiv> 16"
abbreviation (input) NR_PREAD64 :: u64 where "NR_PREAD64 \<equiv> 17"
abbreviation (input) NR_PWRITE64 :: u64 where "NR_PWRITE64 \<equiv> 18"
abbreviation (input) NR_READV :: u64 where "NR_READV \<equiv> 19"
abbreviation (input) NR_WRITEV :: u64 where "NR_WRITEV \<equiv> 20"
abbreviation (input) NR_PIPE :: u64 where "NR_PIPE \<equiv> 22"
abbreviation (input) NR_DUP :: u64 where "NR_DUP \<equiv> 32"
abbreviation (input) NR_NANOSLEEP :: u64 where "NR_NANOSLEEP \<equiv> 35"
abbreviation (input) NR_GETPID :: u64 where "NR_GETPID \<equiv> 39"
abbreviation (input) NR_SENDFILE :: u64 where "NR_SENDFILE \<equiv> 40"
abbreviation (input) NR_SOCKET :: u64 where "NR_SOCKET \<equiv> 41"
abbreviation (input) NR_CONNECT :: u64 where "NR_CONNECT \<equiv> 42"
abbreviation (input) NR_ACCEPT :: u64 where "NR_ACCEPT \<equiv> 43"
abbreviation (input) NR_SENDTO :: u64 where "NR_SENDTO \<equiv> 44"
abbreviation (input) NR_RECVFROM :: u64 where "NR_RECVFROM \<equiv> 45"
abbreviation (input) NR_SHUTDOWN :: u64 where "NR_SHUTDOWN \<equiv> 48"
abbreviation (input) NR_BIND :: u64 where "NR_BIND \<equiv> 49"
abbreviation (input) NR_LISTEN :: u64 where "NR_LISTEN \<equiv> 50"
abbreviation (input) NR_GETSOCKNAME :: u64 where "NR_GETSOCKNAME \<equiv> 51"
abbreviation (input) NR_GETPEERNAME :: u64 where "NR_GETPEERNAME \<equiv> 52"
abbreviation (input) NR_SOCKETPAIR :: u64 where "NR_SOCKETPAIR \<equiv> 53"
abbreviation (input) NR_SETSOCKOPT :: u64 where "NR_SETSOCKOPT \<equiv> 54"
abbreviation (input) NR_GETSOCKOPT :: u64 where "NR_GETSOCKOPT \<equiv> 55"
abbreviation (input) NR_CLONE :: u64 where "NR_CLONE \<equiv> 56"
abbreviation (input) NR_FORK :: u64 where "NR_FORK \<equiv> 57"
abbreviation (input) NR_EXEC :: u64 where "NR_EXEC \<equiv> 59"
abbreviation (input) NR_EXIT :: u64 where "NR_EXIT \<equiv> 60"
abbreviation (input) NR_WAITPID :: u64 where "NR_WAITPID \<equiv> 61"
abbreviation (input) NR_KILL :: u64 where "NR_KILL \<equiv> 62"
abbreviation (input) NR_UNAME :: u64 where "NR_UNAME \<equiv> 63"
abbreviation (input) NR_FCNTL :: u64 where "NR_FCNTL \<equiv> 72"
abbreviation (input) NR_TRUNCATE :: u64 where "NR_TRUNCATE \<equiv> 76"
abbreviation (input) NR_FTRUNCATE :: u64 where "NR_FTRUNCATE \<equiv> 77"
abbreviation (input) NR_GETCWD :: u64 where "NR_GETCWD \<equiv> 79"
abbreviation (input) NR_CHDIR :: u64 where "NR_CHDIR \<equiv> 80"
abbreviation (input) NR_READLINK :: u64 where "NR_READLINK \<equiv> 89"
abbreviation (input) NR_UMASK :: u64 where "NR_UMASK \<equiv> 95"
abbreviation (input) NR_GETTIMEOFDAY :: u64 where "NR_GETTIMEOFDAY \<equiv> 96"
abbreviation (input) NR_GETRLIMIT :: u64 where "NR_GETRLIMIT \<equiv> 97"
abbreviation (input) NR_SYSINFO :: u64 where "NR_SYSINFO \<equiv> 99"
abbreviation (input) NR_GETUID :: u64 where "NR_GETUID \<equiv> 102"
abbreviation (input) NR_GETGID :: u64 where "NR_GETGID \<equiv> 104"
abbreviation (input) NR_SETUID :: u64 where "NR_SETUID \<equiv> 105"
abbreviation (input) NR_SETGID :: u64 where "NR_SETGID \<equiv> 106"
abbreviation (input) NR_GETEUID :: u64 where "NR_GETEUID \<equiv> 107"
abbreviation (input) NR_GETEGID :: u64 where "NR_GETEGID \<equiv> 108"
abbreviation (input) NR_SETPGID :: u64 where "NR_SETPGID \<equiv> 109"
abbreviation (input) NR_GETPPID :: u64 where "NR_GETPPID \<equiv> 110"
abbreviation (input) NR_GETPGRP :: u64 where "NR_GETPGRP \<equiv> 111"
abbreviation (input) NR_GETRESUID :: u64 where "NR_GETRESUID \<equiv> 118"
abbreviation (input) NR_GETRESGID :: u64 where "NR_GETRESGID \<equiv> 120"
abbreviation (input) NR_GETPGID :: u64 where "NR_GETPGID \<equiv> 121"
abbreviation (input) NR_GETSID :: u64 where "NR_GETSID \<equiv> 124"
abbreviation (input) NR_SIGALTSTACK :: u64 where "NR_SIGALTSTACK \<equiv> 131"
abbreviation (input) NR_ARCH_PRCTL :: u64 where "NR_ARCH_PRCTL \<equiv> 158"
abbreviation (input) NR_SETRLIMIT :: u64 where "NR_SETRLIMIT \<equiv> 160"
abbreviation (input) NR_GETTID :: u64 where "NR_GETTID \<equiv> 186"
abbreviation (input) NR_TKILL :: u64 where "NR_TKILL \<equiv> 200"
abbreviation (input) NR_FUTEX :: u64 where "NR_FUTEX \<equiv> 202"
abbreviation (input) NR_SET_TID_ADDRESS :: u64 where "NR_SET_TID_ADDRESS \<equiv> 218"
abbreviation (input) NR_CLOCK_GETTIME :: u64 where "NR_CLOCK_GETTIME \<equiv> 228"
abbreviation (input) NR_CLOCK_NANOSLEEP :: u64 where "NR_CLOCK_NANOSLEEP \<equiv> 230"
abbreviation (input) NR_EXIT_GROUP :: u64 where "NR_EXIT_GROUP \<equiv> 231"
abbreviation (input) NR_TGKILL :: u64 where "NR_TGKILL \<equiv> 234"
abbreviation (input) NR_OPENAT :: u64 where "NR_OPENAT \<equiv> 257"
abbreviation (input) NR_FSTATAT :: u64 where "NR_FSTATAT \<equiv> 262"
abbreviation (input) NR_UNLINKAT :: u64 where "NR_UNLINKAT \<equiv> 263"
abbreviation (input) NR_READLINKAT :: u64 where "NR_READLINKAT \<equiv> 267"
abbreviation (input) NR_FACCESSAT :: u64 where "NR_FACCESSAT \<equiv> 269"
abbreviation (input) NR_SET_ROBUST_LIST :: u64 where "NR_SET_ROBUST_LIST \<equiv> 273"
abbreviation (input) NR_GET_ROBUST_LIST :: u64 where "NR_GET_ROBUST_LIST \<equiv> 274"
abbreviation (input) NR_ACCEPT4 :: u64 where "NR_ACCEPT4 \<equiv> 288"
abbreviation (input) NR_DUP3 :: u64 where "NR_DUP3 \<equiv> 292"
abbreviation (input) NR_PIPE2 :: u64 where "NR_PIPE2 \<equiv> 293"
abbreviation (input) NR_PREADV :: u64 where "NR_PREADV \<equiv> 295"
abbreviation (input) NR_PWRITEV :: u64 where "NR_PWRITEV \<equiv> 296"
abbreviation (input) NR_PRLIMIT64 :: u64 where "NR_PRLIMIT64 \<equiv> 302"
abbreviation (input) NR_GETRANDOM :: u64 where "NR_GETRANDOM \<equiv> 318"
abbreviation (input) NR_FSIZE :: u64 where "NR_FSIZE \<equiv> 1024"
abbreviation (input) NR_LS :: u64 where "NR_LS \<equiv> 1025"
abbreviation (input) NR_TOUCH :: u64 where "NR_TOUCH \<equiv> 1026"
abbreviation (input) NR_RM :: u64 where "NR_RM \<equiv> 1027"
abbreviation (input) NR_WRITE_FILE :: u64 where "NR_WRITE_FILE \<equiv> 1028"
abbreviation (input) NR_PUSH_FILE :: u64 where "NR_PUSH_FILE \<equiv> 1029"
abbreviation (input) NR_UPTIME_SECONDS :: u64 where "NR_UPTIME_SECONDS \<equiv> 1030"
abbreviation (input) NR_REBOOT :: u64 where "NR_REBOOT \<equiv> 1031"
abbreviation (input) NR_PANIC :: u64 where "NR_PANIC \<equiv> 1032"
abbreviation (input) NR_BOOTTIME :: u64 where "NR_BOOTTIME \<equiv> 1033"
abbreviation (input) NR_CLEAR_TERMINAL :: u64 where "NR_CLEAR_TERMINAL \<equiv> 1034"
abbreviation (input) NR_SLEEP_TICKS :: u64 where "NR_SLEEP_TICKS \<equiv> 1035"
abbreviation (input) NR_SET_FONT_SCALE :: u64 where "NR_SET_FONT_SCALE \<equiv> 1036"
abbreviation (input) NR_FREE_BYTES :: u64 where "NR_FREE_BYTES \<equiv> 1037"
abbreviation (input) NR_TICKS :: u64 where "NR_TICKS \<equiv> 1038"
abbreviation (input) NR_PCI_LIST :: u64 where "NR_PCI_LIST \<equiv> 1067"
abbreviation (input) NR_PCI_TEST :: u64 where "NR_PCI_TEST \<equiv> 1068"

definition ALL_SYSCALLS :: "(u64 \<times> string) list" where
  "ALL_SYSCALLS =
     [(NR_READ, ''read''), (NR_WRITE, ''write''), (NR_OPEN, ''open''), (NR_CLOSE, ''close''),
      (NR_FSTAT, ''fstat''), (NR_LSEEK, ''lseek''), (NR_MMAP, ''mmap''), (NR_MPROTECT, ''mprotect''),
      (NR_MUNMAP, ''munmap''), (NR_BRK, ''brk''), (NR_RT_SIGACTION, ''rt_sigaction''), (NR_RT_SIGPROCMASK, ''rt_sigprocmask''),
      (NR_RT_SIGRETURN, ''rt_sigreturn''), (NR_IOCTL, ''ioctl''), (NR_PREAD64, ''pread64''), (NR_PWRITE64, ''pwrite64''),
      (NR_READV, ''readv''), (NR_WRITEV, ''writev''), (NR_PIPE, ''pipe''), (NR_DUP, ''dup''),
      (NR_NANOSLEEP, ''nanosleep''), (NR_GETPID, ''getpid''), (NR_SENDFILE, ''sendfile''), (NR_SOCKET, ''socket''),
      (NR_CONNECT, ''connect''), (NR_ACCEPT, ''accept''), (NR_SENDTO, ''sendto''), (NR_RECVFROM, ''recvfrom''),
      (NR_SHUTDOWN, ''shutdown''), (NR_BIND, ''bind''), (NR_LISTEN, ''listen''), (NR_GETSOCKNAME, ''getsockname''),
      (NR_GETPEERNAME, ''getpeername''), (NR_SOCKETPAIR, ''socketpair''), (NR_SETSOCKOPT, ''setsockopt''), (NR_GETSOCKOPT, ''getsockopt''),
      (NR_CLONE, ''clone''), (NR_FORK, ''fork''), (NR_EXEC, ''execve''), (NR_EXIT, ''exit''),
      (NR_WAITPID, ''waitpid''), (NR_KILL, ''kill''), (NR_UNAME, ''uname''), (NR_FCNTL, ''fcntl''),
      (NR_TRUNCATE, ''truncate''), (NR_FTRUNCATE, ''ftruncate''), (NR_GETCWD, ''getcwd''), (NR_CHDIR, ''chdir''),
      (NR_READLINK, ''readlink''), (NR_UMASK, ''umask''), (NR_GETTIMEOFDAY, ''gettimeofday''), (NR_GETRLIMIT, ''getrlimit''),
      (NR_SYSINFO, ''sysinfo''), (NR_GETUID, ''getuid''), (NR_GETGID, ''getgid''), (NR_SETUID, ''setuid''),
      (NR_SETGID, ''setgid''), (NR_GETEUID, ''geteuid''), (NR_GETEGID, ''getegid''), (NR_SETPGID, ''setpgid''),
      (NR_GETPPID, ''getppid''), (NR_GETPGRP, ''getpgrp''), (NR_GETRESUID, ''getresuid''), (NR_GETRESGID, ''getresgid''),
      (NR_GETPGID, ''getpgid''), (NR_GETSID, ''getsid''), (NR_SIGALTSTACK, ''sigaltstack''), (NR_ARCH_PRCTL, ''arch_prctl''),
      (NR_SETRLIMIT, ''setrlimit''), (NR_GETTID, ''gettid''), (NR_TKILL, ''tkill''), (NR_FUTEX, ''futex''),
      (NR_SET_TID_ADDRESS, ''set_tid_address''), (NR_CLOCK_GETTIME, ''clock_gettime''), (NR_CLOCK_NANOSLEEP, ''clock_nanosleep''), (NR_EXIT_GROUP, ''exit_group''),
      (NR_TGKILL, ''tgkill''), (NR_OPENAT, ''openat''), (NR_FSTATAT, ''fstatat''), (NR_UNLINKAT, ''unlinkat''),
      (NR_READLINKAT, ''readlinkat''), (NR_FACCESSAT, ''faccessat''), (NR_SET_ROBUST_LIST, ''set_robust_list''), (NR_GET_ROBUST_LIST, ''get_robust_list''),
      (NR_ACCEPT4, ''accept4''), (NR_DUP3, ''dup3''), (NR_PIPE2, ''pipe2''), (NR_PREADV, ''preadv''),
      (NR_PWRITEV, ''pwritev''), (NR_PRLIMIT64, ''prlimit64''), (NR_GETRANDOM, ''getrandom''), (NR_FSIZE, ''fsize''),
      (NR_LS, ''ls''), (NR_TOUCH, ''touch''), (NR_RM, ''rm''), (NR_WRITE_FILE, ''write_file''),
      (NR_PUSH_FILE, ''push_file''), (NR_UPTIME_SECONDS, ''uptime_seconds''), (NR_REBOOT, ''reboot''), (NR_PANIC, ''panic''),
      (NR_BOOTTIME, ''boottime''), (NR_CLEAR_TERMINAL, ''clear_terminal''), (NR_SLEEP_TICKS, ''sleep_ticks''), (NR_SET_FONT_SCALE, ''set_font_scale''),
      (NR_FREE_BYTES, ''free_bytes''), (NR_TICKS, ''ticks''), (NR_PCI_LIST, ''pci_list''), (NR_PCI_TEST, ''pci_test'')]"

definition nr_name :: "u64 \<Rightarrow> string option" where
  "nr_name num =
     (if num = NR_READ then Some ''read''
      else if num = NR_WRITE then Some ''write''
      else if num = NR_OPEN then Some ''open''
      else if num = NR_CLOSE then Some ''close''
      else if num = NR_FSTAT then Some ''fstat''
      else if num = NR_LSEEK then Some ''lseek''
      else if num = NR_MMAP then Some ''mmap''
      else if num = NR_MPROTECT then Some ''mprotect''
      else if num = NR_MUNMAP then Some ''munmap''
      else if num = NR_BRK then Some ''brk''
      else if num = NR_RT_SIGACTION then Some ''rt_sigaction''
      else if num = NR_RT_SIGPROCMASK then Some ''rt_sigprocmask''
      else if num = NR_RT_SIGRETURN then Some ''rt_sigreturn''
      else if num = NR_IOCTL then Some ''ioctl''
      else if num = NR_PREAD64 then Some ''pread64''
      else if num = NR_PWRITE64 then Some ''pwrite64''
      else if num = NR_READV then Some ''readv''
      else if num = NR_WRITEV then Some ''writev''
      else if num = NR_PIPE then Some ''pipe''
      else if num = NR_DUP then Some ''dup''
      else if num = NR_NANOSLEEP then Some ''nanosleep''
      else if num = NR_GETPID then Some ''getpid''
      else if num = NR_SENDFILE then Some ''sendfile''
      else if num = NR_SOCKET then Some ''socket''
      else if num = NR_CONNECT then Some ''connect''
      else if num = NR_ACCEPT then Some ''accept''
      else if num = NR_SENDTO then Some ''sendto''
      else if num = NR_RECVFROM then Some ''recvfrom''
      else if num = NR_SHUTDOWN then Some ''shutdown''
      else if num = NR_BIND then Some ''bind''
      else if num = NR_LISTEN then Some ''listen''
      else if num = NR_GETSOCKNAME then Some ''getsockname''
      else if num = NR_GETPEERNAME then Some ''getpeername''
      else if num = NR_SOCKETPAIR then Some ''socketpair''
      else if num = NR_SETSOCKOPT then Some ''setsockopt''
      else if num = NR_GETSOCKOPT then Some ''getsockopt''
      else if num = NR_CLONE then Some ''clone''
      else if num = NR_FORK then Some ''fork''
      else if num = NR_EXEC then Some ''execve''
      else if num = NR_EXIT then Some ''exit''
      else if num = NR_WAITPID then Some ''waitpid''
      else if num = NR_KILL then Some ''kill''
      else if num = NR_UNAME then Some ''uname''
      else if num = NR_FCNTL then Some ''fcntl''
      else if num = NR_TRUNCATE then Some ''truncate''
      else if num = NR_FTRUNCATE then Some ''ftruncate''
      else if num = NR_GETCWD then Some ''getcwd''
      else if num = NR_CHDIR then Some ''chdir''
      else if num = NR_READLINK then Some ''readlink''
      else if num = NR_UMASK then Some ''umask''
      else if num = NR_GETTIMEOFDAY then Some ''gettimeofday''
      else if num = NR_GETRLIMIT then Some ''getrlimit''
      else if num = NR_SYSINFO then Some ''sysinfo''
      else if num = NR_GETUID then Some ''getuid''
      else if num = NR_GETGID then Some ''getgid''
      else if num = NR_SETUID then Some ''setuid''
      else if num = NR_SETGID then Some ''setgid''
      else if num = NR_GETEUID then Some ''geteuid''
      else if num = NR_GETEGID then Some ''getegid''
      else if num = NR_SETPGID then Some ''setpgid''
      else if num = NR_GETPPID then Some ''getppid''
      else if num = NR_GETPGRP then Some ''getpgrp''
      else if num = NR_GETRESUID then Some ''getresuid''
      else if num = NR_GETRESGID then Some ''getresgid''
      else if num = NR_GETPGID then Some ''getpgid''
      else if num = NR_GETSID then Some ''getsid''
      else if num = NR_SIGALTSTACK then Some ''sigaltstack''
      else if num = NR_ARCH_PRCTL then Some ''arch_prctl''
      else if num = NR_SETRLIMIT then Some ''setrlimit''
      else if num = NR_GETTID then Some ''gettid''
      else if num = NR_TKILL then Some ''tkill''
      else if num = NR_FUTEX then Some ''futex''
      else if num = NR_SET_TID_ADDRESS then Some ''set_tid_address''
      else if num = NR_CLOCK_GETTIME then Some ''clock_gettime''
      else if num = NR_CLOCK_NANOSLEEP then Some ''clock_nanosleep''
      else if num = NR_EXIT_GROUP then Some ''exit_group''
      else if num = NR_TGKILL then Some ''tgkill''
      else if num = NR_OPENAT then Some ''openat''
      else if num = NR_FSTATAT then Some ''fstatat''
      else if num = NR_UNLINKAT then Some ''unlinkat''
      else if num = NR_READLINKAT then Some ''readlinkat''
      else if num = NR_FACCESSAT then Some ''faccessat''
      else if num = NR_SET_ROBUST_LIST then Some ''set_robust_list''
      else if num = NR_GET_ROBUST_LIST then Some ''get_robust_list''
      else if num = NR_ACCEPT4 then Some ''accept4''
      else if num = NR_DUP3 then Some ''dup3''
      else if num = NR_PIPE2 then Some ''pipe2''
      else if num = NR_PREADV then Some ''preadv''
      else if num = NR_PWRITEV then Some ''pwritev''
      else if num = NR_PRLIMIT64 then Some ''prlimit64''
      else if num = NR_GETRANDOM then Some ''getrandom''
      else if num = NR_FSIZE then Some ''fsize''
      else if num = NR_LS then Some ''ls''
      else if num = NR_TOUCH then Some ''touch''
      else if num = NR_RM then Some ''rm''
      else if num = NR_WRITE_FILE then Some ''write_file''
      else if num = NR_PUSH_FILE then Some ''push_file''
      else if num = NR_UPTIME_SECONDS then Some ''uptime_seconds''
      else if num = NR_REBOOT then Some ''reboot''
      else if num = NR_PANIC then Some ''panic''
      else if num = NR_BOOTTIME then Some ''boottime''
      else if num = NR_CLEAR_TERMINAL then Some ''clear_terminal''
      else if num = NR_SLEEP_TICKS then Some ''sleep_ticks''
      else if num = NR_SET_FONT_SCALE then Some ''set_font_scale''
      else if num = NR_FREE_BYTES then Some ''free_bytes''
      else if num = NR_TICKS then Some ''ticks''
      else if num = NR_PCI_LIST then Some ''pci_list''
      else if num = NR_PCI_TEST then Some ''pci_test''
      else None)"

section \<open>The machine\<close>

record 'h machine =
  m_kernel :: kernel
  m_console :: console
  m_bench :: bench
  m_pci :: "'h pci_state"

text \<open>
  A handler runs on the kernel; what it sent to the terminal is then drawn on the console. No
  handler both writes to the terminal and reads the console.
\<close>

definition put_kernel :: "kernel \<Rightarrow> 'h machine \<Rightarrow> 'h machine" where
  "put_kernel k m =
     m\<lparr>m_kernel := k,
       m_console := fold write_byte_to_fb (drop (length (tty_out (TTY0 (m_kernel m)))) (tty_out (TTY0 k))) (m_console m)\<rparr>"

definition on_kernel :: "(kernel \<Rightarrow> (kernel, 'a) outcome) \<Rightarrow> 'h machine \<Rightarrow> ('h machine, 'a) outcome" where
  "on_kernel f m =
     (case f (m_kernel m) of
        Done r k \<Rightarrow> Done r (put_kernel k m)
      | Panicked \<Rightarrow> Panicked
      | Faulted k \<Rightarrow> Faulted (put_kernel k m)
      | Waiting k \<Rightarrow> Waiting (put_kernel k m))"

section \<open>PCI calls\<close>

definition pci_list_impl :: "pci_device_info list \<Rightarrow> u64 \<Rightarrow> u64 \<Rightarrow> u64 syscall" where
  "pci_list_impl devices buf_ptr buf_len =
     (let bytes = pci_report devices; count = min (unat buf_len) (length bytes) in
      sys_seq (sys_await_test (copy_to_user buf_ptr (take count bytes)) Fault) (\<lambda>_.
        sys_ok (of_nat count)))"

definition pci_list :: "'h cfg_read \<Rightarrow> u64 \<Rightarrow> u64 \<Rightarrow> 'h machine \<Rightarrow> ('h machine, u64) outcome" where
  "pci_list rd buf_ptr buf_len m =
     (let m1 = m\<lparr>m_pci := enumerate_pci rd (m_pci m)\<rparr>
      in on_kernel (sys_done (pci_list_impl (device_list (m_pci m1)) buf_ptr buf_len)) m1)"

definition pci_test :: "'h cfg_read \<Rightarrow> 'h cfg_write \<Rightarrow> 'h machine \<Rightarrow> ('h machine, u64) outcome" where
  "pci_test rd wr m =
     (case pci_self_test rd wr (m_pci m) of
        (failures, p) \<Rightarrow> Done (of_nat failures) (m\<lparr>m_pci := p\<rparr>))"

section \<open>The handlers\<close>

text \<open>A reboot waits for the reset that it asks for.\<close>

definition route ::
  "'h cfg_read \<Rightarrow> 'h cfg_write \<Rightarrow> u64 \<Rightarrow> u64 \<Rightarrow> u64 \<Rightarrow> u64 \<Rightarrow> u64 \<Rightarrow> u64 \<Rightarrow> u64 \<Rightarrow> u64 \<Rightarrow>
   'h machine \<Rightarrow> ('h machine, u64) outcome" where
  "route rd wr num a1 a2 a3 a4 a5 a6 frame m =
     (if num = NR_READ then on_kernel (io_read a1 a2 a3) m
      else if num = NR_WRITE then on_kernel (io_write a1 a2 a3) m
      else if num = NR_OPEN then on_kernel (vfs_open a1 a2 a3) m
      else if num = NR_CLOSE then on_kernel (syscall_close a1) m
      else if num = NR_FSTAT then on_kernel (vfs_fstat a1 a2) m
      else if num = NR_LSEEK then on_kernel (vfs_lseek a1 a2 a3) m
      else if num = NR_MMAP then on_kernel (sys_mmap a1 a2 a3 a4 a5 a6) m
      else if num = NR_MPROTECT then on_kernel (sys_mprotect a1 a2 a3) m
      else if num = NR_MUNMAP then on_kernel (sys_munmap a1 a2) m
      else if num = NR_BRK then on_kernel (sys_brk a1) m
      else if num = NR_RT_SIGACTION then on_kernel (syscall_rt_sigaction a1 a2 a3 a4) m
      else if num = NR_RT_SIGPROCMASK then on_kernel (syscall_rt_sigprocmask a1 a2 a3 a4) m
      else if num = NR_RT_SIGRETURN then on_kernel (syscall_rt_sigreturn frame) m
      else if num = NR_IOCTL then on_kernel (io_ioctl (tty_winsize (m_console m)) a1 a2 a3) m
      else if num = NR_PREAD64 then on_kernel (io_pread64 a1 a2 a3 a4) m
      else if num = NR_PWRITE64 then on_kernel (io_pwrite64 a1 a2 a3 a4) m
      else if num = NR_READV then on_kernel (io_readv a1 a2 a3) m
      else if num = NR_WRITEV then on_kernel (io_writev a1 a2 a3) m
      else if num = NR_PIPE then on_kernel (syscall_pipe a1) m
      else if num = NR_DUP then on_kernel (syscall_dup a1) m
      else if num = NR_NANOSLEEP then on_kernel (time_nanosleep a1 a2) m
      else if num = NR_GETPID then on_kernel syscall_getpid m
      else if num = NR_SENDFILE then on_kernel (io_sendfile a1 a2 a3 a4) m
      else if num = NR_SOCKET then Done (syscall_socket (ucast a1) (ucast a2) (ucast a3)) m
      else if num = NR_CONNECT then Done (syscall_connect (ucast a1) a2 (ucast a3)) m
      else if num = NR_ACCEPT then Done (syscall_accept (ucast a1) a2 a3) m
      else if num = NR_SENDTO then Done (syscall_sendto (ucast a1) a2 a3 (ucast a4) 0 0) m
      else if num = NR_RECVFROM then Done (syscall_recvfrom (ucast a1) a2 a3 (ucast a4) 0 0) m
      else if num = NR_SHUTDOWN then Done (syscall_shutdown (ucast a1) (ucast a2)) m
      else if num = NR_BIND then Done (syscall_bind (ucast a1) a2 (ucast a3)) m
      else if num = NR_LISTEN then Done (syscall_listen (ucast a1) (ucast a2)) m
      else if num = NR_GETSOCKNAME then Done (syscall_getsockname (ucast a1) a2 a3) m
      else if num = NR_GETPEERNAME then Done (syscall_getpeername (ucast a1) a2 a3) m
      else if num = NR_SOCKETPAIR then Done (syscall_socketpair (ucast a1) (ucast a2) (ucast a3) a4) m
      else if num = NR_SETSOCKOPT then Done (syscall_setsockopt (ucast a1) (ucast a2) (ucast a3) a4 0) m
      else if num = NR_GETSOCKOPT then Done (syscall_getsockopt (ucast a1) (ucast a2) (ucast a3) a4 0) m
      else if num = NR_CLONE then on_kernel (syscall_clone a1 a2 a3 a4 frame) m
      else if num = NR_FORK then on_kernel (syscall_fork frame) m
      else if num = NR_EXEC then on_kernel (syscall_exec a1) m
      else if num = NR_EXIT then on_kernel (syscall_exit a1) m
      else if num = NR_WAITPID then on_kernel (syscall_waitpid a1) m
      else if num = NR_KILL then on_kernel (syscall_kill a1 a2) m
      else if num = NR_UNAME then on_kernel (syscall_uname a1) m
      else if num = NR_FCNTL then on_kernel (syscall_fcntl a1 a2 a3) m
      else if num = NR_TRUNCATE then on_kernel (vfs_truncate a1 a2) m
      else if num = NR_FTRUNCATE then on_kernel (vfs_ftruncate a1 a2) m
      else if num = NR_GETCWD then on_kernel (syscall_getcwd a1 a2) m
      else if num = NR_CHDIR then on_kernel (syscall_chdir a1) m
      else if num = NR_READLINK then on_kernel (vfs_readlink a1 a2 a3) m
      else if num = NR_UMASK then on_kernel (syscall_umask a1) m
      else if num = NR_GETTIMEOFDAY then on_kernel (time_gettimeofday a1 a2) m
      else if num = NR_GETRLIMIT then on_kernel (syscall_getrlimit (ucast a1) a2) m
      else if num = NR_SYSINFO then on_kernel (syscall_sysinfo a1) m
      else if num = NR_GETUID then on_kernel syscall_getuid m
      else if num = NR_GETGID then on_kernel syscall_getgid m
      else if num = NR_SETUID then on_kernel (syscall_setuid a1) m
      else if num = NR_SETGID then on_kernel (syscall_setgid a1) m
      else if num = NR_GETEUID then on_kernel syscall_geteuid m
      else if num = NR_GETEGID then on_kernel syscall_getegid m
      else if num = NR_SETPGID then on_kernel (syscall_setpgid a1 a2) m
      else if num = NR_GETPPID then on_kernel syscall_getppid m
      else if num = NR_GETPGRP then on_kernel syscall_getpgrp m
      else if num = NR_GETRESUID then on_kernel (syscall_getresuid a1 a2 a3) m
      else if num = NR_GETRESGID then on_kernel (syscall_getresgid a1 a2 a3) m
      else if num = NR_GETPGID then on_kernel (syscall_getpgid a1) m
      else if num = NR_GETSID then on_kernel (syscall_getsid a1) m
      else if num = NR_SIGALTSTACK then on_kernel (syscall_sigaltstack a1 a2) m
      else if num = NR_ARCH_PRCTL then on_kernel (syscall_arch_prctl a1 a2) m
      else if num = NR_SETRLIMIT then on_kernel (syscall_setrlimit (ucast a1) a2) m
      else if num = NR_GETTID then on_kernel syscall_gettid m
      else if num = NR_TKILL then on_kernel (syscall_tkill a1 a2) m
      else if num = NR_FUTEX then on_kernel (syscall_futex a1 a2 a3 a4) m
      else if num = NR_SET_TID_ADDRESS then on_kernel (syscall_set_tid_address a1) m
      else if num = NR_CLOCK_GETTIME then on_kernel (time_clock_gettime a1 a2) m
      else if num = NR_CLOCK_NANOSLEEP then on_kernel (time_clock_nanosleep a1 a2 a3 a4) m
      else if num = NR_EXIT_GROUP then on_kernel (syscall_exit_group a1) m
      else if num = NR_TGKILL then on_kernel (syscall_tgkill a1 a2 a3) m
      else if num = NR_OPENAT then on_kernel (vfs_openat a1 a2 a3 a4) m
      else if num = NR_FSTATAT then on_kernel (vfs_fstatat a1 a2 a3 a4) m
      else if num = NR_UNLINKAT then on_kernel (vfs_unlinkat a1 a2 a3 a4) m
      else if num = NR_READLINKAT then on_kernel (vfs_readlinkat a1 a2 a3 a4) m
      else if num = NR_FACCESSAT then on_kernel (vfs_faccessat a1 a2 a3 a4) m
      else if num = NR_SET_ROBUST_LIST then on_kernel (syscall_set_robust_list a1 a2) m
      else if num = NR_GET_ROBUST_LIST then on_kernel (syscall_get_robust_list a1 a2 a3) m
      else if num = NR_ACCEPT4 then Done (syscall_accept4 (ucast a1) a2 a3 (ucast a4)) m
      else if num = NR_DUP3 then on_kernel (syscall_dup3 a1 a2 a3) m
      else if num = NR_PIPE2 then on_kernel (syscall_pipe2 a1 a2) m
      else if num = NR_PREADV then on_kernel (io_preadv a1 a2 a3 a4) m
      else if num = NR_PWRITEV then on_kernel (io_pwritev a1 a2 a3 a4) m
      else if num = NR_PRLIMIT64 then on_kernel (syscall_prlimit64 (ucast a1) (ucast a2) a3 a4) m
      else if num = NR_GETRANDOM then on_kernel (syscall_getrandom a1 a2 a3) m
      else if num = NR_FSIZE then on_kernel (vfs_fsize a1) m
      else if num = NR_LS then on_kernel (vfs_ls a1 a2) m
      else if num = NR_TOUCH then on_kernel (vfs_touch a1 a2) m
      else if num = NR_RM then on_kernel (vfs_rm a1 a2) m
      else if num = NR_WRITE_FILE then on_kernel (vfs_write_file a1 a2 a3) m
      else if num = NR_PUSH_FILE then on_kernel (vfs_push_file a1 a2 a3) m
      else if num = NR_UPTIME_SECONDS then on_kernel time_uptime_seconds m
      else if num = NR_REBOOT then Waiting m
      else if num = NR_PANIC then Panicked
      else if num = NR_BOOTTIME then on_kernel (time_boottime (utf8 (report (m_bench m))) a1 a2) m
      else if num = NR_CLEAR_TERMINAL then Done 0 (m\<lparr>m_console := set_userspace_cursor 20 120 (clear_terminal_area (m_console m))\<rparr>)
      else if num = NR_SLEEP_TICKS then on_kernel (sleep_ticks a1) m
      else if num = NR_SET_FONT_SCALE then Done 0 (m\<lparr>m_console := set_font_scale a1 (m_console m)\<rparr>)
      else if num = NR_FREE_BYTES then Done (of_nat (free_bytes (m_kernel m))) m
      else if num = NR_TICKS then on_kernel time_ticks m
      else if num = NR_PCI_LIST then pci_list rd a1 a2 m
      else if num = NR_PCI_TEST then pci_test rd wr m
      else Done (errno NoSys) m)"

text \<open>The fifth and sixth argument are the saved registers \<^verbatim>\<open>r8\<close> and \<^verbatim>\<open>r9\<close>.\<close>

definition syscall_dispatch ::
  "'h cfg_read \<Rightarrow> 'h cfg_write \<Rightarrow> u64 \<Rightarrow> u64 \<Rightarrow> u64 \<Rightarrow> u64 \<Rightarrow> u64 \<Rightarrow> u64 \<Rightarrow> 'h machine \<Rightarrow> ('h machine, u64) outcome" where
  "syscall_dispatch rd wr num arg1 arg2 arg3 arg4 frame m =
     (let arg5 = (if frame \<noteq> 0 then frame_get FRAME_R8 frame (m_kernel m) else 0);
          arg6 = (if frame \<noteq> 0 then frame_get FRAME_R9 frame (m_kernel m) else 0)
      in obind (route rd wr num arg1 arg2 arg3 arg4 arg5 arg6 frame m) (\<lambda>ret.
           on_kernel (finish_syscall num frame ret)))"

section \<open>The table\<close>

lemma nr_name_table: "nr_name num = map_of ALL_SYSCALLS num"
  unfolding nr_name_def ALL_SYSCALLS_def map_of.simps fst_conv snd_conv fun_upd_def by (simp only: if_cancel)



end
