(* ===== verification/SysInv.thy ===== *)
theory SysInv
  imports Dispatch
begin

text \<open>
  Every system call keeps the reference counts of open files and pipes exact. The calls that only
  touch memory, files, the terminal, positions and flags are quiet; a contract of the invariants
  that quiet changes keep carries them, once for the invariant itself and once together with the
  fact that a process runs, which opening a file needs.
\<close>

section \<open>Quiet operations\<close>

lemma quiet_fields:
  "quiet s (MEM_update f s)" "quiet s (FILESYSTEM_update g s)" "quiet s (RNG_STATE_update h s)"
  "quiet s (FUTEX_WAITERS_update k s)" "quiet s (FS_BASE_update l s)" "quiet s (IN_SYSCALL_update m s)"
  by (simp_all add: quiet_def same_refs_frame)

lemma quiet_copy_from_user: "quiet_result s (copy_from_user n p s)"
  by (auto simp: copy_from_user_def intro!: quiet_obind quiet_user_load)

lemma quiet_copy_to_user: "quiet_result s (copy_to_user p bs s)"
  by (auto simp: copy_to_user_def intro!: quiet_obind quiet_user_store)

lemma quiet_copy_structs:
  "quiet_result s (copy_struct_from_user n p s)" "quiet_result s (copy_struct_to_user p bs s)"
  by (simp_all add: copy_struct_from_user_def copy_struct_to_user_def quiet_copy_from_user quiet_copy_to_user)

lemma quiet_cstr_loop: "quiet_result s (cstr_loop n p raw s)"
proof (induction n arbitrary: p raw s)
  case (Suc n)
  show ?case
    unfolding cstr_loop.simps
    by (rule quiet_obind [OF quiet_copy_from_user]) (simp add: Suc split: option.split)
qed simp

lemma quiet_copy_cstr: "quiet_result s (copy_cstr_from_user p s)"
  by (simp add: copy_cstr_from_user_def quiet_cstr_loop)

lemma quiet_copy_paths:
  "quiet_result s (copy_path_cstr_from_user p s)" "quiet_result s (copy_path_from_user p n s)"
  by (auto simp: copy_path_cstr_from_user_def copy_path_from_user_def
      intro!: quiet_obind quiet_copy_cstr quiet_copy_from_user)

lemma quiet_copy_iovecs: "quiet_result s (copy_iovecs_from_user p n s)"
  by (auto simp: copy_iovecs_from_user_def Let_def intro!: quiet_obind quiet_copy_from_user)

lemma quiet_payload_args: "quiet_result s (copy_file_payload_args p s)"
  by (auto simp: copy_file_payload_args_def Let_def intro!: quiet_obind quiet_user_load)

lemma quiet_with_filesystem: "quiet s (snd (with_filesystem f s))"
  by (simp add: with_filesystem_def quiet_fields split: prod.split)

lemma quiet_extend: "quiet_result s (extend_from_user op name p n s)"
proof -
  have "quiet_result s (user_load n p (snd (with_filesystem (op []) s)))" for n
    by (rule quiet_result_trans [OF quiet_with_filesystem quiet_user_load])
  from this [of "unat n"] show ?thesis
    by (auto simp: extend_from_user_def quiet_with_filesystem split_beta split: outcome.split)
qed

lemma quiet_ls_put: "quiet_result s (ls_put bs buf n pos s)"
proof (induction bs arbitrary: pos s)
  case (Cons b bs)
  show ?case
    by (simp del: user_store.simps) (intro impI quiet_obind quiet_user_store Cons)
qed simp

lemma quiet_ls_file: "quiet_result s (ls_file buf n f pos s)"
  unfolding ls_file_def by (intro quiet_obind quiet_ls_put)

lemma quiet_ls_files: "quiet_result s (ls_files fs buf n pos s)"
proof (induction fs arbitrary: pos s)
  case (Cons f fs)
  show ?case unfolding ls_files.simps by (rule quiet_obind [OF quiet_ls_file Cons])
qed simp

lemma quiet_with_fd_mut:
  assumes "\<And>f. open_refs (snd (g f)) = open_refs f"
  shows "quiet s (snd (with_fd_mut fd g s))"
  using assms
  by (auto simp: with_fd_mut_def fd_open_with_mut_def split_beta intro!: quiet_upd_open
      split: option.split fd_target.split)

lemma quiet_random_loop: "quiet s (snd (random_loop n r s))"
proof (induction n arbitrary: r s)
  case (Suc n)
  have "quiet s (snd (if r = 0 then next_random_u64 s else (r, s)))"
    by (simp add: next_random_u64_def Let_def quiet_fields)
  with Suc show ?case by (auto simp: split_beta intro: quiet_trans)
qed simp

lemma quiet_futex_wake: "quiet s (snd (futex_wake a n s))"
  by (simp add: futex_wake_def quiet_fields split: prod.split)

lemma quiet_wake_robust: "quiet_result s (wake_robust_futex a t s)"
  by (auto simp: wake_robust_futex_def Let_def quiet_futex_wake
      intro!: quiet_obind quiet_copy_structs split: option.split)

lemma quiet_robust_loop: "quiet_result s (robust_loop n h off t node s)"
proof (induction n arbitrary: node s)
  case (Suc n)
  show ?case
    by (auto intro!: quiet_obind quiet_copy_structs quiet_wake_robust Suc split: option.split)
qed simp

lemma quiet_release_robust: "quiet_result s (release_robust_list s)"
  by (auto simp: release_robust_list_def Let_def intro!: quiet_obind quiet_copy_structs quiet_robust_loop
      quiet_wake_robust split: option.split)

lemma quiet_clear_child_tid: "quiet_result s (clear_child_tid_and_wake s)"
  by (auto simp: clear_child_tid_and_wake_def quiet_futex_wake
      intro!: quiet_obind quiet_copy_structs quiet_release_robust split: option.split)

section \<open>Cases in a call\<close>

lemma preserves_cases [keep_rules]:
  "preserves I a \<Longrightarrow> (\<And>y. preserves I (b y)) \<Longrightarrow> preserves I (case x of None \<Rightarrow> a | Some y \<Rightarrow> b y)"
  "(\<And>u v. preserves I (g u v)) \<Longrightarrow> preserves I (case z of (u, v) \<Rightarrow> g u v)"
  by (simp_all split: option.split prod.split)

lemma preserves_info [keep_rules]:
  "(\<And>b. preserves I (f b)) \<Longrightarrow> preserves I c \<Longrightarrow> (\<And>i n. preserves I (g i n)) \<Longrightarrow> preserves I d \<Longrightarrow>
   preserves I (case x of DStdio b \<Rightarrow> f b | DCharDevice \<Rightarrow> c | DFile i n \<Rightarrow> g i n | DPipe \<Rightarrow> d)"
  by (simp split: descriptor_info.split)

lemma preserves_ensure [keep_rules]: "preserves I (\<lambda>s. ensure (c s) e s)"
  by (simp add: preserves_def ensure_def)

lemma preserves_obind:
  assumes "preserves I f" "\<And>x. preserves I (k x)"
  shows "preserves I (\<lambda>s. obind (f s) k)"
  unfolding preserves_def
proof (intro allI impI)
  fix s assume "I s"
  then have "leaves I (f s)" by (rule preservesD [OF assms(1)])
  then show "leaves I (obind (f s) k)" using assms(2) by (cases "f s") (auto intro: preservesD)
qed

section \<open>Invariants that quiet changes keep\<close>

locale quiet_invariant =
  fixes I :: "kernel \<Rightarrow> bool"
  assumes quiet: "I s \<Longrightarrow> quiet s s' \<Longrightarrow> I s'"
begin

lemma quiet_preserves: "(\<And>s. quiet_result s (f s)) \<Longrightarrow> preserves I f"
  unfolding preserves_def
proof (intro allI impI)
  fix s assume q: "\<And>s. quiet_result s (f s)" and "I s"
  then show "leaves I (f s)" using q [of s] quiet [of s] by (cases "f s") simp_all
qed

lemma await_I:
  "(\<And>s. quiet_result s (f s)) \<Longrightarrow> preserves I (sys_await f e)"
  "(\<And>s. quiet_result s (g s)) \<Longrightarrow> preserves I (sys_await_test g e)"
  "(\<And>s. quiet_result s (h s)) \<Longrightarrow> preserves I (sys_run h)"
  by (simp_all add: quiet_preserves preserves_await preserves_await_test preserves_run)

lemma change_I:
  "(\<And>s. quiet s (snd (f s))) \<Longrightarrow> preserves I (sys_take f e)"
  "(\<And>s. quiet s (snd (g s))) \<Longrightarrow> preserves I (sys_test g e)"
  "(\<And>s. quiet s (h s)) \<Longrightarrow> preserves I (sys_modify h)"
  using quiet by (blast intro: preserves_take preserves_test preserves_modify)+

lemmas calls_I = await_I change_I quiet_copy_from_user quiet_copy_to_user quiet_copy_structs quiet_copy_cstr
  quiet_copy_paths quiet_copy_iovecs quiet_payload_args quiet_with_filesystem quiet_extend quiet_lift_fs
  quiet_write_to_fd quiet_read_from_fd quiet_seek quiet_set_status_flags quiet_set_cloexec quiet_user_store
  quiet_ls_files

lemma exe_name_I [keep_rules]: "preserves I exe_name"
  by (simp add: preserves_def exe_name_def sys_err_def sys_ok_def split: prod.split)

lemma find_or_create_I: "preserves I (find_or_create path flags)"
  unfolding find_or_create_def by (intro keep_rules calls_I)

lemma put_stat_I: "preserves I (put_stat p st)"
  unfolding put_stat_def by (intro keep_rules calls_I)

lemma stat_file_I: "preserves I (stat_file name p)"
  unfolding stat_file_def by (intro keep_rules put_stat_I)

lemma file_calls_I:
  "preserves I (vfs_fsize a)" "preserves I (vfs_fstat a b)" "preserves I (vfs_fstatat a b c d)"
  "preserves I (vfs_faccessat a b c d)" "preserves I (vfs_lseek a b c)" "preserves I (vfs_truncate a b)"
  "preserves I (vfs_ftruncate a b)" "preserves I (vfs_ls a b)" "preserves I (vfs_touch a b)"
  "preserves I (vfs_rm a b)" "preserves I (vfs_unlinkat a b c d)" "preserves I (vfs_readlink a b c)"
  "preserves I (vfs_readlinkat a b c d)" "preserves I (vfs_write_file a b c)" "preserves I (vfs_push_file a b c)"
  unfolding vfs_fsize_def fsize_impl_def vfs_fstat_def fstat_impl_def vfs_fstatat_def fstatat_impl_def
    vfs_faccessat_def faccessat_impl_def vfs_lseek_def lseek_impl_def vfs_truncate_def truncate_impl_def
    vfs_ftruncate_def ftruncate_impl_def vfs_ls_def ls_impl_def vfs_touch_def touch_impl_def vfs_rm_def
    rm_impl_def vfs_unlinkat_def unlinkat_impl_def vfs_readlink_def vfs_readlinkat_def readlinkat_impl_def
    readlink_impl_def readlink_common_def vfs_write_file_def write_file_impl_def vfs_push_file_def
    push_file_impl_def file_payload_impl_def Let_def
  by (intro preserves_done keep_rules calls_I put_stat_I stat_file_I)+

lemma seekable_I: "preserves I (seekable_file fd forb)"
  unfolding seekable_file_def by (intro keep_rules)

lemma pread64_I: "preserves I (pread64_impl a b c d)"
  unfolding pread64_impl_def by (intro keep_rules calls_I seekable_I)

lemma pwrite64_I: "preserves I (pwrite64_impl a b c d)"
  unfolding pwrite64_impl_def by (intro keep_rules calls_I seekable_I)

lemma vector_loops_I:
  "preserves I (writev_loop fd iovs m)" "preserves I (readv_loop fd iovs m)"
  "preserves I (preadv_loop fd iovs m off)" "preserves I (pwritev_loop fd iovs m off)"
  by (induction iovs arbitrary: m off)
    (simp_all only: writev_loop.simps readv_loop.simps preadv_loop.simps pwritev_loop.simps Let_def,
     (intro keep_rules calls_I pread64_I pwrite64_I; assumption?)+)

lemma sendfile_I: "preserves I (sendfile_impl a b c d)"
  unfolding sendfile_impl_def sendfile_offset_def Let_def
  by (intro keep_rules calls_I seekable_I quiet_with_fd_mut) (simp_all add: open_refs_def)

lemma io_calls_I:
  "preserves I (io_read a b c)" "preserves I (io_write a b c)" "preserves I (io_readv a b c)"
  "preserves I (io_writev a b c)" "preserves I (io_ioctl w a b c)" "preserves I (io_pread64 a b c d)"
  "preserves I (io_pwrite64 a b c d)" "preserves I (io_preadv a b c d)" "preserves I (io_pwritev a b c d)"
  "preserves I (io_sendfile a b c d)"
  unfolding io_read_def io_write_def io_readv_def io_writev_def io_ioctl_def io_pread64_def io_pwrite64_def
    io_preadv_def io_pwritev_def io_sendfile_def read_impl_def write_impl_def readv_impl_def writev_impl_def
    ioctl_impl_def preadv_impl_def pwritev_impl_def
  by (intro preserves_done keep_rules calls_I vector_loops_I pread64_I pwrite64_I sendfile_I)+

lemma sleep_I: "preserves I (sleep_yield n)"
  by (simp add: preserves_def sleep_yield_def sleep_poll_def)

lemma sleep_timespec_I: "preserves I (sleep_timespec req p)"
  unfolding sleep_timespec_def put_zero_timespec_def by (intro keep_rules calls_I preserves_run sleep_I)

lemma random_I: "preserves I (\<lambda>s. case random_loop n r s of (bs, s1) \<Rightarrow> sys_ok bs s1)"
  using quiet [OF _ quiet_random_loop] by (simp add: preserves_def sys_ok_def split_beta)

lemma getrlimit_I: "preserves I (syscall_getrlimit_impl a b)"
  unfolding syscall_getrlimit_impl_def by (intro keep_rules calls_I)

lemma nanosleep_I: "preserves I (nanosleep_impl a b)"
  unfolding nanosleep_impl_def by (intro keep_rules calls_I sleep_timespec_I)

lemma info_calls_I:
  "preserves I (syscall_uname a)" "preserves I (syscall_sysinfo a)" "preserves I (syscall_getrlimit r a)"
  "preserves I (syscall_setrlimit r a)" "preserves I (syscall_prlimit64 p r a b)" "preserves I (syscall_getcwd a b)"
  "preserves I (syscall_chdir a)" "preserves I (syscall_getrandom a b c)" "preserves I (time_nanosleep a b)"
  "preserves I (time_clock_gettime a b)" "preserves I (time_gettimeofday a b)" "preserves I (time_clock_nanosleep a b c d)"
  "preserves I (time_boottime bs a b)"
  unfolding syscall_uname_def syscall_uname_impl_def syscall_sysinfo_def syscall_sysinfo_impl_def
    syscall_getrlimit_def syscall_setrlimit_def syscall_prlimit64_def syscall_prlimit64_impl_def
    syscall_getcwd_def syscall_getcwd_impl_def syscall_chdir_def syscall_chdir_impl_def syscall_getrandom_def
    syscall_getrandom_impl_def time_nanosleep_def time_clock_gettime_def clock_gettime_impl_def
    time_gettimeofday_def gettimeofday_impl_def time_clock_nanosleep_def clock_nanosleep_impl_def
    put_zero_timespec_def time_boottime_def boottime_impl_def Let_def
  by (intro preserves_done keep_rules calls_I getrlimit_I random_I nanosleep_I sleep_timespec_I)+

lemma pci_list_I: "preserves I (sys_done (pci_list_impl ds a b))"
  unfolding pci_list_impl_def Let_def by (intro preserves_done keep_rules calls_I)

lemma plain_calls_I:
  "preserves I time_ticks" "preserves I time_uptime_seconds" "preserves I (sleep_ticks n)"
  "preserves I syscall_getpid" "preserves I syscall_getppid" "preserves I syscall_gettid"
  "preserves I syscall_getuid" "preserves I syscall_geteuid" "preserves I syscall_getgid"
  "preserves I syscall_getegid" "preserves I syscall_getpgrp"
  by (simp_all add: preserves_def time_ticks_def time_uptime_seconds_def sleep_ticks_def sleep_yield_def
      sleep_poll_def syscall_getpid_def syscall_getppid_def syscall_gettid_def syscall_getuid_def
      syscall_geteuid_def syscall_getgid_def syscall_getegid_def syscall_getpgrp_def)

lemma user_id_calls_I:
  "preserves I (syscall_getpgid a)" "preserves I (syscall_getsid a)" "preserves I (syscall_getresuid a b c)"
  "preserves I (syscall_getresgid a b c)" "preserves I (syscall_get_robust_list a b c)"
  unfolding syscall_getpgid_def syscall_getsid_def syscall_getresuid_def syscall_getresgid_def
    syscall_getpgid_impl_def syscall_getsid_impl_def process_id_impl_def syscall_getresuid_impl_def
    syscall_getresgid_impl_def put_u32_def syscall_get_robust_list_def syscall_get_robust_list_impl_def
  by (intro preserves_done keep_rules calls_I)+

lemma futex_poll_I: "preserves I (futex_poll slot a x start limit)"
proof -
  have w: "I t \<Longrightarrow> I (set_waiter slot w t)" for t w
    by (rule quiet [of t]) (simp_all add: set_waiter_def quiet_fields)
  have c: "preserves I (sys_await (copy_struct_from_user 4 a) Fault)" by (intro await_I quiet_copy_structs)
  have "leaves I (futex_poll slot a x start limit s)" if "I s" for s
    unfolding futex_poll_def sbind_def
    using that preservesD [OF c that]
    by (auto simp: sys_ok_def sys_err_def w intro!: leaves_bind split: sum.split option.split)
  then show ?thesis by (simp add: preserves_def)
qed

lemma futex_wait_I: "preserves I (futex_wait a x p)"
  unfolding futex_wait_def timeout_ticks_def Let_def
  by (intro keep_rules calls_I futex_poll_I) (simp add: set_waiter_def quiet_fields)

lemma futex_I: "preserves I (syscall_futex a b c d)"
proof -
  have "preserves I (\<lambda>s. case futex_wake a n s of (k, s1) \<Rightarrow> sys_ok (of_nat k) s1)" for n
    using quiet [OF _ quiet_futex_wake] by (simp add: preserves_def sys_ok_def split_beta)
  then show ?thesis
    unfolding syscall_futex_def syscall_futex_impl_def Let_def
    by (intro preserves_done keep_rules futex_wait_I)
qed

end

section \<open>Threads and processes\<close>

lemma fd_inv_upd_thread:
  assumes "fd_inv s" "\<And>th. group_slot (f th) = group_slot th"
  shows "fd_inv (upd_thread i f s)"
proof (cases "i < MAX_TASKS")
  case True
  then show ?thesis
    using assms fd_inv_keeps [OF assms(1) keeps_thread [of s i _ f]] by (simp add: upd_thread_def split: option.split)
next
  case False
  then show ?thesis
    using assms fd_inv_threads_shape [OF assms(1)]
    by (simp add: upd_thread_def threads_shape_def list_update_beyond split: option.split)
qed

lemma fd_inv_current_thread:
  assumes "fd_inv s" "\<And>th. group_slot (f th) = group_slot th"
  shows "fd_inv (current_thread_mut f s)"
proof -
  have "CURRENT s < MAX_TASKS" using fd_inv_threads_shape [OF assms(1)] by (simp add: threads_shape_def)
  then show ?thesis
    using assms fd_inv_keeps [OF assms(1) keeps_thread [of s "CURRENT s" _ f]]
    by (auto simp: current_thread_mut_def current_thread_def current_task_slot_def split: option.split)
qed

lemma fd_inv_upd_process:
  assumes "fd_inv s" "\<And>p. fds (f p) = fds p \<and> fd_flags (f p) = fd_flags p"
  shows "fd_inv (upd_process i f s)"
  using assms fd_inv_keeps [OF assms(1) keeps_process [of s i _ f]] by (simp add: upd_process_def split: option.split)

lemma fd_inv_queue:
  assumes "fd_inv s"
  shows "fd_inv (snd (queue_signal slot sig s))" "fd_inv (snd (queue_thread_signal slot sig s))"
    "fd_inv (notify_parent_exit parent s)"
  using assms
  by (simp_all add: queue_signal_def queue_thread_signal_def notify_parent_exit_def fd_inv_upd_process
      fd_inv_upd_thread split: option.split)

lemma fd_inv_kill_task: "fd_inv s \<Longrightarrow> fd_inv (kill_task i s)"
  by (rule fd_inv_keeps [OF _ keeps_kill_task])

lemma fd_inv_terminate_thread: "fd_inv s \<Longrightarrow> fd_inv (terminate_thread g i s)"
  using fd_inv_upd_thread [of s "thread_st_update (\<lambda>_. TZombie)" i]
  by (auto simp: terminate_thread_def upd_thread_def intro!: fd_inv_kill_task split: option.split)

lemma fd_inv_terminate_threads: "fd_inv s \<Longrightarrow> fd_inv (fold (terminate_thread g) is s)"
  by (induction "is" arbitrary: s) (simp_all add: fd_inv_terminate_thread)

lemma fd_inv_terminate: "fd_inv s \<Longrightarrow> fd_inv (terminate_process_group g sig s)"
  unfolding terminate_process_group_def Let_def
  by (intro fd_inv_queue fd_inv_terminate_threads fd_inv_upd_process) simp_all

lemma fd_inv_exit_thread: "fd_inv s \<Longrightarrow> fd_inv (snd (exit_thread code whole s))"
  by (rule fd_inv_keeps [OF _ keeps_exit_thread [OF fd_inv_threads_shape]])

interpretation fd_quiet: quiet_invariant fd_inv
  by unfold_locales (rule fd_inv_quiet)

text \<open>The same with a process running.\<close>

definition live_inv :: "kernel \<Rightarrow> bool" where
  "live_inv s \<longleftrightarrow> fd_inv s \<and> current_process s \<noteq> None"

lemma quiet_current_process:
  assumes "quiet s s'" "fd_inv s" "current_process s \<noteq> None"
  shows "current_process s' \<noteq> None"
proof -
  obtain th where th: "current_thread s = Some th" "PROCESSES s ! group_slot th \<noteq> None"
    using assms(3) by (auto simp: current_process_def split: option.splits)
  have "group_slot th < length (PROCESSES s)"
    using th(1) assms(2)
    by (auto simp: current_thread_def current_task_slot_def fd_inv_def shape_def)
  moreover have "map fd_table (PROCESSES s') = map fd_table (PROCESSES s)" "current_thread s' = current_thread s"
    using assms(1) by (simp_all add: quiet_def same_refs_def current_thread_def current_task_slot_def)
  ultimately have "fd_table (PROCESSES s' ! group_slot th) = fd_table (PROCESSES s ! group_slot th)"
    by (intro map_eq_nth)
  then show ?thesis
    using th \<open>current_thread s' = current_thread s\<close>
    by (auto simp: current_process_def fd_table_def split: option.splits)
qed

interpretation live_quiet: quiet_invariant live_inv
  by unfold_locales (auto simp: live_inv_def intro: fd_inv_quiet dest: quiet_current_process)

section \<open>Calls on processes and signals\<close>

lemma fd_inv_ops:
  "fd_inv s \<Longrightarrow> fd_inv (snd (close_descriptor fd s))"
  "fd_inv s \<Longrightarrow> fd_inv (snd (dup_min fd lo cx s))"
  "fd_inv s \<Longrightarrow> fd_inv (snd (dup_exact fd fd' cx s))"
  "fd_inv s \<Longrightarrow> fd_inv (snd (create_pipe_pair s))"
  "fd_inv s \<Longrightarrow> fd_inv (snd (open_char_device t s))"
  by (auto intro: fd_step_inv fd_step.intros)

lemma descriptor_calls_I:
  "preserves fd_inv (syscall_close a)" "preserves fd_inv (syscall_dup a)" "preserves fd_inv (syscall_dup3 a b c)"
  "preserves fd_inv (syscall_fcntl a b c)"
  unfolding syscall_close_def syscall_close_impl_def syscall_dup_def syscall_dup_impl_def syscall_dup3_def
    syscall_dup3_impl_def syscall_fcntl_def syscall_fcntl_impl_def
  by (intro preserves_done keep_rules preserves_take preserves_test fd_inv_ops fd_inv_quiet [OF _ quiet_set_cloexec]
      fd_inv_quiet [OF _ quiet_set_status_flags]; assumption)+

lemma pipe_impl_I: "preserves fd_inv (syscall_pipe_impl p)"
  unfolding syscall_pipe_impl_def
  by (intro keep_rules preserves_take preserves_modify fd_inv_ops fd_quiet.await_I quiet_copy_to_user)

lemma pipe_calls_I: "preserves fd_inv (syscall_pipe a)" "preserves fd_inv (syscall_pipe2 a b)"
  unfolding syscall_pipe_def syscall_pipe2_def syscall_pipe2_impl_def pipe2_flags_def Let_def
  by (intro preserves_done keep_rules pipe_impl_I fd_quiet.calls_I)+

lemma process_calls_I:
  "preserves fd_inv (syscall_setuid a)" "preserves fd_inv (syscall_setgid a)" "preserves fd_inv (syscall_setpgid a b)"
  "preserves fd_inv (syscall_umask a)" "preserves fd_inv (syscall_rt_sigaction a b c d)"
  unfolding syscall_setuid_def syscall_setuid_impl_def syscall_setgid_def syscall_setgid_impl_def
    syscall_setpgid_def syscall_setpgid_impl_def syscall_umask_def syscall_umask_impl_def syscall_rt_sigaction_def
    syscall_rt_sigaction_impl_def install_action_def Let_def
  by (intro preserves_done keep_rules preserves_modify fd_inv_mut fd_quiet.await_I quiet_copy_structs; simp)+

lemma thread_calls_I:
  "preserves fd_inv (syscall_set_tid_address a)" "preserves fd_inv (syscall_rt_sigprocmask a b c d)"
  "preserves fd_inv (syscall_sigaltstack a b)" "preserves fd_inv (syscall_set_robust_list a b)"
  unfolding syscall_set_tid_address_def syscall_set_tid_address_impl_def syscall_rt_sigprocmask_def
    syscall_rt_sigprocmask_impl_def syscall_sigaltstack_def syscall_sigaltstack_impl_def install_altstack_def
    syscall_set_robust_list_def syscall_set_robust_list_impl_def Let_def
  by (intro preserves_done keep_rules preserves_modify fd_inv_current_thread fd_quiet.await_I quiet_copy_structs; simp)+

lemma arch_prctl_I: "preserves fd_inv (syscall_arch_prctl a b)"
  unfolding syscall_arch_prctl_def syscall_arch_prctl_impl_def
  by (intro preserves_done keep_rules preserves_modify fd_inv_quiet [OF _ quiet_fields(5)] fd_inv_current_thread
      fd_quiet.await_I quiet_copy_structs; simp)

lemma current_frame_I [keep_rules]: "preserves I (current_frame p)"
  unfolding current_frame_def by (intro keep_rules)

lemma sigreturn_I: "preserves fd_inv (syscall_rt_sigreturn p)"
proof -
  have "preserves fd_inv (\<lambda>s. sys_await (copy_struct_from_user n (f s)) e s)" for n f e
    using preservesD [OF fd_quiet.await_I(1) [OF quiet_copy_structs(1)]] by (simp add: preserves_def)
  then show ?thesis
    unfolding syscall_rt_sigreturn_def syscall_rt_sigreturn_impl_def
    by (intro preserves_done keep_rules preserves_modify fd_inv_current_thread fd_inv_quiet [OF _ quiet_fields(1)]; simp)
qed

lemma tkill_impl_I: "preserves fd_inv (syscall_tkill_impl a b)"
  unfolding syscall_tkill_impl_def
  by (intro keep_rules preserves_modify preserves_test fd_inv_terminate fd_inv_queue; assumption)

lemma kill_calls_I:
  "preserves fd_inv (syscall_kill a b)" "preserves fd_inv (syscall_tkill a b)" "preserves fd_inv (syscall_tgkill a b c)"
  unfolding syscall_kill_def syscall_kill_impl_def syscall_tkill_def syscall_tgkill_def syscall_tgkill_impl_def
  by (intro preserves_done keep_rules tkill_impl_I preserves_modify preserves_test fd_inv_terminate fd_inv_queue; assumption?)+

lemma frame_set_inv: "fd_inv s \<Longrightarrow> fd_inv (frame_set off fp v s)"
  unfolding frame_set_def by (rule fd_inv_quiet [OF _ quiet_fields(1)])

lemma run_handler_I: "preserves fd_inv (run_handler sig action th fp)"
proof -
  have "preserves fd_inv (sys_await_test (\<lambda>s. copy_struct_to_user p (frame_bytes f s) s) e)" for p f e
    by (rule fd_quiet.await_I) (rule quiet_copy_structs)
  moreover have "fd_inv s \<Longrightarrow> fd_inv (enter_handler sig action f p s)" for f p s
    unfolding enter_handler_def comp_def by (intro frame_set_inv fd_inv_current_thread) simp_all
  ultimately show ?thesis
    unfolding run_handler_def signal_stack_def
    by (intro keep_rules preserves_modify fd_inv_current_thread fd_quiet.await_I quiet_copy_structs; simp)
qed

lemma deliver_I: "preserves fd_inv (deliver_pending_signal fp)"
proof -
  have "fd_inv s \<Longrightarrow> fd_inv (take_signal sig d s)" for sig d s
    unfolding take_signal_def by (auto intro: fd_inv_current_thread fd_inv_mut)
  then show ?thesis
    unfolding deliver_pending_signal_def Let_def
    by (intro keep_rules preserves_modify fd_inv_terminate run_handler_I; simp)
qed

lemma finish_syscall_I: "preserves fd_inv (finish_syscall num fp ret)"
  unfolding preserves_def finish_syscall_def Let_def
  by (auto intro!: leaves_bind preservesD [OF deliver_I] frame_set_inv)

lemma slot_of_pid: "find_slot_by_pid n s = Some i \<Longrightarrow> fd_inv s \<Longrightarrow> i < MAX_TASKS"
  by (auto simp: find_slot_by_pid_def position_def first_such_Some_iff fd_inv_def shape_def)

lemma preserves_get:
  assumes "\<And>x s. I s \<Longrightarrow> f s = Some x \<Longrightarrow> preserves I (k x)"
  shows "preserves I (sys_seq (sys_get f e) k)"
  using assms
  by (auto simp: preserves_def sys_seq_def sys_get_def sbind_def sys_option_def split: option.split)

lemma waitpid_I: "preserves fd_inv (syscall_waitpid n)"
proof -
  have "preserves fd_inv (waitpid_poll slot)" if "slot < MAX_TASKS" for slot
    using reap_slot_inv [OF _ that] by (simp add: preserves_def waitpid_poll_def sys_take_def split_beta)
  then show ?thesis
    unfolding syscall_waitpid_def syscall_waitpid_impl_def
    by (intro preserves_done preserves_seq preserves_get keep_rules; metis slot_of_pid)
qed

lemma exit_calls_I: "preserves fd_inv (syscall_exit c)" "preserves fd_inv (syscall_exit_group c)"
proof -
  have h: "fd_inv s \<Longrightarrow> leaves fd_inv (halt_thread s)" for s
    unfolding halt_thread_def
    by (auto intro!: fd_inv_quiet [OF _ quiet_fields(6)] fd_inv_kill_task split: option.split)
  have c: "preserves fd_inv clear_child_tid_and_wake" by (rule fd_quiet.quiet_preserves) (rule quiet_clear_child_tid)
  show "preserves fd_inv (syscall_exit c)" "preserves fd_inv (syscall_exit_group c)"
    unfolding preserves_def syscall_exit_def syscall_exit_group_def
    by (auto simp: split_beta intro!: leaves_bind h fd_inv_queue fd_inv_exit_thread intro: preservesD [OF c])
qed

section \<open>Opening a file\<close>

text \<open>From \<open>P\<close> before the call to \<open>Q\<close> after it.\<close>

definition leads :: "(kernel \<Rightarrow> bool) \<Rightarrow> (kernel \<Rightarrow> bool) \<Rightarrow> (kernel \<Rightarrow> (kernel, 'a) outcome) \<Rightarrow> bool" where
  "leads P Q m \<longleftrightarrow> (\<forall>s. P s \<longrightarrow> leaves Q (m s))"

lemma live_invD: "live_inv s \<Longrightarrow> fd_inv s"
  by (simp add: live_inv_def)

lemma leads_fd: "preserves fd_inv m \<Longrightarrow> leads live_inv fd_inv m"
  by (simp add: leads_def preserves_def live_invD)

lemma leads_seq:
  assumes "preserves live_inv m" "\<And>x. leads live_inv fd_inv (k x)"
  shows "leads live_inv fd_inv (sys_seq m k)"
  unfolding leads_def
proof (intro allI impI)
  fix s assume "live_inv s"
  then have "leaves live_inv (m s)" by (rule preservesD [OF assms(1)])
  then show "leaves fd_inv (sys_seq m k s)"
    using assms(2) by (cases "m s") (auto simp: sys_seq_def sbind_def leads_def live_invD split: sum.split)
qed

lemma open_fd_I: "(\<And>s. fd_inv s \<Longrightarrow> fd_inv (snd (f s))) \<Longrightarrow> preserves fd_inv (open_fd f)"
  unfolding open_fd_def by (intro keep_rules preserves_take)

lemma leads_open_file: "leads live_inv fd_inv (sys_seq (sys_take (proc_open_file i fl) e) (\<lambda>fd. sys_ok (g fd)))"
  using proc_open_file_inv
  by (auto simp: leads_def live_inv_def sys_seq_def sys_take_def sbind_def sys_ok_def sys_option_def split_beta
      split: option.split)

lemma open_path_leads: "leads live_inv fd_inv (open_path name flags)"
  unfolding open_path_def Let_def
  by (intro leads_seq leads_open_file keep_rules live_quiet.find_or_create_I live_quiet.calls_I)

lemma open_special_leads:
  assumes "open_special_path raw flags = Some m"
  shows "leads live_inv fd_inv m"
proof -
  have "leads live_inv fd_inv (sys_seq exe_name (\<lambda>name. open_path name flags))"
    by (intro leads_seq live_quiet.exe_name_I open_path_leads)
  moreover have "leads live_inv fd_inv (open_fd (open_char_device t))" "leads live_inv fd_inv (open_fd (dup_min fd lo cx))"
    "leads live_inv fd_inv (sys_err e)" for t fd lo cx and e :: sys_error
    by (intro leads_fd open_fd_I fd_inv_ops keep_rules; assumption)+
  ultimately show ?thesis using assms by (auto simp: open_special_path_def split: if_splits)
qed

lemma open_impl_leads: "leads live_inv fd_inv (open_impl p flags mode)"
proof -
  have "leads live_inv fd_inv (case open_special_path raw flags of Some special \<Rightarrow> special
      | None \<Rightarrow> sys_seq (sys_await (copy_path_cstr_from_user p) Fault) (\<lambda>name. open_path name flags))" for raw
    using open_special_leads leads_seq [OF live_quiet.await_I(1) [OF quiet_copy_paths(1)] open_path_leads]
    by (simp split: option.split)
  then show ?thesis
    unfolding open_impl_def by (intro leads_seq live_quiet.calls_I)
qed

lemma leads_done: "leads P Q m \<Longrightarrow> leads P Q (sys_done m)"
  unfolding leads_def sys_done_def by (auto intro!: leaves_bind)

lemma open_calls_leads: "leads live_inv fd_inv (vfs_open a b c)" "leads live_inv fd_inv (vfs_openat a b c d)"
  unfolding vfs_open_def vfs_openat_def openat_impl_def
  by (intro leads_done leads_seq open_impl_leads keep_rules)+

section \<open>The dispatcher\<close>

definition machine_inv :: "'h machine \<Rightarrow> bool" where
  "machine_inv m \<longleftrightarrow> fd_inv (m_kernel m)"

lemma on_kernel_leaves:
  "leaves fd_inv (f (m_kernel m)) \<Longrightarrow> leaves machine_inv (on_kernel f m)"
  by (cases "f (m_kernel m)") (simp_all add: on_kernel_def machine_inv_def put_kernel_def)

lemma on_kernel_I: "preserves fd_inv f \<Longrightarrow> live_inv (m_kernel m) \<Longrightarrow> leaves machine_inv (on_kernel f m)"
  by (rule on_kernel_leaves) (rule preservesD, assumption, rule live_invD)

lemma on_kernel_leads: "leads live_inv fd_inv f \<Longrightarrow> live_inv (m_kernel m) \<Longrightarrow> leaves machine_inv (on_kernel f m)"
  by (rule on_kernel_leaves) (simp add: leads_def)

lemma leaves_if: "(c \<Longrightarrow> leaves I a) \<Longrightarrow> (\<not> c \<Longrightarrow> leaves I b) \<Longrightarrow> leaves I (if c then a else b)"
  by simp

lemmas call_rules = fd_quiet.file_calls_I fd_quiet.io_calls_I fd_quiet.info_calls_I fd_quiet.plain_calls_I
  fd_quiet.user_id_calls_I fd_quiet.futex_I descriptor_calls_I pipe_calls_I process_calls_I thread_calls_I
  arch_prctl_I sigreturn_I kill_calls_I waitpid_I exit_calls_I fd_mm.brk_I fd_mm.mmap_I fd_mm.munmap_I fd_mm.mprotect_I

lemma leaves_same: "live_inv (m_kernel m) \<Longrightarrow> m_kernel m' = m_kernel m \<Longrightarrow> leaves machine_inv (Done r m')"
  by (simp add: machine_inv_def live_invD)

lemma leaves_pci:
  assumes "live_inv (m_kernel m)"
  shows "leaves machine_inv (pci_list rd a b m)" "leaves machine_inv (pci_test rd wr m)"
  unfolding pci_list_def pci_test_def Let_def
  using assms by (auto intro!: on_kernel_I fd_quiet.pci_list_I simp: machine_inv_def live_invD split: prod.split)

lemma route_keeps:
  assumes live: "live_inv (m_kernel m)" and "num \<notin> {NR_CLONE, NR_FORK, NR_EXEC}"
  shows "leaves machine_inv (route rd wr num a1 a2 a3 a4 a5 a6 frame m)"
proof -
  have n: "num \<noteq> NR_CLONE" "num \<noteq> NR_FORK" "num \<noteq> NR_EXEC" using assms(2) by simp_all
  note k = on_kernel_I [OF _ live] and l = on_kernel_leads [OF _ live] and d = leaves_same [OF live]
  have w: "leaves machine_inv (Waiting m)" "leaves machine_inv Panicked"
    using live by (simp_all add: machine_inv_def live_invD)
  show ?thesis
    unfolding route_def if_not_P [OF n(1)] if_not_P [OF n(2)] if_not_P [OF n(3)]
    by (rule leaves_if | rule w leaves_pci [OF live] | rule k, rule call_rules | rule l, rule open_calls_leads
        | rule d, simp)+
qed

text \<open>C2: A system call keeps the reference counts exact. Whatever the number and the arguments, when
  a process runs and every count is the number of descriptors that refer to the entry, then this
  still holds in every state that the call leaves behind: when it returns, with a pending signal
  delivered, when it waits and when it faults. The three calls that make a process or a thread are
  left out, as the slot they take may hold a process that nobody has waited for.\<close>

theorem syscall_keeps_counts:
  assumes "fd_inv (m_kernel m)" "current_process (m_kernel m) \<noteq> None"
    and "num \<notin> {NR_CLONE, NR_FORK, NR_EXEC}"
  shows "leaves (\<lambda>m'. fd_inv (m_kernel m')) (syscall_dispatch rd wr num a1 a2 a3 a4 frame m)"
proof -
  have "live_inv (m_kernel m)" using assms(1,2) by (simp add: live_inv_def)
  then have "leaves machine_inv (syscall_dispatch rd wr num a1 a2 a3 a4 frame m)"
    unfolding syscall_dispatch_def Let_def
    by (intro leaves_bind route_keeps assms(3))
      (auto intro!: on_kernel_leaves preservesD [OF finish_syscall_I] simp: machine_inv_def)
  then show ?thesis by (rule leaves_mono) (simp add: machine_inv_def)
qed

definition machine_example :: "unit machine" where
  "machine_example =
     \<lparr>m_kernel = fd_example, m_console = console_example, m_bench = bench_statics, m_pci = pci_statics ()\<rparr>"

theorem syscall_keeps_counts_witness:
  "leaves (\<lambda>m. fd_inv (m_kernel m))
     (syscall_dispatch pci_example (\<lambda>_ _ h. h) NR_PIPE 0x400000 0 0 0 0 machine_example)"
proof -
  have "fd_inv fd_example" by (rule fd_step_inv [OF fd_example_step fd_inv_statics])
  then show ?thesis
    by (intro syscall_keeps_counts) (simp_all add: machine_example_def fd_example_process)
qed

end
