(* ===== verification/Spec2Isabelle.thy ===== *)
theory Spec2Isabelle
  imports Heap Sync Pipe VmRegions Console Descriptors Shell SysInv
begin

text \<open>
  Verification of the CoreOS kernel (\<^verbatim>\<open>src/kernel\<close>), a kernel for one 64-bit x86 processor written in
  Rust.

  \<^bold>\<open>The program.\<close> The bootloader hands over a memory map, a frame buffer and files. The kernel counts
  physical frames, builds page tables, runs tasks round robin on a timer and serves about a hundred
  system calls. A call enters with a number and up to six arguments, is routed to a handler, and on
  its way back a pending signal is delivered. Handlers work on the tables of processes, threads, open
  files and pipes, on a flat file system in memory, on the terminal, and on user memory through the
  page tables of the running process.

  \<^bold>\<open>Conventions.\<close> Source paths below are relative to \<^verbatim>\<open>src/kernel/src\<close>. Fixed-width integers are words
  of their width, with the wrap-around of a release build; indices, slots and process numbers are
  \<open>nat\<close>; signed values are words read with \<open>sint\<close>. The static variables are the records \<open>phys\<close> (frames
  and memory) and \<open>kernel\<close>. An operation that can panic, fault or block gives an \<open>outcome\<close>: \<open>Done\<close>,
  \<open>Panicked\<close>, \<open>Faulted\<close> or \<open>Waiting\<close>; \<open>Waiting s\<close> says that the operation has not returned and that
  other code runs on from \<open>s\<close>. A handler gives in addition an error or a value. Locks do not appear
  in the state, except in \<open>Sync\<close>: each is taken and released within one modelled operation. A fault
  inside such an operation leaves its lock held, which the model does not show.

  \<^bold>\<open>Theories.\<close>
  \<^item> \<open>Prelude\<close>: word types, checked and saturating arithmetic, search loops, outcomes. \<open>Memory\<close>:
    physical memory as a function from addresses to bytes.
  \<^item> \<open>Pmm\<close>: \<^verbatim>\<open>mem/pmm.rs\<close>, \<^verbatim>\<open>mem/validate.rs\<close> and the self test. Allocation hands out the lowest
    free frame, cleared, and for several frames the first run that fits.
  \<^item> \<open>Heap\<close>: \<^verbatim>\<open>mem/heap.rs\<close>. Blocks are disjoint, and a freed one can be used again.
  \<^item> \<open>Paging\<close>, \<open>AddressSpace\<close>: \<^verbatim>\<open>arch/amd64/paging.rs\<close>. Mapping, unmapping and protecting change what one
    page translates to and nothing else.
  \<^item> \<open>Descriptors\<close>: \<^verbatim>\<open>arch/amd64/idt.rs\<close>, \<^verbatim>\<open>arch/amd64/gdt.rs\<close>, the tables the processor reads.
  \<^item> \<open>Fifo\<close>, \<open>Keyboard\<close>, \<open>Tty\<close>: \<^verbatim>\<open>hw/kbd_buffer.rs\<close>, \<^verbatim>\<open>hw/ps2.rs\<close>, \<^verbatim>\<open>hw/tty.rs\<close>, \<^verbatim>\<open>hw/keyboard.rs\<close>. The ring
    buffers implement a bounded queue, a contract stated once; the line editor refines three lists.
  \<^item> \<open>RamFs\<close>: \<^verbatim>\<open>fs.rs\<close>, \<^verbatim>\<open>vfs.rs\<close>, \<^verbatim>\<open>syscall/fs.rs\<close>. The file table refines a map from names to contents.
  \<^item> \<open>Sync\<close>: \<^verbatim>\<open>sync.rs\<close>, \<^verbatim>\<open>arch/amd64/cpu.rs\<close>, the spin lock as a step relation: mutual exclusion.
  \<^item> \<open>ProcState\<close>, \<open>Tasks\<close>: \<^verbatim>\<open>proc/state.rs\<close>, \<^verbatim>\<open>proc/task.rs\<close>, \<^verbatim>\<open>proc/process.rs\<close>, \<^verbatim>\<open>proc/scheduler.rs\<close>, \<^verbatim>\<open>hw/pit.rs\<close>,
    \<^verbatim>\<open>panic.rs\<close>. Switching takes the next ready task, and every ready task is reached.
  \<^item> \<open>UserMem\<close>: \<^verbatim>\<open>usercopy.rs\<close>, \<^verbatim>\<open>syscall/helpers.rs\<close>, \<^verbatim>\<open>syscall/result.rs\<close>. What is copied out is copied in.
  \<^item> \<open>Fd\<close>, \<open>FdInv\<close>, \<open>FdSteps\<close>, \<open>Pipe\<close>: \<^verbatim>\<open>proc/fd.rs\<close>, \<^verbatim>\<open>proc/fd_open.rs\<close>, \<^verbatim>\<open>proc/fd_io.rs\<close>, \<^verbatim>\<open>proc/fd_pipe.rs\<close>.
    The count of an open file or pipe end is the number of descriptors that refer to it.
  \<^item> \<open>SysBase\<close>: sequences of handler steps, and what it means that a call keeps an invariant.
  \<^item> \<open>Vm\<close>, \<open>VmInv\<close>, \<open>VmMap\<close>, \<open>VmRegions\<close>: \<^verbatim>\<open>proc/vm.rs\<close>, \<^verbatim>\<open>syscall/mm.rs\<close>. Regions do not overlap, and a new
    mapping is zeroed memory of its own.
  \<^item> \<open>Exec\<close>: \<^verbatim>\<open>proc/elf.rs\<close>, \<^verbatim>\<open>proc/exec.rs\<close>. \<open>Signals\<close>, \<open>Futex\<close>, \<open>SysProcess\<close>: \<^verbatim>\<open>syscall/process.rs\<close>.
    \<open>SysIo\<close>: \<^verbatim>\<open>syscall/io.rs\<close>. \<open>SysVfs\<close>: \<^verbatim>\<open>syscall/vfs.rs\<close>. \<open>SysMisc\<close>: \<^verbatim>\<open>syscall/sys.rs\<close>, \<^verbatim>\<open>syscall/time.rs\<close>,
    \<^verbatim>\<open>syscall/net.rs\<close>.
  \<^item> \<open>Console\<close>: \<^verbatim>\<open>drivers/vga\<close>. \<open>Pci\<close>: \<^verbatim>\<open>hw/pci.rs\<close>. \<open>Bench\<close>: \<^verbatim>\<open>bench.rs\<close>. \<open>Shell\<close>: \<^verbatim>\<open>shell/mod.rs\<close>,
    \<^verbatim>\<open>shell/commands.rs\<close>.
  \<^item> \<open>Dispatch\<close>: \<^verbatim>\<open>syscall/nr.rs\<close>, \<^verbatim>\<open>syscall/dispatch.rs\<close>, \<^verbatim>\<open>syscall/mod.rs\<close>, \<^verbatim>\<open>syscall/pci.rs\<close>. \<open>SysInv\<close>: every
    call but the three that make a task keeps the reference counts exact, by one lemma per handler
    over a contract of the invariants that quiet changes keep.

  \<^bold>\<open>Parameters.\<close> The PCI hardware is a pair of functions for reads and writes of its configuration
  space; the addresses of interrupt handlers and of the task state segment, the time stamp counter
  and the window size are arguments.

  \<^bold>\<open>Bounds and loops.\<close> Loops over tables and buffers recurse over the list or count they walk. The page
  loop of \<^verbatim>\<open>brk\<close> compares addresses that may wrap around; it is a partial function, and it is proved
  to return for all arguments. The walk over a robust list has the bound of the source, 64. Polling
  loops are modelled by one turn, which waits when the condition does not hold yet.

  \<^bold>\<open>Assumptions.\<close> Allocation by the collections of the standard library succeeds. Padding in structures
  copied to the user is 0. Characters of names are below 256. The processor caches no translation
  that the tables no longer hold.

  \<^bold>\<open>Not modelled.\<close> Assembly: the entry and exit of system calls, interrupt stubs, task switching on
  registers and the loading of processor tables; their effect on the modelled state is written where
  the code relies on it. Port input and output of \<^verbatim>\<open>hw/pic.rs\<close>, \<^verbatim>\<open>hw/rtc.rs\<close>, \<^verbatim>\<open>hw/mod.rs\<close> and
  \<^verbatim>\<open>drivers/serial.rs\<close>, as the devices are not in the repository, and all messages to the serial port.
  \<^verbatim>\<open>main.rs\<close>, \<^verbatim>\<open>kernel_boot\<close> and \<^verbatim>\<open>shell/ui.rs\<close> call the modelled parts in turn and print. The bootloader
  and the build tool call firmware and host programs. \<^verbatim>\<open>proc/signal.rs\<close> and \<^verbatim>\<open>syscall/legacy\<close> are in no
  module and are not compiled. Of the modelled parts, ELF loading, signal delivery, boot timing and
  the shell commands that touch files have definitions but few or no theorems of their own.
\<close>

end
